(* ===== verification/Prelude.thy ===== *)
theory Prelude
  imports Complex_Main "HOL-Library.Multiset"
begin

section \<open>Shared vocabulary of the development\<close>

text \<open>
  What every component uses: the JavaScript exceptions the modelled code can raise, a bind for
  computations that may raise, the array primitives of the language that the sources call
  (\<^verbatim>\<open>reduce\<close> without an initial value, \<^verbatim>\<open>findIndex\<close>, \<^verbatim>\<open>slice\<close>, \<^verbatim>\<open>find\<close>, stable
  \<^verbatim>\<open>sort\<close>) and generic lemmas on them. The collections \<open>js_defs\<close> and \<open>js_simps\<close> carry the
  unfolding rules of the language primitives and their simplified forms.
\<close>

named_theorems js_defs \<open>definitions of JavaScript primitives\<close>
named_theorems js_simps \<open>simplified forms of JavaScript primitives\<close>

subsection \<open>Exceptions and computations that may raise\<close>

datatype js_error =
    TypeError
  | SyntaxError
  | Thrown string

type_synonym 'a js = "js_error + 'a"

definition bindE :: "'e + 'a \<Rightarrow> ('a \<Rightarrow> 'e + 'b) \<Rightarrow> 'e + 'b" where
  "bindE m f = (case m of Inl e \<Rightarrow> Inl e | Inr x \<Rightarrow> f x)"

subsection \<open>Arrays\<close>

definition reduce1 :: "('a \<Rightarrow> 'a \<Rightarrow> 'a) \<Rightarrow> 'a list \<Rightarrow> 'a js" where
  "reduce1 f xs = (case xs of [] \<Rightarrow> Inl TypeError | y # ys \<Rightarrow> Inr (foldl f y ys))"

fun findIndex_from :: "int \<Rightarrow> ('a \<Rightarrow> bool) \<Rightarrow> 'a list \<Rightarrow> int" where
  "findIndex_from i P [] = -1"
| "findIndex_from i P (x # xs) = (if P x then i else findIndex_from (i + 1) P xs)"

definition findIndex :: "('a \<Rightarrow> bool) \<Rightarrow> 'a list \<Rightarrow> int" where
  "findIndex P xs = findIndex_from 0 P xs"

definition slice2 :: "nat \<Rightarrow> nat \<Rightarrow> 'a list \<Rightarrow> 'a list" where
  "slice2 i j xs = take (j - i) (drop i xs)"

definition array_set :: "'a list \<Rightarrow> int \<Rightarrow> 'a \<Rightarrow> 'a list" where
  "array_set xs i v = (if 0 \<le> i \<and> i < int (length xs) then xs[nat i := v] else xs)"

text \<open>
  \<open>sort_by cmp\<close> is the stable sort of the language for a comparator that answers whether its
  second argument has to come before its first one.
\<close>

fun insert_by :: "('a \<Rightarrow> 'a \<Rightarrow> bool) \<Rightarrow> 'a \<Rightarrow> 'a list \<Rightarrow> 'a list" where
  "insert_by after x [] = [x]"
| "insert_by after x (y # ys) = (if after x y then y # insert_by after x ys else x # y # ys)"

definition sort_by :: "('a \<Rightarrow> 'a \<Rightarrow> bool) \<Rightarrow> 'a list \<Rightarrow> 'a list" where
  "sort_by after xs = foldr (insert_by after) xs []"

subsection \<open>Strings\<close>

text \<open>
  \<open>digit_char\<close> and \<open>show_nat\<close> print an unsigned integer in decimal, as the conversion of an
  integral value to a string does; \<open>show_int\<close> adds the sign. \<open>padStart0\<close> and \<open>padEnd0\<close> are the
  string methods of the language with the filler \<^verbatim>\<open>"0"\<close>.
\<close>

definition digit_char :: "nat \<Rightarrow> char" where
  "digit_char d = char_of (48 + d)"

fun show_nat :: "nat \<Rightarrow> string" where
  "show_nat n = (if n < 10 then [digit_char n] else show_nat (n div 10) @ [digit_char (n mod 10)])"

declare show_nat.simps [simp del]

definition show_int :: "int \<Rightarrow> string" where
  "show_int i = (if i < 0 then CHR ''-'' # show_nat (nat (- i)) else show_nat (nat i))"

definition padStart0 :: "nat \<Rightarrow> string \<Rightarrow> string" where
  "padStart0 n s = replicate (n - length s) (CHR ''0'') @ s"

definition padEnd0 :: "nat \<Rightarrow> string \<Rightarrow> string" where
  "padEnd0 n s = s @ replicate (n - length s) (CHR ''0'')"

subsection \<open>Generic lemmas\<close>

lemma bindE_simps [simp, js_simps]:
  "bindE (Inl e) f = Inl e"
  "bindE (Inr x) f = f x"
  by (simp_all add: bindE_def)

lemma bindE_eq_Inr:
  "bindE m f = Inr y \<longleftrightarrow> (\<exists>x. m = Inr x \<and> f x = Inr y)"
  by (cases m) simp_all

lemma reduce1_simps [simp, js_simps]:
  "reduce1 f [] = Inl TypeError"
  "reduce1 f (x # xs) = Inr (foldl f x xs)"
  by (simp_all add: reduce1_def)

lemma findIndex_from_bounds:
  "findIndex_from i P xs = -1 \<or> (i \<le> findIndex_from i P xs \<and> findIndex_from i P xs < i + int (length xs))"
proof (induction xs arbitrary: i)
  case (Cons x xs)
  from Cons.IH [of "i + 1"] show ?case by auto
qed simp

lemma findIndex_from_hit:
  "0 \<le> i \<Longrightarrow> findIndex_from i P xs \<noteq> -1 \<Longrightarrow> P (xs ! nat (findIndex_from i P xs - i))"
proof (induction xs arbitrary: i)
  case (Cons x xs)
  show ?case
  proof (cases "P x")
    case False
    with Cons.prems have ne: "findIndex_from (i + 1) P xs \<noteq> -1" by simp
    with findIndex_from_bounds [of "i + 1" P xs] have "i + 1 \<le> findIndex_from (i + 1) P xs" by simp
    then have "nat (findIndex_from (i + 1) P xs - i) = Suc (nat (findIndex_from (i + 1) P xs - (i + 1)))"
      by simp
    with Cons.IH [of "i + 1"] Cons.prems ne False show ?thesis by simp
  qed simp
qed simp

lemma findIndex_miss: "findIndex P xs = -1 \<longleftrightarrow> (\<forall>x\<in>set xs. \<not> P x)"
proof -
  have "0 \<le> i \<Longrightarrow> findIndex_from i P xs = -1 \<longleftrightarrow> (\<forall>x\<in>set xs. \<not> P x)" for i
    by (induction xs arbitrary: i) auto
  then show ?thesis by (simp add: findIndex_def)
qed

lemma findIndex_hit:
  assumes "findIndex P xs \<noteq> -1"
  shows "0 \<le> findIndex P xs \<and> findIndex P xs < int (length xs) \<and> P (xs ! nat (findIndex P xs))"
  using assms findIndex_from_bounds [of 0 P xs] findIndex_from_hit [of 0 P xs]
  by (auto simp: findIndex_def)

lemma show_nat_not_Nil [simp]: "show_nat n \<noteq> []"
  by (subst show_nat.simps) simp

lemma length_array_set [simp]: "length (array_set xs i v) = length xs"
  by (simp add: array_set_def)

lemma mset_insert_by: "mset (insert_by after x xs) = add_mset x (mset xs)"
  by (induction xs) auto

lemma mset_sort_by [simp]: "mset (sort_by after xs) = mset xs"
  by (induction xs) (simp_all add: sort_by_def mset_insert_by)

lemma set_sort_by [simp]: "set (sort_by after xs) = set xs"
  by (metis mset_sort_by set_mset_mset)

text \<open>The sort puts elements in the order of a key when the comparator compares keys.\<close>

lemma insert_by_sorted:
  fixes f :: "'a \<Rightarrow> 'b::linorder"
  assumes "\<And>y. y \<in> set xs \<Longrightarrow> after x y \<longleftrightarrow> f y < f x" and "sorted_wrt (\<lambda>a b. f a \<le> f b) xs"
  shows "sorted_wrt (\<lambda>a b. f a \<le> f b) (insert_by after x xs)"
  using assms
proof (induction xs)
  case (Cons y ys)
  have "set (insert_by after x ys) = insert x (set ys)"
    by (metis mset_insert_by set_mset_add_mset_insert set_mset_mset)
  with Cons show ?case by fastforce
qed simp

lemma sort_by_sorted:
  fixes f :: "'a \<Rightarrow> 'b::linorder"
  assumes "\<And>x y. x \<in> set xs \<Longrightarrow> y \<in> set xs \<Longrightarrow> after x y \<longleftrightarrow> f y < f x"
  shows "sorted_wrt (\<lambda>a b. f a \<le> f b) (sort_by after xs)"
  using assms
proof (induction xs)
  case (Cons x xs)
  have "sorted_wrt (\<lambda>a b. f a \<le> f b) (insert_by after x (sort_by after xs))"
    by (rule insert_by_sorted) (use Cons in simp_all)
  then show ?case by (simp add: sort_by_def)
qed (simp add: sort_by_def)

end
