(* ===== verification/JsString.thy ===== *)
theory JsString
  imports Prelude
begin

section \<open>Strings of the language\<close>

text \<open>
  The string methods the sources call, on lists of characters: \<^verbatim>\<open>split\<close> at a character,
  \<^verbatim>\<open>replace\<close> of the first occurrence of a character, and the value of a string of decimal digits.
  The lemmas on digit strings are the arithmetic behind every routine that computes on the digits
  of a number.
\<close>

definition is_digit :: "char \<Rightarrow> bool" where
  "is_digit c \<longleftrightarrow> 48 \<le> (of_char c :: nat) \<and> (of_char c :: nat) \<le> 57"

definition digit_val :: "char \<Rightarrow> nat" where
  "digit_val c = of_char c - 48"

definition parse_digit :: "char \<Rightarrow> nat option" where
  "parse_digit c = (if is_digit c then Some (digit_val c) else None)"

fun split_on :: "char \<Rightarrow> string \<Rightarrow> string list" where
  "split_on d [] = [[]]"
| "split_on d (c # cs) =
     (if c = d then [] # split_on d cs
      else case split_on d cs of [] \<Rightarrow> [[c]] | p # ps \<Rightarrow> (c # p) # ps)"

fun replace_first :: "char \<Rightarrow> char \<Rightarrow> string \<Rightarrow> string" where
  "replace_first a b [] = []"
| "replace_first a b (c # cs) = (if c = a then b # cs else c # replace_first a b cs)"

text \<open>\<^verbatim>\<open>trim\<close>: white space is the tabulators, line breaks, the space and the no-break space.\<close>

definition is_space :: "char \<Rightarrow> bool" where
  "is_space c \<longleftrightarrow> (9 \<le> (of_char c :: nat) \<and> (of_char c :: nat) \<le> 13) \<or> (of_char c :: nat) = 32 \<or> (of_char c :: nat) = 160"

definition js_trim :: "string \<Rightarrow> string" where
  "js_trim s = rev (dropWhile is_space (rev (dropWhile is_space s)))"

definition dval :: "string \<Rightarrow> nat" where
  "dval s = foldl (\<lambda>n c. 10 * n + digit_val c) 0 s"

definition digits :: "string \<Rightarrow> bool" where
  "digits s = list_all is_digit s"

text \<open>The number a dotted digit string denotes; a missing part counts as zero.\<close>

definition num_val :: "string \<Rightarrow> real" where
  "num_val s =
     (case split_on (CHR ''.'') s of
        i # f # _ \<Rightarrow> real (dval (i @ f)) / 10 ^ length f
      | [i] \<Rightarrow> real (dval i)
      | [] \<Rightarrow> 0)"

subsection \<open>Digits\<close>

lemma of_char_digit_char: "d < 10 \<Longrightarrow> (of_char (digit_char d) :: nat) = 48 + d"
  by (simp add: digit_char_def of_char_of take_bit_nat_def)

lemma digit_char_facts [simp]:
  assumes "d < 10"
  shows "is_digit (digit_char d)" and "digit_val (digit_char d) = d"
  using of_char_digit_char [OF assms] assms by (simp_all add: is_digit_def digit_val_def)

lemma digit_val_less: "is_digit c \<Longrightarrow> digit_val c < 10"
  by (auto simp: is_digit_def digit_val_def)

lemma is_digit_facts [simp]:
  "\<not> is_digit (CHR ''.'')" "\<not> is_digit (CHR '','')" "is_digit (CHR ''0'')" "is_digit (CHR ''1'')"
  "digit_val (CHR ''0'') = 0" "digit_val (CHR ''1'') = 1"
  by (simp_all add: is_digit_def digit_val_def)

lemma digits_simps [simp]:
  "digits []" "digits (c # s) \<longleftrightarrow> is_digit c \<and> digits s" "digits (s @ t) \<longleftrightarrow> digits s \<and> digits t"
  "digits (replicate n (CHR ''0''))"
  by (induction n) (auto simp: digits_def)

lemma digits_take [simp]: "digits s \<Longrightarrow> digits (take n s)"
  and digits_drop [simp]: "digits s \<Longrightarrow> digits (drop n s)"
  and digits_dropWhile [simp]: "digits s \<Longrightarrow> digits (dropWhile P s)"
  by (auto simp: digits_def list_all_iff dest: in_set_takeD in_set_dropD set_dropWhileD)

lemma digits_notin: "digits s \<Longrightarrow> \<not> is_digit c \<Longrightarrow> c \<notin> set s"
  by (auto simp: digits_def list_all_iff)

lemma foldl_digits:
  "foldl (\<lambda>n c. 10 * n + digit_val c) a s = a * 10 ^ length s + dval s"
proof (induction s arbitrary: a)
  case (Cons c s)
  show ?case
    unfolding dval_def using Cons [of "10 * a + digit_val c"] Cons [of "digit_val c"]
    by (simp add: algebra_simps)
qed (simp add: dval_def)

lemma dval_simps [simp]:
  "dval [] = 0" "dval (c # s) = digit_val c * 10 ^ length s + dval s"
  using foldl_digits [of "digit_val c" s] by (simp_all add: dval_def)

lemma dval_append [simp]: "dval (s @ t) = dval s * 10 ^ length t + dval t"
  by (induction s) (simp_all add: algebra_simps power_add)

lemma dval_zeros [simp]: "dval (replicate n (CHR ''0'')) = 0"
  by (induction n) simp_all

lemma dval_less: "digits s \<Longrightarrow> dval s < 10 ^ length s"
proof (induction s)
  case (Cons c s)
  then have "digit_val c \<le> 9" and "dval s < 10 ^ length s" using digit_val_less [of c] by auto
  then have "digit_val c * 10 ^ length s + dval s < 9 * 10 ^ length s + 10 ^ length s"
    by (intro add_le_less_mono mult_le_mono1)
  then show ?case by simp
qed simp

lemma dval_dropWhile_zero [simp]: "dval (dropWhile (\<lambda>c. c = CHR ''0'') s) = dval s"
  by (induction s) auto

lemma dval_eq_0: "digits s \<Longrightarrow> dval s = 0 \<longleftrightarrow> list_all (\<lambda>c. c = CHR ''0'') s"
proof (induction s)
  case (Cons c s)
  have "is_digit c \<Longrightarrow> digit_val c = 0 \<longleftrightarrow> c = CHR ''0''"
  proof
    assume "is_digit c" and "digit_val c = 0"
    then have "(of_char c :: nat) = of_char (CHR ''0'')" by (simp add: is_digit_def digit_val_def)
    then show "c = CHR ''0''" by (simp only: of_char_eq_iff)
  qed simp
  with Cons show ?case by simp
qed simp

subsection \<open>Splitting\<close>

lemma split_on_none: "d \<notin> set s \<Longrightarrow> split_on d s = [s]"
  by (induction s) auto

lemma split_on_append: "d \<notin> set s \<Longrightarrow> split_on d (s @ d # t) = s # split_on d t"
  by (induction s) auto

lemma split_on_not_Nil [simp]: "split_on d s \<noteq> []"
  by (induction s) (auto split: list.splits)

lemma split_on_concat: "split_on d (s @ d # t) = split_on d s @ split_on d t"
proof (induction s)
  case (Cons c s)
  then show ?case by (cases "split_on d s") auto
qed simp

lemma num_val_int [simp]: "digits i \<Longrightarrow> num_val i = real (dval i)"
  by (simp add: num_val_def split_on_none digits_notin)

lemma num_val_dotted [simp]:
  "digits i \<Longrightarrow> digits f \<Longrightarrow> num_val (i @ CHR ''.'' # f) = real (dval (i @ f)) / 10 ^ length f"
  by (simp add: num_val_def split_on_none split_on_append digits_notin)

end
