(* ===== verification/PriceInput.thy ===== *)
theory PriceInput
  imports JsString
begin

section \<open>The amount field\<close>

text \<open>
  The text field of \<^verbatim>\<open>src/frontend/seer/src/ui/PriceInput.tsx\<close>: it keeps the text being edited,
  filters what is typed, emits the amount rounded half down to a number of decimals at every change
  and rewrites the text when the field loses focus. All of it works on digit strings; the theorems
  relate the strings to the numbers they denote.
\<close>

subsection \<open>Definitions\<close>

fun sanitize_loop :: "bool \<Rightarrow> string \<Rightarrow> string" where
  "sanitize_loop seenSep [] = []"
| "sanitize_loop seenSep (ch # raw) =
     (if is_digit ch then ch # sanitize_loop seenSep raw
      else if (ch = CHR ''.'' \<or> ch = CHR '','') \<and> \<not> seenSep then ch # sanitize_loop True raw
      else sanitize_loop seenSep raw)"

definition sanitizeForEditing :: "string \<Rightarrow> string" where
  "sanitizeForEditing raw = sanitize_loop False raw"

text \<open>
  The loop from the last digit to the first one that \<^verbatim>\<open>incIntString\<close> and \<^verbatim>\<open>addOne\<close> share: the
  digits after the addition of one and the carry that is left.
\<close>

fun carry_loop :: "string \<Rightarrow> string \<times> nat" where
  "carry_loop [] = ([], 1)"
| "carry_loop (c # cs) =
     (let (r, carry) = carry_loop cs
      in if carry = 0 then (c # r, 0)
         else case parse_digit c of
                Some k \<Rightarrow> let d = k + carry in if d \<ge> 10 then (CHR ''0'' # r, 1) else (digit_char d # r, 0)
              | None \<Rightarrow> (CHR 0x00 # r, 0))"

definition incIntString :: "string \<Rightarrow> string" where
  "incIntString s =
     (if s = [] then ''1''
      else let (arr, carry) = carry_loop s in if carry \<noteq> 0 then CHR ''1'' # arr else arr)"

definition addOne :: "string \<Rightarrow> string \<Rightarrow> string \<times> string" where
  "addOne intStr fracStr =
     (let (arr, carry) = carry_loop fracStr
      in (if carry \<noteq> 0 then incIntString intStr else intStr, arr))"

definition toFixedDp :: "string \<Rightarrow> string \<Rightarrow> nat \<Rightarrow> string" where
  "toFixedDp intPart fracPart dp = intPart @ ''.'' @ take dp (padEnd0 dp fracPart)"

definition second_part :: "string list \<Rightarrow> string" where
  "second_part parts = (case parts of _ # f # _ \<Rightarrow> f | _ \<Rightarrow> [])"

definition should_up :: "string \<Rightarrow> bool" where
  "should_up rest =
     (case rest of [] \<Rightarrow> False
      | c # r \<Rightarrow> (of_char c :: nat) > of_char (CHR ''5'') \<or>
          (c = CHR ''5'' \<and> list_ex (\<lambda>x. is_digit x \<and> x \<noteq> CHR ''0'') r))"

definition is_tie :: "string \<Rightarrow> bool" where
  "is_tie rest =
     (case rest of [] \<Rightarrow> False | c # r \<Rightarrow> c = CHR ''5'' \<and> list_all (\<lambda>x. x = CHR ''0'') r)"

definition roundHalfDownStr :: "string \<Rightarrow> nat \<Rightarrow> string" where
  "roundHalfDownStr normalizedDot dp =
     (if normalizedDot = [] then []
      else
        let parts = split_on (CHR ''.'') normalizedDot;
            intPart = (if hd parts = [] then ''0'' else hd parts);
            fracPart = second_part parts
        in if length fracPart \<le> dp then toFixedDp intPart fracPart dp
           else
             let keep = take dp fracPart; rest = drop dp fracPart
             in if is_tie rest then toFixedDp intPart keep dp
                else if \<not> should_up rest then toFixedDp intPart keep dp
                else let (intStr, fracStr) = addOne intPart keep;
                         roundedFrac = take dp (padStart0 dp fracStr)
                     in if 0 < dp then intStr @ ''.'' @ roundedFrac else intStr)"

text \<open>The handlers: the text in the field, and what is emitted (\<open>None\<close> for \<^verbatim>\<open>undefined\<close>).\<close>

definition initial_inner :: "string option \<Rightarrow> string" where
  "initial_inner defaultValue = sanitizeForEditing (case defaultValue of None \<Rightarrow> [] | Some v \<Rightarrow> v)"

definition commitRound :: "nat \<Rightarrow> string \<Rightarrow> string" where
  "commitRound maxDecimals inner =
     (if inner = [] then inner
      else
        let normalized = replace_first (CHR '','') (CHR ''.'') inner;
            parts = split_on (CHR ''.'') normalized;
            fracPart = second_part parts;
            stripped = dropWhile (\<lambda>c. c = CHR ''0'') (hd parts);
            intPart = (if stripped = [] then ''0'' else stripped);
            normalizedNoLeading = (if fracPart \<noteq> [] then intPart @ ''.'' @ fracPart else intPart)
        in roundHalfDownStr normalizedNoLeading maxDecimals)"

definition onChange :: "nat \<Rightarrow> string \<Rightarrow> string \<times> string option" where
  "onChange maxDecimals value =
     (let next_inner = sanitizeForEditing value
      in if next_inner = [] then (next_inner, None)
         else (next_inner, Some (roundHalfDownStr (replace_first (CHR '','') (CHR ''.'') next_inner) maxDecimals)))"

datatype field_event = Change string | Blur

fun field_step :: "nat \<Rightarrow> string \<Rightarrow> field_event \<Rightarrow> string" where
  "field_step dp inner (Change value) = fst (onChange dp value)"
| "field_step dp inner Blur = commitRound dp inner"

subsection \<open>Specification\<close>

definition half_down :: "nat \<Rightarrow> real \<Rightarrow> real" where
  "half_down dp x = of_int \<lceil>x * 10 ^ dp - 1 / 2\<rceil> / 10 ^ dp"

text \<open>The \<^verbatim>\<open>pattern\<close> attribute of the field: \<^verbatim>\<open>^[0-9]*[.,]?[0-9]*$\<close>.\<close>

definition matches_pattern :: "string \<Rightarrow> bool" where
  "matches_pattern s =
     (case dropWhile is_digit s of
        [] \<Rightarrow> True
      | c # t \<Rightarrow> (c = CHR ''.'' \<or> c = CHR '','') \<and> digits t)"

text \<open>A normalised amount: digits with at most one dot, not empty.\<close>

definition normalised :: "string \<Rightarrow> bool" where
  "normalised s \<longleftrightarrow> s \<noteq> [] \<and>
     (case dropWhile is_digit s of [] \<Rightarrow> True | c # t \<Rightarrow> c = CHR ''.'' \<and> digits t)"

text \<open>The shape of a rounded amount: all digits, and exactly \<open>dp\<close> of them after the dot.\<close>

definition rounded :: "nat \<Rightarrow> string \<Rightarrow> bool" where
  "rounded dp s \<longleftrightarrow> (\<exists>i f. s = i @ CHR ''.'' # f \<and> i \<noteq> [] \<and> digits i \<and> digits f \<and> length f = dp) \<or>
     dp = 0 \<and> s \<noteq> [] \<and> digits s"

definition int_or_zero :: "string \<Rightarrow> string" where
  "int_or_zero i = (if i = [] then ''0'' else i)"

subsection \<open>Adding one\<close>

lemma carry_loop_correct:
  "digits s \<Longrightarrow> carry_loop s = (r, c) \<Longrightarrow>
     digits r \<and> length r = length s \<and>
     (c = 0 \<and> dval r = dval s + 1 \<or> c = 1 \<and> dval r + 10 ^ length s = dval s + 1)"
proof (induction s arbitrary: r c)
  case (Cons x s)
  obtain r' c' where rc: "carry_loop s = (r', c')" by (cases "carry_loop s")
  with Cons.IH [OF _ rc] Cons.prems(1)
  have IH: "digits r'" "length r' = length s"
    "c' = 0 \<and> dval r' = dval s + 1 \<or> c' = 1 \<and> dval r' + 10 ^ length s = dval s + 1" by auto
  from IH(3) show ?case
  proof (elim disjE conjE)
    assume "c' = 0" and "dval r' = dval s + 1"
    with rc IH Cons.prems show ?thesis by auto
  next
    assume c': "c' = 1" and carry: "dval r' + 10 ^ length s = dval s + 1"
    have x: "is_digit x" "digit_val x < 10" using Cons.prems by (auto intro: digit_val_less)
    show ?thesis
    proof (cases "digit_val x = 9")
      case True
      with rc c' x IH Cons.prems carry show ?thesis by (auto simp: parse_digit_def)
    next
      case False
      with x have "digit_val x + 1 < 10" by simp
      with rc c' x IH Cons.prems carry show ?thesis by (auto simp: parse_digit_def)
    qed
  qed
qed simp

lemma incIntString_not_Nil [simp]: "incIntString s \<noteq> []"
proof -
  have "length (fst (carry_loop s)) = length s"
    by (induction s) (auto simp: Let_def split: prod.splits option.splits)
  then show ?thesis by (auto simp: incIntString_def split: prod.splits)
qed

lemma incIntString_correct:
  assumes "digits s"
  shows "digits (incIntString s) \<and> dval (incIntString s) = dval s + 1"
proof -
  obtain r c where rc: "carry_loop s = (r, c)" by (cases "carry_loop s")
  from carry_loop_correct [OF assms rc] show ?thesis by (auto simp: incIntString_def rc)
qed

lemma addOne_correct:
  assumes "digits i" and "digits f" and "addOne i f = (i', f')"
  shows "digits i' \<and> digits f' \<and> length f' = length f \<and> dval (i' @ f') = dval (i @ f) + 1"
proof -
  obtain r c where rc: "carry_loop f = (r, c)" by (cases "carry_loop f")
  from carry_loop_correct [OF assms(2) rc] assms rc incIntString_correct [OF assms(1)]
  show ?thesis by (auto simp: addOne_def)
qed

subsection \<open>Rounding half down\<close>

lemma split_digits: "digits (takeWhile is_digit s)" "s = takeWhile is_digit s @ dropWhile is_digit s"
  by (auto simp: digits_def list_all_iff dest: set_takeWhileD)

lemma normalised_cases:
  assumes "normalised s"
  obtains i where "digits i" "s = i" "i \<noteq> []"
  | i f where "digits i" "digits f" "s = i @ CHR ''.'' # f"
proof (cases "dropWhile is_digit s")
  case Nil
  with that(1) [of s] assms split_digits [of s] show ?thesis by (auto simp: normalised_def)
next
  case (Cons c t)
  with that(2) [of "takeWhile is_digit s" t] assms split_digits [of s] show ?thesis
    by (auto simp: normalised_def)
qed

lemma dropWhile_digits [simp]: "digits i \<Longrightarrow> dropWhile is_digit (i @ t) = dropWhile is_digit t"
  by (induction i) simp_all

lemma dropWhile_digits_all [simp]: "digits i \<Longrightarrow> dropWhile is_digit i = []"
  by (induction i) simp_all

lemma normalised_intro:
  "digits i \<Longrightarrow> i \<noteq> [] \<Longrightarrow> normalised i"
  "digits i \<Longrightarrow> digits f \<Longrightarrow> normalised (i @ CHR ''.'' # f)"
  by (simp_all add: normalised_def)

lemma half_down_int: "half_down dp (real n / 10 ^ dp) = real n / 10 ^ dp"
proof -
  have "\<lceil>real n - 1 / 2\<rceil> = int n" by (simp add: ceiling_eq_iff)
  then show ?thesis by (simp add: half_down_def)
qed

lemma half_down_split:
  assumes "R < 10 ^ k"
  shows "half_down dp (real (K * 10 ^ k + R) / 10 ^ (dp + k)) =
    real (if 2 * R \<le> 10 ^ k then K else K + 1) / 10 ^ dp"
proof -
  have eq: "real (K * 10 ^ k + R) / 10 ^ (dp + k) * 10 ^ dp = real K + real R / 10 ^ k"
    by (simp add: power_add field_simps)
  have "real (2 * R) \<le> real (10 ^ k) \<longleftrightarrow> 2 * R \<le> 10 ^ k" by (simp only: of_nat_le_iff)
  then have le: "real R / 10 ^ k \<le> 1 / 2 \<longleftrightarrow> 2 * R \<le> 10 ^ k" by (simp add: field_simps)
  have "real R < real (10 ^ k)" using assms by (simp only: of_nat_less_iff)
  then have lt: "real R / 10 ^ k < 1" by simp
  have ge: "0 \<le> real R / 10 ^ k" by simp
  have "\<lceil>real K + x - 1 / 2\<rceil> = int (if x \<le> 1 / 2 then K else K + 1)" if "0 \<le> x" "x < 1" for x :: real
    using that by (auto simp: ceiling_eq_iff)
  from this [OF ge lt] have "\<lceil>real K + real R / 10 ^ k - 1 / 2\<rceil> = int (if 2 * R \<le> 10 ^ k then K else K + 1)"
    unfolding le .
  then show ?thesis unfolding half_down_def eq by simp
qed

lemma of_char_digit: "is_digit c \<Longrightarrow> (of_char c :: nat) = 48 + digit_val c"
  by (simp add: is_digit_def digit_val_def)

lemma digit_eqI: "is_digit c \<Longrightarrow> is_digit d \<Longrightarrow> digit_val c = digit_val d \<Longrightarrow> c = d"
  using of_char_digit [of c] of_char_digit [of d] of_char_eq_iff [of c d] by metis

lemma five_facts [simp]: "is_digit (CHR ''5'')" "digit_val (CHR ''5'') = 5"
  by (simp_all add: is_digit_def digit_val_def)

lemma should_up_iff:
  assumes "digits (c # r)"
  shows "should_up (c # r) \<longleftrightarrow> 10 ^ length (c # r) < 2 * dval (c # r)"
proof -
  let ?P = "10 ^ length r :: nat"
  from assms have c: "is_digit c" and r: "digits r" by simp_all
  have some: "list_ex (\<lambda>x. is_digit x \<and> x \<noteq> CHR ''0'') r \<longleftrightarrow> 0 < dval r"
  proof -
    have "list_all (\<lambda>x. x = CHR ''0'') r \<longleftrightarrow> \<not> list_ex (\<lambda>x. is_digit x \<and> x \<noteq> CHR ''0'') r"
      using r unfolding digits_def by (induction r) auto
    then show ?thesis using dval_eq_0 [OF r] by (metis neq0_conv)
  qed
  have five: "c = CHR ''5'' \<longleftrightarrow> digit_val c = 5"
    using digit_eqI [OF c, of "CHR ''5''"] by auto
  have up: "should_up (c # r) \<longleftrightarrow> 5 < digit_val c \<or> digit_val c = 5 \<and> 0 < dval r"
    using of_char_digit [OF c] some five by (simp add: should_up_def)
  have lt: "dval r < ?P" by (rule dval_less [OF r])
  consider "digit_val c < 5" | "digit_val c = 5" | "5 < digit_val c" by linarith
  then show ?thesis
  proof cases
    case 1
    then have "digit_val c * ?P \<le> 4 * ?P" by simp
    moreover have "D \<le> 4 * P \<Longrightarrow> v < P \<Longrightarrow> \<not> 10 * P < 2 * (D + v)" for D P v :: nat by simp
    ultimately have "\<not> 10 * ?P < 2 * (digit_val c * ?P + dval r)" using lt by blast
    with 1 show ?thesis unfolding up by simp
  next
    case 3
    then have "6 * ?P \<le> digit_val c * ?P" by (intro mult_le_mono1) simp
    moreover have "6 * P \<le> D \<Longrightarrow> 0 < P \<Longrightarrow> 10 * P < 2 * (D + v)" for D P v :: nat by simp
    moreover have "0 < ?P" by simp
    ultimately have "10 * ?P < 2 * (digit_val c * ?P + dval r)" by blast
    with 3 show ?thesis unfolding up by simp
  qed (use up in auto)
qed

lemma tie_not_up: "digits rest \<Longrightarrow> is_tie rest \<Longrightarrow> \<not> should_up rest"
  by (cases rest) (auto simp: is_tie_def should_up_def list_all_iff list_ex_iff)

lemma round_parts:
  assumes "digits i" and "digits f" and "length f > dp"
  defines "up \<equiv> should_up (drop dp f)"
  shows "half_down dp (real (dval (i @ f)) / 10 ^ length f) =
    real (if up then dval (i @ take dp f) + 1 else dval (i @ take dp f)) / 10 ^ dp"
proof -
  let ?k = "length f - dp"
  have len: "length f = dp + ?k" and lk: "length (drop dp f) = ?k" using assms by simp_all
  have rest: "digits (drop dp f)" "drop dp f \<noteq> []" using assms by simp_all
  then have up: "up \<longleftrightarrow> 10 ^ ?k < 2 * dval (drop dp f)"
    using should_up_iff [of "hd (drop dp f)" "tl (drop dp f)"] lk unfolding up_def by simp
  have "dval (i @ f) = dval ((i @ take dp f) @ drop dp f)" by (simp only: append_assoc append_take_drop_id)
  then have N: "dval (i @ f) = dval (i @ take dp f) * 10 ^ ?k + dval (drop dp f)"
    by (simp only: dval_append [of "i @ take dp f"] lk)
  have "dval (drop dp f) < 10 ^ ?k" using dval_less [OF rest(1)] lk by simp
  from half_down_split [OF this, of dp "dval (i @ take dp f)"] show ?thesis
    unfolding N len [symmetric] up by simp
qed

lemma toFixedDp_short:
  "length f \<le> dp \<Longrightarrow> toFixedDp i f dp = i @ CHR ''.'' # (f @ replicate (dp - length f) (CHR ''0''))"
  by (simp add: toFixedDp_def padEnd0_def)

lemma rounded_intro:
  "i \<noteq> [] \<Longrightarrow> digits i \<Longrightarrow> digits f \<Longrightarrow> length f = dp \<Longrightarrow> rounded dp (i @ CHR ''.'' # f)"
  "i \<noteq> [] \<Longrightarrow> digits i \<Longrightarrow> rounded 0 i"
  by (auto simp: rounded_def)

lemma int_or_zero [simp]:
  "digits i \<Longrightarrow> digits (int_or_zero i)" "int_or_zero i \<noteq> []" "dval (int_or_zero i) = dval i"
  by (simp_all add: int_or_zero_def)

lemma roundHalfDownStr_dotted:
  assumes i: "digits i" and f: "digits f"
    and s: "split_on (CHR ''.'') s = i # fs" "s \<noteq> []" "second_part (i # fs) = f"
  shows "rounded dp (roundHalfDownStr s dp) \<and>
    num_val (roundHalfDownStr s dp) = half_down dp (real (dval (i @ f)) / 10 ^ length f)"
proof (cases "length f \<le> dp")
  case True
  let ?z = "replicate (dp - length f) (CHR ''0'')" and ?i = "int_or_zero i"
  have eq: "roundHalfDownStr s dp = ?i @ CHR ''.'' # (f @ ?z)"
    using s True by (simp add: roundHalfDownStr_def toFixedDp_short int_or_zero_def)
  have "real (dval (i @ f)) / 10 ^ length f = real (dval (i @ f @ ?z)) / 10 ^ dp"
    using True by (simp add: field_simps flip: power_add)
  then have "num_val (?i @ CHR ''.'' # (f @ ?z)) = half_down dp (real (dval (i @ f)) / 10 ^ length f)"
    using i f True half_down_int [of dp "dval (i @ f @ ?z)"] by simp
  moreover have "rounded dp (?i @ CHR ''.'' # (f @ ?z))"
    using i f True by (intro rounded_intro) simp_all
  ultimately show ?thesis unfolding eq by simp
next
  case False
  let ?i = "int_or_zero i"
  note half = round_parts [of ?i f dp]
  have val: "dval (?i @ f) = dval (i @ f)" using i by simp
  show ?thesis
  proof (cases "should_up (drop dp f)")
    case False
    then have "roundHalfDownStr s dp = ?i @ CHR ''.'' # take dp f"
      using s \<open>\<not> length f \<le> dp\<close>
      by (simp add: roundHalfDownStr_def toFixedDp_short int_or_zero_def Let_def)
    then show ?thesis
      using half i f False \<open>\<not> length f \<le> dp\<close> unfolding rounded_def val by fastforce
  next
    case True
    then have "\<not> is_tie (drop dp f)" using tie_not_up f digits_drop by blast
    obtain i' f' where a: "addOne ?i (take dp f) = (i', f')" by (cases "addOne ?i (take dp f)")
    have "digits i'" "digits f'" "length f' = dp" "dval (i' @ f') = dval (?i @ take dp f) + 1"
      using addOne_correct [OF _ _ a] i f \<open>\<not> length f \<le> dp\<close> by auto
    moreover have "roundHalfDownStr s dp = (if 0 < dp then i' @ CHR ''.'' # f' else i')"
      using s True a \<open>\<not> is_tie (drop dp f)\<close> \<open>\<not> length f \<le> dp\<close> calculation
      by (simp add: roundHalfDownStr_def padStart0_def int_or_zero_def [symmetric] Let_def)
    moreover have "i' \<noteq> []"
      using a by (auto simp: addOne_def Let_def split: prod.splits if_splits)
    ultimately show ?thesis
      using half i f True \<open>\<not> length f \<le> dp\<close> unfolding val
      by (cases "dp = 0") (auto intro: rounded_intro simp del: dval_append)
  qed
qed

lemma roundHalfDownStr_normalised:
  assumes "normalised s"
  shows "rounded dp (roundHalfDownStr s dp) \<and> num_val (roundHalfDownStr s dp) = half_down dp (num_val s)"
  using assms
proof (cases rule: normalised_cases)
  case (1 i)
  with roundHalfDownStr_dotted [of i "[]" s "[]" dp] show ?thesis
    by (simp add: split_on_none digits_notin second_part_def)
next
  case (2 i f)
  with roundHalfDownStr_dotted [of i f s "[f]" dp] show ?thesis
    by (simp add: split_on_none split_on_append digits_notin second_part_def del: dval_append)
qed

subsection \<open>Editing\<close>

lemma sanitize_seen: "digits (sanitize_loop True raw)"
  by (induction raw) auto

lemma matches_pattern_Nil [simp]: "matches_pattern []"
  by (simp add: matches_pattern_def)

lemma sanitize_pattern: "matches_pattern (sanitizeForEditing raw)"
  unfolding sanitizeForEditing_def
proof (induction raw)
  case (Cons c raw)
  then show ?case by (auto simp: matches_pattern_def sanitize_seen)
qed (simp add: matches_pattern_def)

lemma sanitize_seen_digits: "digits s \<Longrightarrow> sanitize_loop b s = s"
  by (induction s) auto

lemma sanitize_fixed: "matches_pattern s \<Longrightarrow> sanitizeForEditing s = s"
  unfolding sanitizeForEditing_def
  by (induction s) (auto simp: matches_pattern_def sanitize_seen_digits split: if_splits)

lemma pattern_normalised:
  assumes "matches_pattern s" and "s \<noteq> []"
  shows "normalised (replace_first (CHR '','') (CHR ''.'') s)"
proof -
  have none: "CHR '','' \<notin> set i \<Longrightarrow> replace_first (CHR '','') d (i @ t) = i @ replace_first (CHR '','') d t"
    for i t d by (induction i) auto
  have id: "CHR '','' \<notin> set i \<Longrightarrow> replace_first (CHR '','') d i = i" for i d by (induction i) auto
  show ?thesis
  proof (cases "dropWhile is_digit s")
    case Nil
    with split_digits [of s] have "digits s" by simp
    with assms show ?thesis by (simp add: id digits_notin normalised_intro)
  next
    case (Cons c t)
    let ?i = "takeWhile is_digit s"
    from Cons assms have c: "c = CHR ''.'' \<or> c = CHR '',''" and t: "digits t"
      by (auto simp: matches_pattern_def)
    have s: "s = ?i @ c # t" using Cons split_digits(2) [of s] by simp
    have i: "digits ?i" by (rule split_digits)
    have "replace_first (CHR '','') (CHR ''.'') s = ?i @ CHR ''.'' # t"
      using c t i by (subst s) (auto simp: none id digits_notin)
    with i t show ?thesis by (simp add: normalised_intro)
  qed
qed

lemma rounded_pattern: "rounded dp s \<Longrightarrow> matches_pattern s"
  by (auto simp: rounded_def matches_pattern_def)

text \<open>What \<^verbatim>\<open>commitRound\<close> hands to the rounding: the amount without leading zeros.\<close>

lemma commitRound_cases:
  assumes "matches_pattern inner" and "inner \<noteq> []"
  obtains u where "normalised u" "commitRound dp inner = roundHalfDownStr u dp"
    "num_val u = num_val (replace_first (CHR '','') (CHR ''.'') inner)"
proof -
  let ?n = "replace_first (CHR '','') (CHR ''.'') inner" and ?strip = "dropWhile (\<lambda>c. c = CHR ''0'')"
  from pattern_normalised [OF assms] have "normalised ?n" .
  then show thesis
  proof (cases rule: normalised_cases)
    case (1 i)
    let ?u = "int_or_zero (?strip i)"
    have "commitRound dp inner = roundHalfDownStr ?u dp"
      using 1 assms by (simp add: commitRound_def split_on_none digits_notin second_part_def int_or_zero_def)
    moreover have "normalised ?u" and "num_val ?u = num_val ?n"
      using 1 by (auto intro: normalised_intro)
    ultimately show thesis using that by blast
  next
    case (2 i f)
    let ?u = "if f \<noteq> [] then int_or_zero (?strip i) @ CHR ''.'' # f else int_or_zero (?strip i)"
    have "commitRound dp inner = roundHalfDownStr ?u dp"
      using 2 assms
      by (simp add: commitRound_def split_on_append split_on_none digits_notin second_part_def int_or_zero_def)
    moreover have "normalised ?u" and "num_val ?u = num_val ?n"
      using 2 by (auto intro: normalised_intro)
    ultimately show thesis using that by blast
  qed
qed

lemma commitRound_correct:
  assumes "matches_pattern inner" and "inner \<noteq> []"
  shows "rounded dp (commitRound dp inner) \<and>
    num_val (commitRound dp inner) = half_down dp (num_val (replace_first (CHR '','') (CHR ''.'') inner))"
  using assms by (rule commitRound_cases [of inner dp]) (simp add: roundHalfDownStr_normalised)

lemma rounded_no_comma: "rounded dp s \<Longrightarrow> replace_first (CHR '','') d s = s"
proof -
  assume "rounded dp s"
  then have "CHR '','' \<notin> set s" by (auto simp: rounded_def digits_notin)
  then show ?thesis by (induction s) auto
qed

lemma rounded_value:
  assumes "rounded dp s"
  obtains n where "num_val s = real n / 10 ^ dp"
  using assms unfolding rounded_def
proof (elim disjE exE conjE)
  fix i f
  assume "s = i @ CHR ''.'' # f" "digits i" "digits f" "length f = dp"
  then have "num_val s = real (dval (i @ f)) / 10 ^ dp" by (simp only: num_val_dotted)
  then show thesis by (rule that)
next
  assume "dp = 0" "digits s"
  then show thesis using that [of "dval s"] by simp
qed

lemma commitRound_stable:
  assumes "rounded dp s"
  shows "num_val (commitRound dp s) = num_val s"
proof -
  obtain n where n: "num_val s = real n / 10 ^ dp" using rounded_value [OF assms] .
  have "s \<noteq> []" using assms by (auto simp: rounded_def)
  with commitRound_correct [OF rounded_pattern [OF assms], of dp] show ?thesis
    by (simp add: rounded_no_comma [OF assms] n half_down_int)
qed

lemma commitRound_pattern: "matches_pattern s \<Longrightarrow> matches_pattern (commitRound dp s)"
  by (cases "s = []") (simp add: commitRound_def, metis commitRound_correct rounded_pattern)

subsection \<open>Properties\<close>

text \<open>
  C35. The digit-string routine rounds half down: on a normalised amount it returns digits with
  exactly \<open>dp\<close> decimals whose value is the nearest multiple of \<open>10\<close> to the \<open>-dp\<close>, the smaller one
  on a tie. Carries run through the fraction into the integer part.
\<close>

theorem roundHalfDownStr_correct:
  assumes "normalised s"
  shows "rounded dp (roundHalfDownStr s dp) \<and> num_val (roundHalfDownStr s dp) = half_down dp (num_val s)"
  by (rule roundHalfDownStr_normalised [OF assms])

theorem roundHalfDownStr_correct_witness:
  "normalised ''99.9951'' \<and> roundHalfDownStr ''99.9951'' 2 = ''100.00'' \<and>
   num_val (roundHalfDownStr ''99.9951'' 2) = half_down 2 (num_val ''99.9951'')"
proof (intro conjI)
  show n: "normalised ''99.9951''" by code_simp
  show "roundHalfDownStr ''99.9951'' 2 = ''100.00''" by code_simp
  show "num_val (roundHalfDownStr ''99.9951'' 2) = half_down 2 (num_val ''99.9951'')"
    using roundHalfDownStr_correct [OF n, of 2] by (rule conjunct2)
qed

text \<open>
  C37. Whatever is typed, pasted or committed, in whatever order, the text in the field matches the
  \<^verbatim>\<open>pattern\<close> attribute of the input element: digits with at most one separator.
\<close>

theorem field_always_matches:
  "matches_pattern (foldl (field_step dp) (initial_inner defaultValue) events)"
proof -
  have step: "matches_pattern inner \<Longrightarrow> matches_pattern (field_step dp inner e)" for inner e
    by (cases e) (auto simp: onChange_def Let_def sanitize_pattern commitRound_pattern)
  have "matches_pattern inner \<Longrightarrow> matches_pattern (foldl (field_step dp) inner events)" for inner
    by (induction events arbitrary: inner) (simp_all add: step)
  then show ?thesis by (simp add: initial_inner_def sanitize_pattern)
qed

text \<open>
  C36. The amount handed to the form while typing is the amount the field shows after it has lost
  focus: both are the typed number rounded half down, and committing again changes nothing.
\<close>

theorem emitted_is_committed:
  assumes "onChange dp value = (inner, Some emitted)"
  shows "rounded dp emitted \<and> rounded dp (commitRound dp inner) \<and>
    num_val (commitRound dp inner) = num_val emitted \<and>
    num_val emitted = half_down dp (num_val (replace_first (CHR '','') (CHR ''.'') inner)) \<and>
    num_val (commitRound dp (commitRound dp inner)) = num_val emitted"
proof -
  let ?n = "replace_first (CHR '','') (CHR ''.'') inner"
  from assms have inner: "inner = sanitizeForEditing value" "inner \<noteq> []" "emitted = roundHalfDownStr ?n dp"
    by (auto simp: onChange_def Let_def split: if_splits)
  have pat: "matches_pattern inner" unfolding inner by (rule sanitize_pattern)
  note com = commitRound_correct [OF pat inner(2), of dp]
  have "rounded dp emitted \<and> num_val emitted = half_down dp (num_val ?n)"
    unfolding inner(3) by (rule roundHalfDownStr_normalised [OF pattern_normalised [OF pat inner(2)]])
  with com commitRound_stable [of dp "commitRound dp inner"] show ?thesis by simp
qed

theorem emitted_is_committed_witness:
  "onChange 2 ''0a12,3450'' = (''012,3450'', Some ''012.34'') \<and> commitRound 2 ''012,3450'' = ''12.34'' \<and>
   num_val (commitRound 2 ''012,3450'') = num_val ''012.34''"
proof (intro conjI)
  show e: "onChange 2 ''0a12,3450'' = (''012,3450'', Some ''012.34'')" by code_simp
  show "commitRound 2 ''012,3450'' = ''12.34''" by code_simp
  show "num_val (commitRound 2 ''012,3450'') = num_val ''012.34''"
    using emitted_is_committed [OF e] by blast
qed

end
