(* ===== verification/JsNumber.thy ===== *)
theory JsNumber
  imports Prelude
begin

section \<open>The number type of the language\<close>

text \<open>
  A JavaScript \<^verbatim>\<open>number\<close> is an IEEE-754 binary64 value: NaN, an infinity or a finite real.
  Every arithmetic operation computes the exact real result and rounds it. The rounding and the
  two transcendental functions the sources use (\<^verbatim>\<open>Math.exp\<close> and \<^verbatim>\<open>Math.log\<close>, which the language
  leaves implementation-approximated) are the fields of a record \<open>fpu\<close>, so that each translated
  function can be run on
  \<^item> \<open>ieee e l\<close>: round to nearest, ties to even, 53 bits, overflow to infinity, with any
    implementation \<open>e\<close>, \<open>l\<close> of the two functions, which is the arithmetic of a browser;
  \<^item> \<open>exact\<close>: no rounding at all, on which the algebraic theory of the market maker is stated.
  The locale \<open>fp_sound\<close> is the standard model of floating-point error; both instances satisfy it.
  Zeros carry no sign: the quotient of a nonzero number by zero takes the sign of the dividend.
\<close>

datatype num = NaN | PInf | NInf | Fin real

record fpu =
  rnd :: "real \<Rightarrow> num"
  mexp :: "real \<Rightarrow> num"
  mlog :: "real \<Rightarrow> num"

subsection \<open>Arithmetic and comparison\<close>

definition lit :: "fpu \<Rightarrow> real \<Rightarrow> num" where
  "lit F x = rnd F x"

fun js_neg :: "num \<Rightarrow> num" where
  "js_neg NaN = NaN"
| "js_neg PInf = NInf"
| "js_neg NInf = PInf"
| "js_neg (Fin x) = Fin (- x)"

fun js_add :: "fpu \<Rightarrow> num \<Rightarrow> num \<Rightarrow> num" where
  "js_add F NaN y = NaN"
| "js_add F x NaN = NaN"
| "js_add F PInf NInf = NaN"
| "js_add F NInf PInf = NaN"
| "js_add F PInf y = PInf"
| "js_add F NInf y = NInf"
| "js_add F x PInf = PInf"
| "js_add F x NInf = NInf"
| "js_add F (Fin x) (Fin y) = rnd F (x + y)"

definition js_sub :: "fpu \<Rightarrow> num \<Rightarrow> num \<Rightarrow> num" where
  "js_sub F x y = js_add F x (js_neg y)"

definition inf_of_sign :: "real \<Rightarrow> num" where
  "inf_of_sign s = (if s = 0 then NaN else if 0 < s then PInf else NInf)"

fun js_mul :: "fpu \<Rightarrow> num \<Rightarrow> num \<Rightarrow> num" where
  "js_mul F NaN y = NaN"
| "js_mul F x NaN = NaN"
| "js_mul F (Fin x) (Fin y) = rnd F (x * y)"
| "js_mul F (Fin x) PInf = inf_of_sign x"
| "js_mul F (Fin x) NInf = inf_of_sign (- x)"
| "js_mul F PInf (Fin y) = inf_of_sign y"
| "js_mul F NInf (Fin y) = inf_of_sign (- y)"
| "js_mul F PInf y = y"
| "js_mul F NInf y = js_neg y"

fun js_div :: "fpu \<Rightarrow> num \<Rightarrow> num \<Rightarrow> num" where
  "js_div F NaN y = NaN"
| "js_div F x NaN = NaN"
| "js_div F (Fin x) (Fin y) = (if y = 0 then inf_of_sign x else rnd F (x / y))"
| "js_div F (Fin x) _ = Fin 0"
| "js_div F PInf (Fin y) = (if y < 0 then NInf else PInf)"
| "js_div F NInf (Fin y) = (if y < 0 then PInf else NInf)"
| "js_div F _ _ = NaN"

fun js_lt :: "num \<Rightarrow> num \<Rightarrow> bool" where
  "js_lt (Fin x) (Fin y) = (x < y)"
| "js_lt NInf (Fin y) = True"
| "js_lt NInf PInf = True"
| "js_lt (Fin x) PInf = True"
| "js_lt _ _ = False"

definition js_gt :: "num \<Rightarrow> num \<Rightarrow> bool" where
  "js_gt x y = js_lt y x"

definition js_max :: "num \<Rightarrow> num \<Rightarrow> num" where
  "js_max x y = (if x = NaN \<or> y = NaN then NaN else if js_lt x y then y else x)"

fun Math_exp :: "fpu \<Rightarrow> num \<Rightarrow> num" where
  "Math_exp F NaN = NaN"
| "Math_exp F PInf = PInf"
| "Math_exp F NInf = Fin 0"
| "Math_exp F (Fin x) = mexp F x"

fun Math_log :: "fpu \<Rightarrow> num \<Rightarrow> num" where
  "Math_log F NaN = NaN"
| "Math_log F PInf = PInf"
| "Math_log F NInf = NaN"
| "Math_log F (Fin x) = (if x < 0 then NaN else if x = 0 then NInf else mlog F x)"

text \<open>Reading an array of numbers outside its range gives \<^verbatim>\<open>undefined\<close>, which arithmetic turns into NaN.\<close>

definition js_index :: "num list \<Rightarrow> int \<Rightarrow> num" where
  "js_index xs i = (if 0 \<le> i \<and> i < int (length xs) then xs ! nat i else NaN)"

subsection \<open>The two arithmetics\<close>

definition exact :: fpu where
  "exact = \<lparr>rnd = Fin, mexp = (\<lambda>x. Fin (exp x)), mlog = (\<lambda>x. Fin (ln x))\<rparr>"

definition round_half_even :: "real \<Rightarrow> int" where
  "round_half_even x =
     (let f = \<lfloor>x\<rfloor>; d = x - of_int f
      in if d < 1 / 2 then f else if 1 / 2 < d then f + 1 else if even f then f else f + 1)"

definition ulp_exp :: "real \<Rightarrow> int" where
  "ulp_exp x = max (\<lfloor>log 2 \<bar>x\<bar>\<rfloor> - 52) (-1074)"

definition round64 :: "real \<Rightarrow> real" where
  "round64 x =
     (if x = 0 then 0
      else of_int (round_half_even (x / 2 powi ulp_exp x)) * 2 powi ulp_exp x)"

definition rnd64 :: "real \<Rightarrow> num" where
  "rnd64 x =
     (let r = round64 x
      in if 2 ^ 1024 \<le> r then PInf else if r \<le> - (2 ^ 1024) then NInf else Fin r)"

definition ieee :: "(real \<Rightarrow> num) \<Rightarrow> (real \<Rightarrow> num) \<Rightarrow> fpu" where
  "ieee e l = \<lparr>rnd = rnd64, mexp = e, mlog = l\<rparr>"

subsection \<open>Lemmas\<close>

lemma exact_simps [simp]:
  "rnd exact = Fin"
  "mexp exact x = Fin (exp x)"
  "mlog exact x = Fin (ln x)"
  by (simp_all add: exact_def)

lemma ieee_simps [simp]:
  "rnd (ieee e l) = rnd64"
  "mexp (ieee e l) = e"
  "mlog (ieee e l) = l"
  by (simp_all add: ieee_def)

lemma js_sub_Fin [simp, js_simps]: "js_sub F (Fin x) (Fin y) = rnd F (x - y)"
  by (simp add: js_sub_def)

lemma js_gt_Fin [simp, js_simps]: "js_gt (Fin x) (Fin y) \<longleftrightarrow> y < x"
  by (simp add: js_gt_def)

lemma js_gt_NaN [simp]: "\<not> js_gt NaN y" "\<not> js_gt x NaN"
  by (cases y; cases x; simp add: js_gt_def)+

lemma js_max_Fin [simp, js_simps]: "js_max (Fin x) (Fin y) = Fin (max x y)"
  by (auto simp: js_max_def max_def)

lemma js_index_nth [simp]: "i < length xs \<Longrightarrow> js_index xs (int i) = xs ! i"
  by (simp add: js_index_def)

lemma round_half_even_error: "\<bar>of_int (round_half_even x) - x\<bar> \<le> 1 / 2"
  unfolding round_half_even_def Let_def by (auto simp: abs_if) linarith+

lemma ulp_exp_powi:
  assumes "x \<noteq> 0"
  shows "(2 :: real) powi ulp_exp x \<le> \<bar>x\<bar> * 2 powi (-52) + 2 powi (-1074)"
proof -
  have "(2 :: real) powi \<lfloor>log 2 \<bar>x\<bar>\<rfloor> \<le> \<bar>x\<bar>"
  proof -
    have "(2 :: real) powi \<lfloor>log 2 \<bar>x\<bar>\<rfloor> = 2 powr of_int \<lfloor>log 2 \<bar>x\<bar>\<rfloor>"
      by (simp add: powr_real_of_int')
    also have "\<dots> \<le> 2 powr log 2 \<bar>x\<bar>" by simp
    finally show ?thesis using assms by simp
  qed
  then have le: "(2 :: real) powi (\<lfloor>log 2 \<bar>x\<bar>\<rfloor> - 52) \<le> \<bar>x\<bar> * 2 powi (-52)"
    by (simp add: power_int_diff power_int_minus field_simps)
  show ?thesis
  proof (cases "\<lfloor>log 2 \<bar>x\<bar>\<rfloor> - 52 \<le> -1074")
    case True
    then have "ulp_exp x = -1074" by (simp add: ulp_exp_def)
    then show ?thesis by simp
  next
    case False
    then have "ulp_exp x = \<lfloor>log 2 \<bar>x\<bar>\<rfloor> - 52" by (simp add: ulp_exp_def)
    with le show ?thesis by (simp add: add_increasing2)
  qed
qed

lemma round64_error: "\<bar>round64 x - x\<bar> \<le> \<bar>x\<bar> / 2 ^ 53 + 1 / 2 ^ 1075"
proof (cases "x = 0")
  case False
  define u :: real where "u = 2 powi ulp_exp x"
  have u: "0 < u" by (simp add: u_def)
  have "round64 x - x = (of_int (round_half_even (x / u)) - x / u) * u"
    using False u by (simp add: round64_def u_def field_simps)
  then have "\<bar>round64 x - x\<bar> \<le> 1 / 2 * u"
    using round_half_even_error [of "x / u"] u by (simp add: abs_mult)
  also have "\<dots> \<le> 1 / 2 * (\<bar>x\<bar> * 2 powi (-52) + 2 powi (-1074))"
    using ulp_exp_powi [OF False] by (simp add: u_def)
  also have "\<dots> = \<bar>x\<bar> / 2 ^ 53 + 1 / 2 ^ 1075"
    by (simp add: power_int_minus field_simps)
  finally show ?thesis .
qed (simp add: round64_def)

lemma round_half_even_of_int [simp]: "round_half_even (of_int k) = k"
  by (simp add: round_half_even_def Let_def)

lemma round64_of_int:
  assumes "\<bar>k\<bar> < 2 ^ 53"
  shows "round64 (of_int k) = of_int k"
proof (cases "k = 0")
  case False
  have "\<bar>of_int k :: real\<bar> < 2 powr 53"
    using assms by (simp flip: of_int_abs)
  then have "log 2 \<bar>of_int k\<bar> < 53"
    using False by (simp add: log_less_iff)
  then have "\<lfloor>log 2 \<bar>of_int k\<bar>\<rfloor> < 53"
    by (simp add: floor_less_iff)
  then have e: "ulp_exp (of_int k) \<le> 0" by (simp add: ulp_exp_def)
  define j where "j = nat (- ulp_exp (of_int k))"
  from e have "(2 :: real) powi ulp_exp (of_int k) = 1 / 2 ^ j"
    by (simp add: j_def power_int_def divide_simps)
  then have "of_int k / (2 :: real) powi ulp_exp (of_int k) = of_int (k * 2 ^ j)"
    by simp
  then have "round_half_even (of_int k / 2 powi ulp_exp (of_int k)) = k * 2 ^ j"
    by (simp only: round_half_even_of_int)
  with \<open>(2 :: real) powi _ = _\<close> False show ?thesis by (simp add: round64_def)
qed (simp add: round64_def)

lemma rnd64_Fin:
  assumes "\<bar>x\<bar> \<le> 2 ^ 64"
  shows "rnd64 x = Fin (round64 x)"
proof -
  have "\<bar>round64 x\<bar> \<le> \<bar>x\<bar> + (\<bar>x\<bar> / 2 ^ 53 + 1 / 2 ^ 1075)"
    using round64_error [of x] by linarith
  also have "\<dots> \<le> 2 ^ 64 + (2 ^ 64 / 2 ^ 53 + 1)"
    using assms by (intro add_mono divide_right_mono) auto
  also have "\<dots> < 2 ^ 1024" by simp
  finally have "\<bar>round64 x\<bar> < 2 ^ 1024" .
  then show ?thesis by (auto simp: rnd64_def Let_def abs_less_iff)
qed

subsection \<open>The standard model of rounding error\<close>

text \<open>
  What a client of the arithmetic may rely on: in the range the application works in, a rounded
  result is finite and within half a unit in the last place of the exact one.
\<close>

locale fp_sound =
  fixes F :: fpu
  assumes rnd_error: "\<bar>x\<bar> \<le> 2 ^ 64 \<Longrightarrow>
    \<exists>r. rnd F x = Fin r \<and> \<bar>r - x\<bar> \<le> \<bar>x\<bar> / 2 ^ 53 + 1 / 2 ^ 1075"
    and rnd_int: "\<bar>k\<bar> < 2 ^ 53 \<Longrightarrow> rnd F (of_int k) = Fin (of_int k)"
begin

lemma lit_two [simp]: "lit F 2 = Fin 2"
  using rnd_int [of 2] by (simp add: lit_def)

lemma rnd_cases:
  assumes "\<bar>x\<bar> \<le> 2 ^ 64"
  obtains r where "rnd F x = Fin r" and "\<bar>r - x\<bar> \<le> \<bar>x\<bar> / 2 ^ 53 + 1 / 2 ^ 1075"
  using rnd_error [OF assms] by blast

lemma rnd_near:
  assumes "\<bar>x\<bar> \<le> B" and "B \<le> 2 ^ 64"
  obtains r where "rnd F x = Fin r" and "x - (B + 1) / 1000000000000000 \<le> r"
    and "r \<le> x + (B + 1) / 1000000000000000"
proof -
  from assms have "\<bar>x\<bar> \<le> 2 ^ 64" by linarith
  then obtain r where r: "rnd F x = Fin r" and e: "\<bar>r - x\<bar> \<le> \<bar>x\<bar> / 2 ^ 53 + 1 / 2 ^ 1075"
    by (rule rnd_cases)
  have "\<bar>x\<bar> / 2 ^ 53 \<le> \<bar>x\<bar> / 1000000000000000"
    by (intro divide_left_mono) auto
  also have "\<dots> \<le> B / 1000000000000000"
    using assms by (intro divide_right_mono) auto
  finally have "\<bar>x\<bar> / 2 ^ 53 + 1 / 2 ^ 1075 \<le> B / 1000000000000000 + 1 / 1000000000000000"
    by (intro add_mono divide_left_mono) auto
  with e have "\<bar>r - x\<bar> \<le> (B + 1) / 1000000000000000"
    by (simp only: add_divide_distrib)
  then have "r - x \<le> (B + 1) / 1000000000000000" "x - r \<le> (B + 1) / 1000000000000000"
    by (simp_all only: abs_le_iff minus_diff_eq)
  with r show ?thesis by (intro that) (simp_all add: field_simps)
qed

lemma lit_thousandth:
  obtains t where "lit F (1 / 1000) = Fin t" and "999 / 1000000 \<le> t" and "t \<le> 1001 / 1000000"
  by (rule rnd_near [of "1 / 1000" 1]) (auto simp: lit_def)

end

interpretation exact_fp: fp_sound exact
  by unfold_locales auto

interpretation ieee_fp: fp_sound "ieee e l" for e l
proof unfold_locales
  fix x :: real
  assume "\<bar>x\<bar> \<le> 2 ^ 64"
  then show "\<exists>r. rnd (ieee e l) x = Fin r \<and> \<bar>r - x\<bar> \<le> \<bar>x\<bar> / 2 ^ 53 + 1 / 2 ^ 1075"
    using round64_error [of x] by (metis ieee_simps(1) rnd64_Fin)
next
  fix k :: int
  assume k: "\<bar>k\<bar> < 2 ^ 53"
  then have "\<bar>of_int k :: real\<bar> \<le> 2 ^ 64" by (simp flip: of_int_abs)
  then show "rnd (ieee e l) (of_int k) = Fin (of_int k)"
    using round64_of_int [OF k] by (simp add: rnd64_Fin)
qed

end
