(* ===== verification/DecimalJs.thy ===== *)
theory DecimalJs
  imports JsNumber
begin

section \<open>The decimal library\<close>

text \<open>
  The sources compute with \<^verbatim>\<open>Decimal\<close> values of the package \<^verbatim>\<open>decimal.js\<close>, whose code is not part
  of the repository. A value has an abstract type \<open>'d\<close> and the operations the sources call are the
  fields of a record \<open>'d dlib\<close>, an argument of every definition that uses them. The locale
  \<open>decimal_js\<close> states the documented behaviour: a value denotes a real, an operation computes the
  exact result and rounds it to \<^verbatim>\<open>precision\<close> significant digits, \<^verbatim>\<open>toDecimalPlaces\<close> rounds to a
  number of decimal places, comparison is exact, conversion from and to a \<^verbatim>\<open>number\<close> is to the
  nearest value. \<open>real_lib\<close> is an implementation of that interface on the reals.
\<close>

datatype rounding = ROUND_UP | ROUND_DOWN

record dconf =
  precision :: nat
  rounding_mode :: rounding

record 'd dlib =
  dNew :: "num \<Rightarrow> 'd"
  dOfInt :: "int \<Rightarrow> 'd"
  toNumber :: "'d \<Rightarrow> num"
  dPlus :: "dconf \<Rightarrow> 'd \<Rightarrow> 'd \<Rightarrow> 'd"
  dMinus :: "dconf \<Rightarrow> 'd \<Rightarrow> 'd \<Rightarrow> 'd"
  dMul :: "dconf \<Rightarrow> 'd \<Rightarrow> 'd \<Rightarrow> 'd"
  dDiv :: "dconf \<Rightarrow> 'd \<Rightarrow> 'd \<Rightarrow> 'd"
  dMod :: "dconf \<Rightarrow> 'd \<Rightarrow> 'd \<Rightarrow> 'd"
  dAbs :: "'d \<Rightarrow> 'd"
  lessThan :: "'d \<Rightarrow> 'd \<Rightarrow> bool"
  equals :: "'d \<Rightarrow> 'd \<Rightarrow> bool"
  toDecimalPlaces :: "'d \<Rightarrow> nat \<Rightarrow> rounding \<Rightarrow> 'd"
  toFixed :: "dconf \<Rightarrow> 'd \<Rightarrow> nat \<Rightarrow> string"

text \<open>The configuration the sources install: \<^verbatim>\<open>Decimal.set({ precision: 12, rounding: ROUND_DOWN })\<close>.\<close>

definition decimal_conf :: dconf where
  "decimal_conf = \<lparr>precision = 12, rounding_mode = ROUND_DOWN\<rparr>"

definition lessThanOrEqualTo :: "'d dlib \<Rightarrow> 'd \<Rightarrow> 'd \<Rightarrow> bool" where
  "lessThanOrEqualTo D a b = (lessThan D a b \<or> equals D a b)"

definition greaterThan :: "'d dlib \<Rightarrow> 'd \<Rightarrow> 'd \<Rightarrow> bool" where
  "greaterThan D a b = lessThan D b a"

definition greaterThanOrEqualTo :: "'d dlib \<Rightarrow> 'd \<Rightarrow> 'd \<Rightarrow> bool" where
  "greaterThanOrEqualTo D a b = lessThanOrEqualTo D b a"

definition isZero :: "'d dlib \<Rightarrow> 'd \<Rightarrow> bool" where
  "isZero D a = equals D a (dOfInt D 0)"

subsection \<open>Rounding of real values\<close>

text \<open>\<open>ROUND_DOWN\<close> rounds towards zero, \<open>ROUND_UP\<close> away from zero.\<close>

definition round_mag :: "rounding \<Rightarrow> real \<Rightarrow> int" where
  "round_mag m x = (case m of ROUND_DOWN \<Rightarrow> \<lfloor>x\<rfloor> | ROUND_UP \<Rightarrow> \<lceil>x\<rceil>)"

definition round_int :: "rounding \<Rightarrow> real \<Rightarrow> int" where
  "round_int m x = (if x < 0 then - round_mag m (- x) else round_mag m x)"

definition round_dp :: "rounding \<Rightarrow> nat \<Rightarrow> real \<Rightarrow> real" where
  "round_dp m n x = of_int (round_int m (x * 10 ^ n)) / 10 ^ n"

definition sig_scale :: "nat \<Rightarrow> real \<Rightarrow> real" where
  "sig_scale n x = 10 powi (int n - 1 - \<lfloor>log 10 \<bar>x\<bar>\<rfloor>)"

definition round_sig :: "rounding \<Rightarrow> nat \<Rightarrow> real \<Rightarrow> real" where
  "round_sig m n x = (if x = 0 then 0 else of_int (round_int m (x * sig_scale n x)) / sig_scale n x)"

lemma round_int_of_int [simp]: "round_int m (of_int k) = k"
  by (cases m) (auto simp: round_int_def round_mag_def simp flip: of_int_minus)

lemma round_int_down_floor: "0 \<le> x \<Longrightarrow> round_int ROUND_DOWN x = \<lfloor>x\<rfloor>"
  by (simp add: round_int_def round_mag_def)

lemma round_int_down_nonneg: "0 \<le> x \<Longrightarrow> 0 \<le> round_int ROUND_DOWN x \<and> of_int (round_int ROUND_DOWN x) \<le> x"
  by (simp add: round_int_def round_mag_def)

lemma round_int_down_gap: "0 \<le> x \<Longrightarrow> x - 1 < of_int (round_int ROUND_DOWN x)"
  by (simp add: round_int_def round_mag_def)

lemma round_int_up_nonneg: "0 \<le> x \<Longrightarrow> x \<le> of_int (round_int ROUND_UP x)"
  by (simp add: round_int_def round_mag_def)

lemma round_dp_down:
  assumes "0 \<le> x"
  shows "0 \<le> round_dp ROUND_DOWN n x" and "round_dp ROUND_DOWN n x \<le> x"
    and "x - 1 / 10 ^ n < round_dp ROUND_DOWN n x"
proof -
  from assms have pos: "0 \<le> x * 10 ^ n" by simp
  show "0 \<le> round_dp ROUND_DOWN n x"
    using round_int_down_nonneg [OF pos] by (simp add: round_dp_def)
  show "round_dp ROUND_DOWN n x \<le> x"
    using round_int_down_nonneg [OF pos] by (simp add: round_dp_def divide_le_eq)
  have "x * 10 ^ n - 1 < of_int (round_int ROUND_DOWN (x * 10 ^ n))"
    by (rule round_int_down_gap [OF pos])
  then show "x - 1 / 10 ^ n < round_dp ROUND_DOWN n x"
    by (simp add: round_dp_def less_divide_eq left_diff_distrib)
qed

lemma round_dp_up: "0 \<le> x \<Longrightarrow> x \<le> round_dp ROUND_UP n x"
  using round_int_up_nonneg [of "x * 10 ^ n"] by (simp add: round_dp_def le_divide_eq)

lemma sig_scale_pos [simp]: "0 < sig_scale n x"
  by (simp add: sig_scale_def)

lemma sig_scale_neq_0 [simp]: "sig_scale n x \<noteq> 0"
  by (simp add: sig_scale_def)

lemma sig_scale_lower:
  assumes "x \<noteq> 0" and "0 < n"
  shows "10 ^ (n - 1) \<le> \<bar>x\<bar> * sig_scale n x"
proof -
  have "(10 :: real) powi \<lfloor>log 10 \<bar>x\<bar>\<rfloor> = 10 powr of_int \<lfloor>log 10 \<bar>x\<bar>\<rfloor>"
    by (simp add: powr_real_of_int')
  also have "\<dots> \<le> 10 powr log 10 \<bar>x\<bar>" by simp
  also have "\<dots> = \<bar>x\<bar>" using assms by simp
  finally have le: "10 powi \<lfloor>log 10 \<bar>x\<bar>\<rfloor> \<le> \<bar>x\<bar>" .
  have "(10 :: real) ^ (n - 1) = 10 powi (int n - 1)"
    using assms(2) by (simp flip: power_int_of_nat add: of_nat_diff)
  also have "\<dots> = 10 powi \<lfloor>log 10 \<bar>x\<bar>\<rfloor> * sig_scale n x"
    by (simp add: sig_scale_def flip: power_int_add)
  also have "\<dots> \<le> \<bar>x\<bar> * sig_scale n x"
    using le by (intro mult_right_mono) (auto intro: less_imp_le)
  finally show ?thesis .
qed

lemma sig_scale_power:
  assumes "x \<noteq> 0" and "\<bar>x\<bar> < 10 ^ n"
  obtains j where "sig_scale n x = 10 ^ j"
proof -
  let ?l = "\<lfloor>log 10 \<bar>x\<bar>\<rfloor>"
  from assms(2) have "\<bar>x\<bar> < 10 powr n" by (simp add: powr_realpow)
  with assms(1) have "log 10 \<bar>x\<bar> < n" by (simp add: log_less_iff)
  then have "?l < int n" by (simp add: floor_less_iff)
  then have "?l \<le> int n - 1" by simp
  then obtain j where "int n - 1 - ?l = int j" by (metis diff_ge_0_iff_ge nonneg_int_cases)
  then show thesis using that [of j] by (simp add: sig_scale_def)
qed

text \<open>A decimal with at most \<open>n\<close> digits is kept as it is.\<close>

lemma round_sig_decimal:
  assumes "\<bar>k\<bar> < 10 ^ n"
  shows "round_sig m n (of_int k / 10 ^ i) = of_int k / 10 ^ i"
proof (cases "k = 0")
  case False
  let ?k = "real_of_int k"
  have "real_of_int \<bar>k\<bar> < real_of_int (10 ^ n)" using assms by (simp only: of_int_less_iff)
  then obtain j where j: "sig_scale n ?k = 10 ^ j" using sig_scale_power [of ?k n] False by auto
  have "log 10 \<bar>?k / 10 ^ i\<bar> = log 10 \<bar>?k\<bar> - real i"
    using False by (simp add: log_divide_pos abs_divide)
  then have "\<lfloor>log 10 \<bar>?k / 10 ^ i\<bar>\<rfloor> = \<lfloor>log 10 \<bar>?k\<bar>\<rfloor> - int i"
    by (simp add: floor_diff_of_int [of _ "int i", simplified])
  then have "sig_scale n (?k / 10 ^ i) = 10 powi (int n - 1 - \<lfloor>log 10 \<bar>?k\<bar>\<rfloor> + int i)"
    unfolding sig_scale_def by (intro arg_cong [where f = "power_int 10"]) simp
  also have "\<dots> = 10 ^ j * 10 ^ i"
    using j by (simp add: sig_scale_def power_int_add)
  finally have s: "sig_scale n (?k / 10 ^ i) = 10 ^ j * 10 ^ i" .
  have eq: "?k / 10 ^ i * (10 ^ j * 10 ^ i) = of_int (k * 10 ^ j)" by simp
  show ?thesis unfolding round_sig_def s eq round_int_of_int using False by simp
qed (simp add: round_sig_def)

lemma round_sig_of_int: "\<bar>k\<bar> < 10 ^ n \<Longrightarrow> round_sig m n (of_int k) = of_int k"
  using round_sig_decimal [of k n m 0] by simp

lemma round_sig_down_ge_int:
  assumes "of_int k \<le> x" and "0 \<le> x" and "x < 10 ^ n"
  shows "of_int k \<le> round_sig ROUND_DOWN n x"
proof (cases "x = 0")
  case False
  with assms obtain j where s: "sig_scale n x = 10 ^ j" using sig_scale_power [of x n] by auto
  have "real_of_int (k * 10 ^ j) \<le> x * 10 ^ j" using assms by simp
  then have "k * 10 ^ j \<le> \<lfloor>x * 10 ^ j\<rfloor>" by (simp only: le_floor_iff)
  then have "real_of_int (k * 10 ^ j) \<le> of_int \<lfloor>x * 10 ^ j\<rfloor>" by (simp only: of_int_le_iff)
  then show ?thesis
    using False assms by (simp add: round_sig_def s round_int_down_floor field_simps)
qed (use assms in \<open>simp add: round_sig_def\<close>)

lemma round_sig_down_nonneg:
  assumes "0 \<le> x"
  shows "0 \<le> round_sig ROUND_DOWN n x" and "round_sig ROUND_DOWN n x \<le> x"
proof -
  have "0 \<le> x * sig_scale n x" using assms by (simp add: less_imp_le)
  from round_int_down_nonneg [OF this] sig_scale_pos [of n x]
  show "0 \<le> round_sig ROUND_DOWN n x" "round_sig ROUND_DOWN n x \<le> x"
    using assms by (auto simp: round_sig_def divide_le_eq less_imp_le)
qed

lemma round_sig_down_pos:
  assumes "0 < x" and "0 < n"
  shows "0 < round_sig ROUND_DOWN n x" and "x * (1 - 1 / 10 ^ (n - 1)) \<le> round_sig ROUND_DOWN n x"
proof -
  let ?s = "sig_scale n x"
  have ge: "10 ^ (n - 1) \<le> x * ?s" using sig_scale_lower [of x n] assms by simp
  then have "1 \<le> x * ?s" using one_le_power [of "10 :: real" "n - 1"] by linarith
  then have "1 \<le> round_int ROUND_DOWN (x * ?s)"
    using assms by (simp add: round_int_def round_mag_def le_floor_iff)
  with assms show "0 < round_sig ROUND_DOWN n x" by (simp add: round_sig_def)
  have "x * ?s - 1 < of_int (round_int ROUND_DOWN (x * ?s))"
    using \<open>1 \<le> x * ?s\<close> by (intro round_int_down_gap) simp
  then have gap: "x - 1 / ?s < round_sig ROUND_DOWN n x"
    using assms by (simp add: round_sig_def less_divide_eq left_diff_distrib)
  have "1 / ?s \<le> x / 10 ^ (n - 1)"
    using ge by (simp add: field_simps)
  with gap show "x * (1 - 1 / 10 ^ (n - 1)) \<le> round_sig ROUND_DOWN n x"
    by (simp add: algebra_simps)
qed

subsection \<open>Printing\<close>

text \<open>
  \<open>fixed_str n neg x\<close> is the normal notation of the nonnegative \<open>x\<close>, a multiple of \<open>10\<close> to the
  \<open>-n\<close>, with \<open>n\<close> decimal places and a sign when \<open>neg\<close> holds.
\<close>

definition fixed_str :: "nat \<Rightarrow> bool \<Rightarrow> real \<Rightarrow> string" where
  "fixed_str n neg x =
     (let k = nat \<lfloor>x * 10 ^ n\<rfloor>
      in (if neg then ''-'' else []) @ show_nat (k div 10 ^ n) @
         (if n = 0 then [] else CHR ''.'' # padStart0 n (show_nat (k mod 10 ^ n))))"

subsection \<open>The documented behaviour of the package\<close>

locale decimal_js =
  fixes D :: "'d dlib" and val :: "'d \<Rightarrow> real" and fin :: "'d \<Rightarrow> bool"
  assumes new_near: "fin (dNew D (Fin x)) \<and> \<bar>val (dNew D (Fin x)) - x\<bar> \<le> \<bar>x\<bar> / 2 ^ 53 + 1 / 2 ^ 1075"
    and new_sign: "sgn (val (dNew D (Fin x))) = sgn x"
    and of_int: "fin (dOfInt D k)" "val (dOfInt D k) = of_int k"
    and plus: "fin a \<Longrightarrow> fin b \<Longrightarrow> fin (dPlus D c a b) \<and>
      val (dPlus D c a b) = round_sig (rounding_mode c) (precision c) (val a + val b)"
    and minus: "fin a \<Longrightarrow> fin b \<Longrightarrow> fin (dMinus D c a b) \<and>
      val (dMinus D c a b) = round_sig (rounding_mode c) (precision c) (val a - val b)"
    and mul: "fin a \<Longrightarrow> fin b \<Longrightarrow> fin (dMul D c a b) \<and>
      val (dMul D c a b) = round_sig (rounding_mode c) (precision c) (val a * val b)"
    and div: "fin a \<Longrightarrow> fin b \<Longrightarrow> val b \<noteq> 0 \<Longrightarrow> fin (dDiv D c a b) \<and>
      val (dDiv D c a b) = round_sig (rounding_mode c) (precision c) (val a / val b)"
    and modulo: "fin a \<Longrightarrow> fin b \<Longrightarrow> val b \<noteq> 0 \<Longrightarrow> fin (dMod D c a b) \<and>
      val (dMod D c a b) = round_sig (rounding_mode c) (precision c)
        (val a - val b * of_int (round_int ROUND_DOWN (val a / val b)))"
    and abs: "fin a \<Longrightarrow> fin (dAbs D a) \<and> val (dAbs D a) = \<bar>val a\<bar>"
    and lessThan: "fin a \<Longrightarrow> fin b \<Longrightarrow> lessThan D a b \<longleftrightarrow> val a < val b"
    and equals: "fin a \<Longrightarrow> fin b \<Longrightarrow> equals D a b \<longleftrightarrow> val a = val b"
    and places: "fin a \<Longrightarrow> fin (toDecimalPlaces D a n m) \<and>
      val (toDecimalPlaces D a n m) = round_dp m n (val a)"
    and toFixed: "fin a \<Longrightarrow>
      toFixed D c a n = fixed_str n (val a < 0) \<bar>round_dp (rounding_mode c) n (val a)\<bar>"
    and toNumber: "fin a \<Longrightarrow> \<bar>val a\<bar> \<le> 2 ^ 64 \<Longrightarrow>
      \<exists>x. toNumber D a = Fin x \<and> sgn x = sgn (val a) \<and> \<bar>x - val a\<bar> \<le> \<bar>val a\<bar> / 2 ^ 53 + 1 / 2 ^ 1075"
    and toNumber_int: "fin a \<Longrightarrow> val a = of_int k \<Longrightarrow> \<bar>k\<bar> \<le> 2 ^ 53 \<Longrightarrow> toNumber D a = Fin (of_int k)"
begin

lemma greaterThanOrEqualTo_iff:
  "fin a \<Longrightarrow> fin b \<Longrightarrow> greaterThanOrEqualTo D a b \<longleftrightarrow> val b \<le> val a"
  by (auto simp: greaterThanOrEqualTo_def lessThanOrEqualTo_def lessThan equals)

lemma lessThanOrEqualTo_iff:
  "fin a \<Longrightarrow> fin b \<Longrightarrow> lessThanOrEqualTo D a b \<longleftrightarrow> val a \<le> val b"
  by (auto simp: lessThanOrEqualTo_def lessThan equals)

lemma greaterThan_iff: "fin a \<Longrightarrow> fin b \<Longrightarrow> greaterThan D a b \<longleftrightarrow> val b < val a"
  by (simp add: greaterThan_def lessThan)

lemma isZero_iff: "fin a \<Longrightarrow> isZero D a \<longleftrightarrow> val a = 0"
  by (simp add: isZero_def equals of_int)

end

text \<open>
  Conversions without loss: the idealisation under which quotes are compared with the scoring rule.
\<close>

locale decimal_exact = decimal_js +
  assumes toNumber_exact: "fin a \<Longrightarrow> toNumber D a = Fin (val a)"
    and new_exact: "val (dNew D (Fin x)) = x"
begin

lemma new_fin: "fin (dNew D (Fin x))"
  using new_near by blast

lemma toNumber_map: "(\<And>x. x \<in> set xs \<Longrightarrow> fin (f x)) \<Longrightarrow>
    map (\<lambda>x. toNumber D (f x)) xs = map Fin (map (\<lambda>x. val (f x)) xs)"
  by (simp add: toNumber_exact)

end

subsection \<open>An implementation on the reals\<close>

definition real_of_num :: "num \<Rightarrow> real" where
  "real_of_num x = (case x of Fin r \<Rightarrow> r | _ \<Rightarrow> 0)"

definition real_lib :: "real dlib" where
  "real_lib = \<lparr>
     dNew = real_of_num,
     dOfInt = of_int,
     toNumber = Fin,
     dPlus = (\<lambda>c a b. round_sig (rounding_mode c) (precision c) (a + b)),
     dMinus = (\<lambda>c a b. round_sig (rounding_mode c) (precision c) (a - b)),
     dMul = (\<lambda>c a b. round_sig (rounding_mode c) (precision c) (a * b)),
     dDiv = (\<lambda>c a b. round_sig (rounding_mode c) (precision c) (a / b)),
     dMod = (\<lambda>c a b. round_sig (rounding_mode c) (precision c)
               (a - b * of_int (round_int ROUND_DOWN (a / b)))),
     dAbs = abs,
     lessThan = (<),
     equals = (=),
     toDecimalPlaces = (\<lambda>a n m. round_dp m n a),
     toFixed = (\<lambda>c a n. fixed_str n (a < 0) \<bar>round_dp (rounding_mode c) n a\<bar>)\<rparr>"

lemma real_lib_sel [simp]:
  "dNew real_lib (Fin x) = x"
  "dOfInt real_lib k = of_int k"
  "toNumber real_lib a = Fin a"
  "dPlus real_lib c a b = round_sig (rounding_mode c) (precision c) (a + b)"
  "dMinus real_lib c a b = round_sig (rounding_mode c) (precision c) (a - b)"
  "dMul real_lib c a b = round_sig (rounding_mode c) (precision c) (a * b)"
  "dDiv real_lib c a b = round_sig (rounding_mode c) (precision c) (a / b)"
  "dAbs real_lib a = \<bar>a\<bar>"
  "lessThan real_lib a b \<longleftrightarrow> a < b"
  "equals real_lib a b \<longleftrightarrow> a = b"
  "toDecimalPlaces real_lib a n m = round_dp m n a"
  by (simp_all add: real_lib_def real_of_num_def)

interpretation real_dec: decimal_exact real_lib "\<lambda>x. x" "\<lambda>_. True"
  by unfold_locales (auto simp: real_lib_def real_of_num_def)

lemma real_lib_decimal: "decimal_exact real_lib (\<lambda>x. x) (\<lambda>_. True)"
  by (rule real_dec.decimal_exact_axioms)

end
