(* ===== verification/Zod.thy ===== *)
theory Zod
  imports DecimalJs JsString
begin

section \<open>Validation\<close>

text \<open>
  The sources describe their data with schemas of the package \<^verbatim>\<open>zod\<close>, built from combinators. A
  schema is a value of the datatype \<open>schema\<close>, one constructor per combinator the sources use, and a
  run-time value is a value of \<open>jv\<close>: the values of JSON, \<^verbatim>\<open>undefined\<close>, dates (by their time
  value) and \<^verbatim>\<open>Decimal\<close>s. The package itself is a parameter: the locale \<open>zod\<close> states when
  \<^verbatim>\<open>safeParse\<close> succeeds and with which data, for each combinator, as documented. The formats of mail
  addresses, identifiers and links and the conversion to dates and decimals are the fields of a
  record \<open>zenv\<close>. \<open>zparse\<close> is an executable implementation of the locale.
\<close>

subsection \<open>Values\<close>

datatype 'd jv =
    JUndef
  | JNull
  | JBool bool
  | JNum num
  | JStr string
  | JArr "'d jv list"
  | JObj "(string \<times> 'd jv) list"
  | JDate int
  | JDec 'd

definition obj_get :: "string \<Rightarrow> 'd jv \<Rightarrow> 'd jv" where
  "obj_get k v = (case v of JObj kvs \<Rightarrow> (case map_of kvs k of None \<Rightarrow> JUndef | Some x \<Rightarrow> x) | _ \<Rightarrow> JUndef)"

definition truthy :: "'d jv \<Rightarrow> bool" where
  "truthy v =
     (case v of JUndef \<Rightarrow> False | JNull \<Rightarrow> False | JBool b \<Rightarrow> b | JNum x \<Rightarrow> x \<noteq> NaN \<and> x \<noteq> Fin 0
      | JStr s \<Rightarrow> s \<noteq> [] | _ \<Rightarrow> True)"

subsection \<open>Schemas\<close>

datatype string_check =
    Trim
  | MinLength nat "string option"
  | MaxLength nat "string option"
  | Alphanumeric "string option"
  | Email "string option"

datatype number_check =
    IntCheck
  | Minimum int "string option"
  | Maximum int "string option"

datatype 'd schema =
    ZString "string_check list"
  | ZNumber "number_check list"
  | ZBoolean
  | ZNull
  | ZAny
  | ZFunction
  | ZUuid
  | ZUrl
  | ZDate
  | ZDecimalInstance
  | ZEnum "string list"
  | ZLiteral string
  | ZArray "'d schema"
  | ZObject "(string \<times> 'd schema) list"
  | ZUnion "'d schema list"
  | ZOptional "'d schema"
  | ZNullable "'d schema"
  | ZDefault "'d schema" "'d jv"
  | ZRefine "'d schema" "'d jv \<Rightarrow> bool" string "string list"
  | ZTransform "'d schema" "'d jv \<Rightarrow> string + 'd jv"

text \<open>A problem: where it is, and the message the schema gives for it, if any.\<close>

type_synonym issue = "string list \<times> string option"

type_synonym 'd zresult = "issue list + 'd jv"

record 'd zenv =
  is_email :: "string \<Rightarrow> bool"
  is_uuid :: "string \<Rightarrow> bool"
  is_url :: "string \<Rightarrow> bool"
  to_date :: "'d jv \<Rightarrow> int option"

subsection \<open>Checks\<close>

definition alnum :: "char \<Rightarrow> bool" where
  "alnum c \<longleftrightarrow> is_digit c \<or> (65 \<le> (of_char c :: nat) \<and> (of_char c :: nat) \<le> 90) \<or> (97 \<le> (of_char c :: nat) \<and> (of_char c :: nat) \<le> 122)"

fun check_string :: "'d zenv \<Rightarrow> string_check \<Rightarrow> string \<Rightarrow> bool" where
  "check_string E Trim s = True"
| "check_string E (MinLength n _) s = (n \<le> length s)"
| "check_string E (MaxLength n _) s = (length s \<le> n)"
| "check_string E (Alphanumeric _) s = (s \<noteq> [] \<and> list_all alnum s)"
| "check_string E (Email _) s = is_email E s"

definition apply_trim :: "string_check list \<Rightarrow> string \<Rightarrow> string" where
  "apply_trim cs s = (if Trim \<in> set cs then js_trim s else s)"

fun check_number :: "number_check \<Rightarrow> num \<Rightarrow> bool" where
  "check_number IntCheck x = (case x of Fin r \<Rightarrow> r = of_int \<lfloor>r\<rfloor> | _ \<Rightarrow> False)"
| "check_number (Minimum k _) x = (\<not> js_lt x (Fin (of_int k)) \<and> x \<noteq> NaN)"
| "check_number (Maximum k _) x = (\<not> js_lt (Fin (of_int k)) x \<and> x \<noteq> NaN)"

fun string_message :: "string_check \<Rightarrow> string option" where
  "string_message Trim = None"
| "string_message (MinLength _ m) = m"
| "string_message (MaxLength _ m) = m"
| "string_message (Alphanumeric m) = m"
| "string_message (Email m) = m"

fun number_message :: "number_check \<Rightarrow> string option" where
  "number_message IntCheck = None"
| "number_message (Minimum _ m) = m"
| "number_message (Maximum _ m) = m"

text \<open>The fields of a parsed object; a field without a value is absent.\<close>

definition parsed_fields :: "(string \<times> 'd schema) list \<Rightarrow> 'd jv list \<Rightarrow> 'd jv" where
  "parsed_fields fs xs = JObj (filter (\<lambda>(k, x). x \<noteq> JUndef) (zip (map fst fs) xs))"

subsection \<open>The documented behaviour\<close>

locale zod =
  fixes E :: "'d zenv" and safeParse :: "'d schema \<Rightarrow> 'd jv \<Rightarrow> 'd zresult"
  assumes string_ok: "safeParse (ZString cs) v = Inr r \<longleftrightarrow>
      (\<exists>s. v = JStr s \<and> r = JStr (apply_trim cs s) \<and> list_all (\<lambda>c. check_string E c (apply_trim cs s)) cs)"
    and number_ok: "safeParse (ZNumber ns) v = Inr r \<longleftrightarrow>
      (\<exists>x. v = JNum x \<and> (\<exists>y. x = Fin y) \<and> r = v \<and> list_all (\<lambda>c. check_number c x) ns)"
    and boolean_ok: "safeParse ZBoolean v = Inr r \<longleftrightarrow> (\<exists>b. v = JBool b) \<and> r = v"
    and null_ok: "safeParse ZNull v = Inr r \<longleftrightarrow> v = JNull \<and> r = v"
    and any_ok: "safeParse ZAny v = Inr r \<longleftrightarrow> r = v"
    and uuid_ok: "safeParse ZUuid v = Inr r \<longleftrightarrow> (\<exists>s. v = JStr s \<and> is_uuid E s) \<and> r = v"
    and url_ok: "safeParse ZUrl v = Inr r \<longleftrightarrow> (\<exists>s. v = JStr s \<and> is_url E s) \<and> r = v"
    and date_ok: "safeParse ZDate v = Inr r \<longleftrightarrow> (\<exists>t. to_date E v = Some t \<and> r = JDate t)"
    and decimal_ok: "safeParse ZDecimalInstance v = Inr r \<longleftrightarrow> (\<exists>d. v = JDec d) \<and> r = v"
    and enum_ok: "safeParse (ZEnum vs) v = Inr r \<longleftrightarrow> (\<exists>s. v = JStr s \<and> s \<in> set vs) \<and> r = v"
    and literal_ok: "safeParse (ZLiteral l) v = Inr r \<longleftrightarrow> v = JStr l \<and> r = v"
    and array_ok: "safeParse (ZArray s) v = Inr r \<longleftrightarrow>
      (\<exists>xs ys. v = JArr xs \<and> r = JArr ys \<and> list_all2 (\<lambda>x y. safeParse s x = Inr y) xs ys)"
    and object_ok: "safeParse (ZObject fs) v = Inr r \<longleftrightarrow>
      (\<exists>kvs xs. v = JObj kvs \<and> r = parsed_fields fs xs \<and>
         list_all2 (\<lambda>(k, s) x. safeParse s (obj_get k v) = Inr x) fs xs)"
    and union_Nil: "safeParse (ZUnion []) v \<noteq> Inr r"
    and union_Cons: "safeParse (ZUnion (s # ss)) v = Inr r \<longleftrightarrow>
      safeParse s v = Inr r \<or> (\<exists>e. safeParse s v = Inl e) \<and> safeParse (ZUnion ss) v = Inr r"
    and optional_ok: "safeParse (ZOptional s) v = Inr r \<longleftrightarrow> (if v = JUndef then r = JUndef else safeParse s v = Inr r)"
    and nullable_ok: "safeParse (ZNullable s) v = Inr r \<longleftrightarrow> (if v = JNull then r = JNull else safeParse s v = Inr r)"
    and default_ok: "safeParse (ZDefault s d) v = Inr r \<longleftrightarrow> (if v = JUndef then r = d else safeParse s v = Inr r)"
    and refine_ok: "safeParse (ZRefine s P m p) v = Inr r \<longleftrightarrow> safeParse s v = Inr r \<and> P r"
    and refine_issue: "safeParse s v = Inr r \<Longrightarrow> \<not> P r \<Longrightarrow> safeParse (ZRefine s P m p) v = Inl [(p, Some m)]"
    and transform_ok: "safeParse (ZTransform s f) v = Inr r \<longleftrightarrow> (\<exists>x. safeParse s v = Inr x \<and> f x = Inr r)"
begin

lemmas ok_iff = union_Nil union_Cons string_ok number_ok boolean_ok null_ok any_ok uuid_ok url_ok date_ok decimal_ok enum_ok literal_ok
  optional_ok nullable_ok default_ok refine_ok transform_ok

lemma object_Cons:
  "list_all2 (\<lambda>(k, s) x. safeParse s (obj_get k v) = Inr x) ((k, s) # fs) xs \<longleftrightarrow>
   (\<exists>y ys. xs = y # ys \<and> safeParse s (obj_get k v) = Inr y \<and>
      list_all2 (\<lambda>(k, s) x. safeParse s (obj_get k v) = Inr x) fs ys)"
  by (cases xs) auto

lemma object_Nil: "list_all2 (\<lambda>(k, s) x. safeParse s (obj_get k v) = Inr x) [] xs \<longleftrightarrow> xs = []"
  by simp

end

subsection \<open>An implementation\<close>

definition at_path :: "string \<Rightarrow> 'd zresult \<Rightarrow> 'd zresult" where
  "at_path k r = (case r of Inl is \<Rightarrow> Inl (map (\<lambda>(p, m). (k # p, m)) is) | Inr x \<Rightarrow> Inr x)"

fun collect :: "(issue list + 'a) list \<Rightarrow> issue list + 'a list" where
  "collect [] = Inr []"
| "collect (Inr x # rs) = (case collect rs of Inr xs \<Rightarrow> Inr (x # xs) | Inl es \<Rightarrow> Inl es)"
| "collect (Inl e # rs) = (case collect rs of Inr xs \<Rightarrow> Inl e | Inl es \<Rightarrow> Inl (e @ es))"

fun first_ok :: "'d zresult list \<Rightarrow> 'd zresult" where
  "first_ok [] = Inl [([], None)]"
| "first_ok (Inr x # rs) = Inr x"
| "first_ok (Inl e # rs) = (case first_ok rs of Inr x \<Rightarrow> Inr x | Inl _ \<Rightarrow> Inl [([], None)])"

definition guard :: "bool \<Rightarrow> 'd jv \<Rightarrow> 'd zresult" where
  "guard b v = (if b then Inr v else Inl [([], None)])"

primrec zparse :: "'d schema \<Rightarrow> 'd zenv \<Rightarrow> 'd jv \<Rightarrow> 'd zresult" where
  "zparse (ZString cs) = (\<lambda>E v. case v of
      JStr s \<Rightarrow> (let t = apply_trim cs s; bad = filter (\<lambda>c. \<not> check_string E c t) cs
                 in if bad = [] then Inr (JStr t) else Inl (map (\<lambda>c. ([], string_message c)) bad))
    | _ \<Rightarrow> Inl [([], None)])"
| "zparse (ZNumber ns) = (\<lambda>E v. case v of
      JNum (Fin y) \<Rightarrow> (let bad = filter (\<lambda>c. \<not> check_number c (Fin y)) ns
                 in if bad = [] then Inr v else Inl (map (\<lambda>c. ([], number_message c)) bad))
    | _ \<Rightarrow> Inl [([], None)])"
| "zparse ZBoolean = (\<lambda>E v. guard (case v of JBool _ \<Rightarrow> True | _ \<Rightarrow> False) v)"
| "zparse ZNull = (\<lambda>E v. guard (v = JNull) v)"
| "zparse ZAny = (\<lambda>E v. Inr v)"
| "zparse ZFunction = (\<lambda>E v. Inl [([], None)])"
| "zparse ZUuid = (\<lambda>E v. guard (case v of JStr s \<Rightarrow> is_uuid E s | _ \<Rightarrow> False) v)"
| "zparse ZUrl = (\<lambda>E v. guard (case v of JStr s \<Rightarrow> is_url E s | _ \<Rightarrow> False) v)"
| "zparse ZDate = (\<lambda>E v. case to_date E v of Some t \<Rightarrow> Inr (JDate t) | None \<Rightarrow> Inl [([], None)])"
| "zparse ZDecimalInstance = (\<lambda>E v. guard (case v of JDec _ \<Rightarrow> True | _ \<Rightarrow> False) v)"
| "zparse (ZEnum vs) = (\<lambda>E v. guard (case v of JStr s \<Rightarrow> s \<in> set vs | _ \<Rightarrow> False) v)"
| "zparse (ZLiteral s) = (\<lambda>E v. guard (v = JStr s) v)"
| "zparse (ZArray s) = (\<lambda>E v. case v of
      JArr xs \<Rightarrow> (case collect (map (\<lambda>(i, x). at_path (show_nat i) (zparse s E x)) (enumerate 0 xs)) of
                    Inl is \<Rightarrow> Inl is | Inr ys \<Rightarrow> Inr (JArr ys))
    | _ \<Rightarrow> Inl [([], None)])"
| "zparse (ZObject fs) = (\<lambda>E v. case v of
      JObj _ \<Rightarrow> (case collect (map (\<lambda>(k, p). at_path k (p E (obj_get k v))) (map (map_prod id zparse) fs)) of
                    Inl is \<Rightarrow> Inl is | Inr xs \<Rightarrow> Inr (parsed_fields fs xs))
    | _ \<Rightarrow> Inl [([], None)])"
| "zparse (ZUnion ss) = (\<lambda>E v. first_ok (map (\<lambda>p. p E v) (map zparse ss)))"
| "zparse (ZOptional s) = (\<lambda>E v. if v = JUndef then Inr JUndef else zparse s E v)"
| "zparse (ZNullable s) = (\<lambda>E v. if v = JNull then Inr JNull else zparse s E v)"
| "zparse (ZDefault s d) = (\<lambda>E v. if v = JUndef then Inr d else zparse s E v)"
| "zparse (ZRefine s P m p) = (\<lambda>E v. case zparse s E v of
      Inl is \<Rightarrow> Inl is | Inr r \<Rightarrow> if P r then Inr r else Inl [(p, Some m)])"
| "zparse (ZTransform s f) = (\<lambda>E v. case zparse s E v of
      Inl is \<Rightarrow> Inl is | Inr x \<Rightarrow> (case f x of Inl m \<Rightarrow> Inl [([], Some m)] | Inr r \<Rightarrow> Inr r))"

lemma collect_map_Inr [simp]: "collect (map Inr xs) = Inr xs"
  by (induction xs) simp_all

lemma collect_Inr: "collect rs = Inr xs \<Longrightarrow> rs = map Inr xs"
proof (induction rs arbitrary: xs rule: collect.induct)
  case (2 x rs)
  then show ?case by (cases "collect rs") auto
next
  case (3 e rs)
  then show ?case by (cases "collect rs") auto
qed simp

lemma collect_map: "collect rs = Inr xs \<longleftrightarrow> rs = map Inr xs"
  using collect_Inr collect_map_Inr by blast

lemma collect_ok: "collect rs = Inr xs \<longleftrightarrow> list_all2 (\<lambda>r x. r = Inr x) rs xs"
  by (simp add: collect_map list_all2_eq [symmetric] list_all2_map2 list.rel_eq [symmetric])

lemma at_path_ok [simp]: "at_path k r = Inr x \<longleftrightarrow> r = Inr x"
  by (simp add: at_path_def split: sum.splits)

lemma guard_ok [simp]: "guard b v = Inr r \<longleftrightarrow> b \<and> r = v"
  by (auto simp: guard_def)

lemma filter_all: "filter (\<lambda>c. \<not> P c) cs = [] \<longleftrightarrow> list_all P cs"
  by (induction cs) auto

lemma case_collect: "(case c of Inl is \<Rightarrow> Inl is | Inr ys \<Rightarrow> Inr (f ys)) = Inr r \<longleftrightarrow> (\<exists>ys. c = Inr ys \<and> r = f ys)"
  by (auto split: sum.splits)

lemma zparse_array:
  "zparse (ZArray s) E v = Inr r \<longleftrightarrow>
   (\<exists>xs ys. v = JArr xs \<and> r = JArr ys \<and> list_all2 (\<lambda>x y. zparse s E x = Inr y) xs ys)"
proof -
  have "list_all2 (\<lambda>r x. r = Inr x) (map (\<lambda>(i, x). at_path (show_nat i) (zparse s E x)) (enumerate n xs)) ys \<longleftrightarrow>
      list_all2 (\<lambda>x y. zparse s E x = Inr y) xs ys" for n xs ys
    by (induction xs arbitrary: n ys) (auto simp: list_all2_Cons1)
  then show ?thesis by (cases v) (auto simp: case_collect collect_ok)
qed

lemma zparse_object:
  "zparse (ZObject fs) E v = Inr r \<longleftrightarrow>
   (\<exists>kvs xs. v = JObj kvs \<and> r = parsed_fields fs xs \<and>
      list_all2 (\<lambda>(k, s) x. zparse s E (obj_get k v) = Inr x) fs xs)"
proof -
  have "list_all2 (\<lambda>r x. r = Inr x) (map ((\<lambda>(k, p). at_path k (p E w)) \<circ> map_prod id zparse) fs) xs =
      list_all2 (\<lambda>(k, s) x. zparse s E w = Inr x) fs xs" for w xs
    by (simp add: list_all2_map1 case_prod_unfold)
  moreover have "list_all2 (\<lambda>r x. r = Inr x) (map ((\<lambda>(k, p). at_path k (p E (obj_get k v))) \<circ> map_prod id zparse) fs) xs =
      list_all2 (\<lambda>(k, s) x. zparse s E (obj_get k v) = Inr x) fs xs" for v xs
    by (simp add: list_all2_map1 case_prod_unfold)
  ultimately show ?thesis by (cases v) (auto simp: case_collect collect_ok)
qed

lemma zparse_string:
  "zparse (ZString cs) E v = Inr r \<longleftrightarrow>
   (\<exists>s. v = JStr s \<and> r = JStr (apply_trim cs s) \<and> list_all (\<lambda>c. check_string E c (apply_trim cs s)) cs)"
  by (cases v) (auto simp: Let_def filter_all)

lemma zparse_number:
  "zparse (ZNumber ns) E v = Inr r \<longleftrightarrow>
   (\<exists>x. v = JNum x \<and> (\<exists>y. x = Fin y) \<and> r = v \<and> list_all (\<lambda>c. check_number c x) ns)"
  by (cases v) (auto simp: Let_def filter_all split: num.splits)

lemma zparse_union_Cons:
  "zparse (ZUnion (s # ss)) E v = Inr r \<longleftrightarrow>
   zparse s E v = Inr r \<or> (\<exists>e. zparse s E v = Inl e) \<and> zparse (ZUnion ss) E v = Inr r"
  by (cases "zparse s E v"; cases "zparse (ZUnion ss) E v") simp_all

lemma zparse_refine:
  "zparse (ZRefine s P m p) E v = Inr r \<longleftrightarrow> zparse s E v = Inr r \<and> P r"
  by (cases "zparse s E v") auto

lemma zparse_transform:
  "zparse (ZTransform s f) E v = Inr r \<longleftrightarrow> (\<exists>x. zparse s E v = Inr x \<and> f x = Inr r)"
  by (cases "zparse s E v") (auto split: sum.splits)

lemma zparse_simple:
  "zparse ZBoolean E v = Inr r \<longleftrightarrow> (\<exists>b. v = JBool b) \<and> r = v"
  "zparse ZNull E v = Inr r \<longleftrightarrow> v = JNull \<and> r = v"
  "zparse ZAny E v = Inr r \<longleftrightarrow> r = v"
  "zparse ZUuid E v = Inr r \<longleftrightarrow> (\<exists>s. v = JStr s \<and> is_uuid E s) \<and> r = v"
  "zparse ZUrl E v = Inr r \<longleftrightarrow> (\<exists>s. v = JStr s \<and> is_url E s) \<and> r = v"
  "zparse ZDate E v = Inr r \<longleftrightarrow> (\<exists>t. to_date E v = Some t \<and> r = JDate t)"
  "zparse ZDecimalInstance E v = Inr r \<longleftrightarrow> (\<exists>d. v = JDec d) \<and> r = v"
  "zparse (ZEnum vs) E v = Inr r \<longleftrightarrow> (\<exists>s. v = JStr s \<and> s \<in> set vs) \<and> r = v"
  "zparse (ZLiteral l) E v = Inr r \<longleftrightarrow> v = JStr l \<and> r = v"
  "zparse (ZUnion []) E v \<noteq> Inr r"
  by (auto split: jv.splits option.splits)

lemma zparse_wrapped:
  "zparse (ZOptional s) E v = Inr r \<longleftrightarrow> (if v = JUndef then r = JUndef else zparse s E v = Inr r)"
  "zparse (ZNullable s) E v = Inr r \<longleftrightarrow> (if v = JNull then r = JNull else zparse s E v = Inr r)"
  "zparse (ZDefault s d) E v = Inr r \<longleftrightarrow> (if v = JUndef then r = d else zparse s E v = Inr r)"
  "zparse s E v = Inr r \<Longrightarrow> \<not> P r \<Longrightarrow> zparse (ZRefine s P m p) E v = Inl [(p, Some m)]"
  by auto

interpretation zref: zod E "\<lambda>s. zparse s E" for E
  by unfold_locales
    (rule zparse_string zparse_number zparse_array zparse_object zparse_union_Cons zparse_refine
      zparse_transform zparse_simple zparse_wrapped; assumption?)+

end
