(* ===== verification/Definitions.thy ===== *)
theory Definitions
  imports DecimalJs
begin

section \<open>The data the front end works on\<close>

text \<open>
  The records of \<^verbatim>\<open>src/frontend/seer/src/lib/definitions.ts\<close> that the other components read and
  update: outcomes with their price charts, markets, bets, balances and page metadata. A date is
  its time value in milliseconds, an identifier that the sources only compare is an integer or a
  string, an optional field is an \<open>option\<close>. The type parameter is the type of \<^verbatim>\<open>Decimal\<close> values.
\<close>

datatype timeframe = TF_24h | TF_7d | TF_30d | TF_all

record 'd price_point =
  pp_date :: int
  pp_timestamp :: int
  pp_price :: 'd

record 'd price_chart =
  chart_timeframe :: timeframe
  chart_prices :: "'d price_point list"

record 'd outcome =
  o_id :: int
  o_name :: string
  quantity :: 'd
  position :: int
  priceYes :: 'd
  priceNo :: 'd
  priceYesNormalized :: 'd
  priceNoNormalized :: 'd
  priceCharts :: "'d price_chart list option"

datatype market_status = Active | Resolved | Pending | Paused

datatype outcome_sort = SortPrice | SortPosition

record category =
  cat_id :: int
  cat_slug :: string
  cat_label :: string
  cat_iconUrl :: string

record market_resolution =
  res_id :: "int option"
  res_marketId :: string
  winningOutcomeId :: int
  res_createdAt :: int

record 'd market_view =
  m_id :: string
  m_name :: string
  m_description :: string
  isBinary :: bool
  imgKey :: "string option"
  m_slug :: string
  closeTime :: "int option"
  outcomeSort :: outcome_sort
  alpha :: 'd
  capPrice :: 'd
  totalVolume :: 'd
  categories :: "category list"
  outcomes :: "'d outcome list"
  m_status :: market_status
  resolution :: "market_resolution option"
  m_version :: int

datatype bet_side = SideY | SideN

datatype bet_status = BetActive | BetWon | BetLost | BetCashedOut

record 'd bet =
  bet_id :: string
  bet_status :: bet_status
  pricePaid :: 'd
  bet_payout :: 'd
  cashedOut :: "'d option"
  avgPrice :: 'd
  bet_marketId :: string
  bet_marketName :: string
  bet_marketImgKey :: "string option"
  bet_outcomeId :: int
  bet_side :: bet_side
  bet_outcomeName :: string
  placedAt :: int

record metadata =
  currentPage :: int
  pageSize :: int
  firstPage :: int
  lastPage :: int
  totalRecords :: int

datatype currency = USDT

record 'd balance =
  bal_amount :: 'd
  bal_currency :: currency
  bal_version :: int

subsection \<open>Examples\<close>

text \<open>A market with the given quantities, one of its outcomes and a bet on it, on real numbers.\<close>

definition demo_outcome :: "int \<Rightarrow> real \<Rightarrow> real outcome" where
  "demo_outcome i x = \<lparr>o_id = i, o_name = ''outcome'', quantity = x, position = i,
     priceYes = 0, priceNo = 0, priceYesNormalized = 0, priceNoNormalized = 0, priceCharts = None\<rparr>"

definition demo_market :: "real list \<Rightarrow> real market_view" where
  "demo_market q = \<lparr>m_id = ''m'', m_name = ''demo'', m_description = [], isBinary = True, imgKey = None,
     m_slug = ''demo'', closeTime = None, outcomeSort = SortPosition, alpha = 1 / 4, capPrice = 99 / 100,
     totalVolume = 0, categories = [], outcomes = map (\<lambda>i. demo_outcome (int i) (q ! i)) [0..<length q],
     m_status = Active, resolution = None, m_version = 0\<rparr>"

definition demo_bet :: "real \<Rightarrow> real \<Rightarrow> real bet" where
  "demo_bet paid payout = \<lparr>bet_id = ''b'', bet_status = BetActive, pricePaid = paid, bet_payout = payout,
     cashedOut = None, avgPrice = 1 / 2, bet_marketId = ''m'', bet_marketName = ''demo'',
     bet_marketImgKey = None, bet_outcomeId = 0, bet_side = SideY, bet_outcomeName = ''outcome'', placedAt = 0\<rparr>"

end
