(* ===== verification/Messages.thy ===== *)
theory Messages
  imports Definitions JsString
begin

section \<open>The messages of the socket\<close>

text \<open>
  The payloads of \<^verbatim>\<open>src/frontend/seer/src/socket/messages.ts\<close> as records, after validation, and the
  names of the rooms. The type parameter is the type of \<^verbatim>\<open>Decimal\<close> values, as in
  \<^verbatim>\<open>Definitions\<close>.
\<close>

record 'j ws_message =
  ws_type :: string
  ws_payload :: "'j option"

record 'd balance_update =
  bu_currency :: string
  bu_balance :: 'd
  bu_version :: int

record 'd outcome_update =
  ou_id :: int
  ou_quantity :: 'd

record 'd market_update =
  mu_marketID :: string
  mu_marketVersion :: int
  mu_totalVolume :: 'd
  mu_outcomes :: "'d outcome_update list"

record ws_user =
  wu_id :: string
  wu_username :: string
  wu_profileImageKey :: "string option"

datatype chat_kind = ChatUser | ChatSystem

record chat_message =
  cm_id :: string
  chatSlug :: string
  cm_content :: string
  cm_createdAt :: int
  cm_type :: chat_kind
  cm_user :: ws_user

record 'd bet_update =
  bup_id :: string
  bup_marketID :: string
  bup_marketName :: string
  bup_marketSlug :: string
  bup_outcomeId :: num
  bup_outcomeName :: string
  bup_wager :: 'd
  bup_payout :: 'd
  bup_avgPrice :: 'd
  bup_placedAt :: int
  bup_user :: "ws_user option"

record online_update =
  usersOnlineCount :: int

datatype 'd payload =
    PBalance "'d balance_update"
  | PMarket "'d market_update"
  | PBet "'d bet_update"
  | PChat chat_message
  | POnline online_update
  | PEmpty

definition ChatRoomPrefix :: string where
  "ChatRoomPrefix = ''chat:''"

definition MarketRoomPrefix :: string where
  "MarketRoomPrefix = ''market:''"

definition getMarketRoom :: "string \<Rightarrow> string" where
  "getMarketRoom marketId = MarketRoomPrefix @ marketId"

definition getChatRoom :: "string \<Rightarrow> string" where
  "getChatRoom slug = ChatRoomPrefix @ slug"

end
