(* ===== verification/LsLmsr.thy ===== *)
theory LsLmsr
  imports Definitions
begin

section \<open>The market maker\<close>

text \<open>
  The pricing engine of \<^verbatim>\<open>src/frontend/seer/src/lib/lslmsr\<close> (\<^verbatim>\<open>lslmsr.ts\<close> and \<^verbatim>\<open>math_util.ts\<close>),
  function by function. Every function takes the arithmetic \<open>F\<close> and, where it uses \<^verbatim>\<open>Decimal\<close>, the
  library \<open>D\<close>. A function that can throw returns a sum; a function that runs the search loop
  returns an option, \<open>None\<close> when the loop does not end.
\<close>

subsection \<open>Definitions\<close>

definition computeB :: "fpu \<Rightarrow> num list \<Rightarrow> num \<Rightarrow> num" where
  "computeB F q a = js_mul F a (foldl (js_add F) (Fin 0) q)"

definition SCALE :: nat where
  "SCALE = 12"

definition truncatePrecision :: "'d dlib \<Rightarrow> 'd \<Rightarrow> nat \<Rightarrow> rounding \<Rightarrow> 'd" where
  "truncatePrecision D x n m = toDecimalPlaces D x n m"

definition gainProportion :: "'d dlib \<Rightarrow> 'd \<Rightarrow> 'd \<Rightarrow> 'd" where
  "gainProportion D spend payout = dDiv D decimal_conf spend payout"

definition softmaxB :: "fpu \<Rightarrow> num list \<Rightarrow> num \<Rightarrow> num list js" where
  "softmaxB F q a =
     (let b = computeB F q a
      in bindE (reduce1 js_max q) (\<lambda>maxQi.
         let maxXi = js_div F maxQi b;
             expValues = map (\<lambda>qi. Math_exp F (js_sub F (js_div F qi b) maxXi)) q
         in bindE (reduce1 (js_add F) expValues) (\<lambda>sumExp.
            Inr (map (\<lambda>v. js_div F v sumExp) expValues))))"

partial_function (option) bisect ::
    "fpu \<Rightarrow> num \<Rightarrow> num \<Rightarrow> num \<Rightarrow> (num \<Rightarrow> num) \<Rightarrow> num option" where
  "bisect F lo hi tol f =
     (if js_gt (js_sub F hi lo) tol
      then let mid = js_div F (js_add F lo hi) (lit F 2)
           in if js_gt (f mid) (Fin 0) then bisect F lo mid tol f else bisect F mid hi tol f
      else Some lo)"

definition cost :: "fpu \<Rightarrow> num list \<Rightarrow> num \<Rightarrow> num" where
  "cost F q a =
     (let b = computeB F q a;
          sumExp = foldl (\<lambda>acc qi. js_add F acc (Math_exp F (js_div F qi b))) (Fin 0) q;
          logSumExp = Math_log F sumExp
      in js_mul F b logSumExp)"

definition prices :: "fpu \<Rightarrow> num list \<Rightarrow> num \<Rightarrow> num list js" where
  "prices F q a =
     bindE (softmaxB F q a) (\<lambda>softmaxes.
       let sumSi = foldl (\<lambda>acc s. js_add F acc (js_mul F s (Math_log F s))) (Fin 0) softmaxes;
           entropyTerm = js_neg sumSi;
           com = js_mul F entropyTerm a
       in Inr (map (\<lambda>s. js_add F s com) softmaxes))"

text \<open>The sum of the entries of \<open>p\<close> at positions other than \<open>idx\<close>, as \<^verbatim>\<open>Decimal\<close>.\<close>

definition price_no :: "'d dlib \<Rightarrow> num list \<Rightarrow> nat \<Rightarrow> 'd" where
  "price_no D p idx =
     foldl (\<lambda>acc b. dPlus D decimal_conf acc (dNew D b)) (dOfInt D 0)
       (map snd (filter (\<lambda>(j, _). j \<noteq> idx) (enumerate 0 p)))"

definition set_prices :: "'d dlib \<Rightarrow> num list \<Rightarrow> 'd outcome list \<Rightarrow> 'd outcome list" where
  "set_prices D p os =
     map (\<lambda>(idx, ob). ob\<lparr>priceYes := dNew D (js_index p (int idx)), priceNo := price_no D p idx\<rparr>)
       (enumerate 0 os)"

definition sum_prices :: "'d dlib \<Rightarrow> 'd outcome list \<Rightarrow> 'd" where
  "sum_prices D os = foldl (\<lambda>acc ob. dPlus D decimal_conf acc (priceYes ob)) (dOfInt D 0) os"

definition normalize_prices :: "'d dlib \<Rightarrow> 'd outcome list \<Rightarrow> 'd outcome list" where
  "normalize_prices D os =
     (let s = sum_prices D os
      in map (\<lambda>ob. let y = dDiv D decimal_conf (priceYes ob) s
                   in ob\<lparr>priceYesNormalized := y,
                         priceNoNormalized := dMinus D decimal_conf (dOfInt D 1) y\<rparr>) os)"

definition price_after :: "'d dlib \<Rightarrow> 'd outcome \<Rightarrow> 'd outcome \<Rightarrow> bool" where
  "price_after D a b =
     js_gt (toNumber D (dMinus D decimal_conf (priceYesNormalized b) (priceYesNormalized a))) (Fin 0)"

definition pricesForMarket :: "fpu \<Rightarrow> 'd dlib \<Rightarrow> 'd market_view \<Rightarrow> 'd market_view js" where
  "pricesForMarket F D market =
     (let q = map quantity (outcomes market); a = alpha market
      in bindE (prices F (map (toNumber D) q) (toNumber D a)) (\<lambda>p.
         let os = normalize_prices D (set_prices D p (outcomes market))
         in Inr (market\<lparr>outcomes :=
              (if outcomeSort market = SortPrice then sort_by (price_after D) os else os)\<rparr>)))"

text \<open>
  \<open>shift_q F q idx side d\<close> adds \<open>d\<close> to entry \<open>idx\<close> of the quantities (side \<^verbatim>\<open>"y"\<close>) or to every
  other entry (side \<^verbatim>\<open>"n"\<close>). The sources spell it out at each use; the closure of \<open>payoutForSpend\<close>
  writes the same entries of its scratch array at every call, so its value depends on \<open>d\<close> only.
\<close>

definition shift_q :: "fpu \<Rightarrow> num list \<Rightarrow> int \<Rightarrow> bet_side \<Rightarrow> num \<Rightarrow> num list" where
  "shift_q F q idx side d =
     (case side of
        SideY \<Rightarrow> array_set q idx (js_add F (js_index q idx) d)
      | SideN \<Rightarrow> map (\<lambda>(i, qi). if int i = idx then qi else js_add F qi d) (enumerate 0 q))"

definition spend_gap :: "fpu \<Rightarrow> num list \<Rightarrow> int \<Rightarrow> num \<Rightarrow> num \<Rightarrow> bet_side \<Rightarrow> num \<Rightarrow> num" where
  "spend_gap F q idx a spend side d =
     js_sub F (js_sub F (cost F (shift_q F q idx side d) a) (cost F q a)) spend"

definition payoutForSpend ::
    "fpu \<Rightarrow> num list \<Rightarrow> int \<Rightarrow> num \<Rightarrow> num \<Rightarrow> bet_side \<Rightarrow> num js option" where
  "payoutForSpend F q idx a spend side =
     (case bindE (prices F q a) (\<lambda>p.
             case side of
               SideY \<Rightarrow> Inr (js_div F spend (js_index p idx))
             | SideN \<Rightarrow> bindE (reduce1 (js_add F) p) (\<lambda>tot.
                 Inr (js_div F spend (js_sub F tot (js_index p idx)))))
      of Inl e \<Rightarrow> Some (Inl e)
       | Inr hi \<Rightarrow> map_option Inr (bisect F spend hi (lit F (1 / 1000)) (spend_gap F q idx a spend side)))"

definition over_cap :: "num list \<Rightarrow> num \<Rightarrow> bool" where
  "over_cap ps cap = list_ex (\<lambda>p. js_gt p cap) ps"

definition possiblePayoutProbForSpend ::
    "fpu \<Rightarrow> 'd dlib \<Rightarrow> 'd market_view \<Rightarrow> int \<Rightarrow> 'd \<Rightarrow> bet_side \<Rightarrow> (bool \<times> 'd \<times> 'd) js option" where
  "possiblePayoutProbForSpend F D market outcomeId spend side =
     (let idx = findIndex (\<lambda>ob. o_id ob = outcomeId) (outcomes market)
      in if idx = -1 then Some (Inl (Thrown ''failed to find provided outcome id''))
         else
           let qNum = map (\<lambda>ob. toNumber D (quantity ob)) (outcomes market);
               alphaNum = toNumber D (alpha market);
               capPriceNum = toNumber D (capPrice market);
               spendNum = toNumber D spend
           in case payoutForSpend F qNum idx alphaNum spendNum side of
                None \<Rightarrow> None
              | Some (Inl e) \<Rightarrow> Some (Inl e)
              | Some (Inr payoutNum) \<Rightarrow>
                  Some (bindE (prices F (shift_q F qNum idx side payoutNum) alphaNum) (\<lambda>ps.
                    if over_cap ps capPriceNum then Inr (False, dOfInt D 0, dOfInt D 0)
                    else
                      let payoutRounded = truncatePrecision D (dNew D payoutNum) 2 ROUND_DOWN;
                          proportion = gainProportion D spend payoutRounded;
                          proportionRounded = truncatePrecision D proportion SCALE ROUND_UP
                      in Inr (True, payoutRounded, proportionRounded))))"

definition opposite :: "bet_side \<Rightarrow> bet_side" where
  "opposite s = (case s of SideY \<Rightarrow> SideN | SideN \<Rightarrow> SideY)"

definition possiblePayoutDeltaForCashout ::
    "fpu \<Rightarrow> 'd dlib \<Rightarrow> 'd market_view \<Rightarrow> 'd bet \<Rightarrow> (bool \<times> 'd \<times> 'd) js" where
  "possiblePayoutDeltaForCashout F D market bet =
     (let idx = findIndex (\<lambda>ob. o_id ob = bet_outcomeId bet) (outcomes market);
          qNum = map (\<lambda>ob. toNumber D (quantity ob)) (outcomes market);
          alphaNum = toNumber D (alpha market);
          capPriceNum = toNumber D (capPrice market);
          sharesBoughtNum = toNumber D (bet_payout bet);
          qHedgeNum = shift_q F qNum idx (opposite (bet_side bet)) sharesBoughtNum;
          baseCost = cost F qNum alphaNum;
          hedgeCost = cost F qHedgeNum alphaNum;
          deltaHedgeCost = js_sub F hedgeCost baseCost;
          gain = dNew D (js_sub F sharesBoughtNum deltaHedgeCost);
          gainRounded = truncatePrecision D gain 2 ROUND_DOWN;
          deltaProp = dMinus D decimal_conf (dDiv D decimal_conf gainRounded (pricePaid bet)) (dOfInt D 1);
          deltaPropRounded = truncatePrecision D deltaProp SCALE ROUND_UP
      in bindE (prices F qHedgeNum alphaNum) (\<lambda>pricesAfterHedge.
           Inr (\<not> over_cap pricesAfterHedge capPriceNum, deltaPropRounded, gainRounded)))"

end
