(* ===== verification/Schemas.thy ===== *)
theory Schemas
  imports Zod Messages LsLmsr "HOL-Library.Monad_Syntax"
begin

section \<open>The schemas\<close>

text \<open>
  The schemas of \<^verbatim>\<open>src/frontend/seer/src/lib/definitions.ts\<close> and \<^verbatim>\<open>src/frontend/seer/src/socket/messages.ts\<close>
  as values of the datatype of \<^verbatim>\<open>Zod\<close>, with the limits and messages of the sources. \<^verbatim>\<open>DecimalSchema\<close>
  converts with the constructor of the decimal library, which can fail on a string; \<open>decs\<close> is that
  library with its constructor on strings. \<^verbatim>\<open>MarketViewSchema\<close> validates an object, decodes it into
  the record of \<^verbatim>\<open>Definitions\<close> and computes the prices; an error of the price computation is thrown through
  the validation. Identifiers of outcomes, categories and resolutions are integers. A dash in the
  message for user names is written as a hyphen.
\<close>

record 'd decs =
  dec_lib :: "'d dlib"
  dec_of_string :: "string \<Rightarrow> 'd option"

subsection \<open>Definitions\<close>

definition to_decimal :: "'d decs \<Rightarrow> 'd jv \<Rightarrow> string + 'd jv" where
  "to_decimal X v =
     (case v of
        JDec d \<Rightarrow> Inr v
      | JNum x \<Rightarrow> Inr (JDec (dNew (dec_lib X) x))
      | JStr s \<Rightarrow> (case dec_of_string X s of Some d \<Rightarrow> Inr (JDec d) | None \<Rightarrow> Inl ''Invalid decimal input'')
      | _ \<Rightarrow> Inl ''Invalid decimal input'')"

definition DecimalSchema :: "'d decs \<Rightarrow> 'd schema" where
  "DecimalSchema X = ZTransform (ZUnion [ZString [Trim, MinLength 1 None], ZNumber [], ZDecimalInstance]) (to_decimal X)"

definition usernameSchema :: "'d schema" where
  "usernameSchema = ZString
     [MinLength 3 (Some ''Username must be at least 3 characters''),
      MaxLength 15 (Some ''Username must be at most 15 characters''),
      Alphanumeric (Some ''Username must be alphanumeric (A-Z, a-z, 0-9) only'')]"

definition emailSchema :: "'d schema" where
  "emailSchema = ZString [MinLength 1 (Some ''Email is required''), Email (Some ''Email is invalid'')]"

definition statusSchema :: "'d schema" where
  "statusSchema = ZEnum [''pending_email_verification'', ''activated'', ''credentials'']"

definition providerSchema :: "'d schema" where
  "providerSchema = ZOptional (ZEnum [''credentials'', ''google'', ''twitch''])"

definition passwordSchema :: "'d schema" where
  "passwordSchema = ZString
     [MinLength 8 (Some ''Password must be at least 8 characters''),
      MaxLength 49 (Some ''Password must be at most 49 characters'')]"

definition UserSchema :: "'d decs \<Rightarrow> 'd schema" where
  "UserSchema X = ZObject
     [(''id'', ZUuid), (''providerId'', providerSchema), (''hasPassword'', ZBoolean), (''email'', emailSchema),
      (''username'', usernameSchema), (''profileImageUrl'', ZOptional ZUrl), (''totalWagered'', DecimalSchema X),
      (''createdAt'', ZDate), (''status'', statusSchema)]"

definition UserProfileSchema :: "'d decs \<Rightarrow> 'd schema" where
  "UserProfileSchema X = ZObject
     [(''id'', ZUuid), (''username'', ZString []), (''profileImageKey'', ZOptional ZUrl),
      (''totalWagered'', DecimalSchema X), (''createdAt'', ZDate)]"

definition RegisterSchema :: "'d schema" where
  "RegisterSchema = ZObject [(''username'', usernameSchema), (''email'', emailSchema), (''password'', passwordSchema)]"

definition LoginSchema :: "'d schema" where
  "LoginSchema = ZObject
     [(''login'', ZUnion [emailSchema, usernameSchema]),
      (''password'', ZString [MinLength 1 (Some ''Password is required'')])]"

definition ProfileCompletionSchema :: "'d schema" where
  "ProfileCompletionSchema = ZObject [(''username'', usernameSchema)]"

definition SessionSchema :: "'d schema" where
  "SessionSchema = ZObject
     [(''id'', ZUuid), (''lastUsedAt'', ZDate), (''os'', ZOptional (ZString [])), (''browser'', ZOptional (ZString [])),
      (''device'', ZOptional (ZString [])), (''ip'', ZOptional (ZString [])), (''country'', ZOptional (ZString [])),
      (''city'', ZOptional (ZString [])), (''active'', ZBoolean), (''current'', ZBoolean)]"

definition SessionsSchema :: "'d schema" where
  "SessionsSchema = ZArray SessionSchema"

definition change_fields :: "(string \<times> 'd schema) list" where
  "change_fields =
     [(''currentPassword'', ZString [MinLength 1 (Some ''Current Password is required'')]),
      (''newPassword'', ZString
         [MinLength 8 (Some ''Password must be at least 8 characters''),
          MaxLength 49 (Some ''Password must be at most 49 characters''),
          MinLength 8 (Some ''New password must be at least 8 characters''),
          MaxLength 49 (Some ''New password must be at most 49 characters'')]),
      (''confirmNewPassword'', ZString [MinLength 1 (Some ''Please confirm your new password'')])]"

definition ChangePasswordSchema :: "'d schema" where
  "ChangePasswordSchema = ZRefine (ZObject change_fields)
     (\<lambda>data. obj_get ''newPassword'' data = obj_get ''confirmNewPassword'' data)
     ''Passwords don't match'' [''confirmNewPassword'']"

definition set_fields :: "(string \<times> 'd schema) list" where
  "set_fields =
     [(''password'', passwordSchema),
      (''confirmPassword'', ZString [MinLength 1 (Some ''Please confirm your password'')])]"

definition SetPasswordSchema :: "'d schema" where
  "SetPasswordSchema = ZRefine (ZObject set_fields)
     (\<lambda>data. obj_get ''password'' data = obj_get ''confirmPassword'' data)
     ''Passwords don't match'' [''confirmPassword'']"

definition UserPreferencesSchema :: "'d schema" where
  "UserPreferencesSchema = ZObject [(''hidden'', ZBoolean), (''receiveMarketingEmails'', ZBoolean)]"

definition ChangePasswordPayloadSchema :: "'d schema" where
  "ChangePasswordPayloadSchema = ZObject (filter (\<lambda>(k, s). k \<noteq> ''confirmNewPassword'') change_fields)"

definition SetPasswordPayloadSchema :: "'d schema" where
  "SetPasswordPayloadSchema = ZObject (filter (\<lambda>(k, s). k \<noteq> ''confirmPassword'') set_fields)"

definition CategorySchema :: "'d schema" where
  "CategorySchema = ZObject
     [(''id'', ZNumber []), (''slug'', ZString []), (''label'', ZString []), (''iconUrl'', ZString [])]"

definition MarketSort :: "'d schema" where
  "MarketSort = ZEnum [''trending'', ''volume'', ''newest'', ''endingSoon'']"

definition MarketStatus :: "'d schema" where
  "MarketStatus = ZEnum [''active'', ''resolved'', ''pending'', ''paused'']"

definition jint :: "int \<Rightarrow> 'd jv" where
  "jint k = JNum (Fin (of_int k))"

definition MarketSearchSchema :: "'d schema" where
  "MarketSearchSchema = ZObject
     [(''query'', ZOptional (ZString [MinLength 3 None, MaxLength 50 None])),
      (''categorySlug'', ZOptional (ZString [MinLength 1 None, MaxLength 20 None])),
      (''status'', ZOptional MarketStatus),
      (''sort'', ZDefault MarketSort (JStr ''trending'')),
      (''pageSize'', ZDefault (ZNumber [IntCheck, Minimum 3 None, Maximum 20 None]) (jint 20)),
      (''page'', ZDefault (ZNumber [IntCheck, Minimum 1 None]) (jint 1))]"

definition PriceChartDataPointSchema :: "'d decs \<Rightarrow> 'd schema" where
  "PriceChartDataPointSchema X = ZObject
     [(''date'', ZDate), (''timestamp'', ZNumber [IntCheck]), (''price'', DecimalSchema X)]"

definition TimeframeSchema :: "'d schema" where
  "TimeframeSchema = ZEnum [''24h'', ''7d'', ''30d'', ''all'']"

definition PriceChartSchema :: "'d decs \<Rightarrow> 'd schema" where
  "PriceChartSchema X = ZObject [(''timeframe'', TimeframeSchema), (''prices'', ZArray (PriceChartDataPointSchema X))]"

definition zero :: "'d decs \<Rightarrow> 'd jv" where
  "zero X = JDec (dOfInt (dec_lib X) 0)"

definition OutcomeSchema :: "'d decs \<Rightarrow> 'd schema" where
  "OutcomeSchema X = ZObject
     [(''id'', ZNumber []), (''name'', ZString []), (''quantity'', DecimalSchema X), (''position'', ZNumber [IntCheck]),
      (''priceYes'', ZDefault (DecimalSchema X) (zero X)), (''priceNo'', ZDefault (DecimalSchema X) (zero X)),
      (''priceYesNormalized'', ZDefault (DecimalSchema X) (zero X)),
      (''priceNoNormalized'', ZDefault (DecimalSchema X) (zero X)),
      (''priceCharts'', ZOptional (ZArray (PriceChartSchema X)))]"

definition MarketResolutionSchema :: "'d schema" where
  "MarketResolutionSchema = ZObject
     [(''id'', ZOptional (ZNumber [])), (''marketId'', ZUuid), (''winningOutcomeId'', ZNumber [IntCheck]),
      (''createdAt'', ZDate)]"

text \<open>The object of \<^verbatim>\<open>MarketViewSchema\<close>, before its transformation.\<close>

definition MarketViewObject :: "'d decs \<Rightarrow> 'd schema" where
  "MarketViewObject X = ZObject
     [(''id'', ZUuid), (''name'', ZString []), (''description'', ZString []),
      (''isBinary'', ZDefault ZBoolean (JBool True)), (''imgKey'', ZOptional (ZString [])), (''slug'', ZString []),
      (''closeTime'', ZOptional ZDate), (''outcomeSort'', ZEnum [''price'', ''position'']),
      (''alpha'', DecimalSchema X), (''capPrice'', DecimalSchema X), (''totalVolume'', DecimalSchema X),
      (''categories'', ZArray CategorySchema), (''outcomes'', ZArray (OutcomeSchema X)), (''status'', MarketStatus),
      (''resolution'', ZOptional MarketResolutionSchema), (''isActive'', ZOptional ZFunction),
      (''version'', ZDefault (ZNumber [IntCheck]) (jint 0))]"

definition MetadataSchema :: "'d schema" where
  "MetadataSchema = ZObject
     [(''currentPage'', ZNumber [IntCheck, Minimum 1 None]), (''pageSize'', ZNumber [IntCheck, Minimum 1 None]),
      (''firstPage'', ZNumber [IntCheck, Minimum 1 None]), (''lastPage'', ZNumber [IntCheck, Minimum 1 None]),
      (''totalRecords'', ZNumber [IntCheck, Minimum 0 None])]"

definition CurrencySchema :: "'d schema" where
  "CurrencySchema = ZEnum [''USDT'']"

definition BalanceSchema :: "'d decs \<Rightarrow> 'd schema" where
  "BalanceSchema X = ZObject
     [(''balance'', DecimalSchema X), (''currency'', CurrencySchema), (''version'', ZNumber [IntCheck])]"

definition BetSideSchema :: "'d schema" where
  "BetSideSchema = ZEnum [''y'', ''n'']"

definition PlaceBetSchema :: "'d decs \<Rightarrow> 'd schema" where
  "PlaceBetSchema X = ZObject
     [(''betAmount'', DecimalSchema X), (''minWantedGain'', DecimalSchema X), (''marketId'', ZUuid),
      (''outcomeId'', ZNumber [IntCheck]), (''side'', BetSideSchema), (''currency'', CurrencySchema),
      (''idempotencyKey'', ZString [MinLength 1 None, MaxLength 36 None])]"

definition CashoutBetSchema :: "'d decs \<Rightarrow> 'd schema" where
  "CashoutBetSchema X = ZObject
     [(''betId'', ZUuid), (''minWantedGain'', DecimalSchema X),
      (''idempotencyKey'', ZString [MinLength 1 None, MaxLength 36 None])]"

definition sortOptions :: "(string \<times> string) list" where
  "sortOptions = [(''trending'', ''Trending''), (''volume'', ''Volume''), (''newest'', ''Newest''),
     (''endingSoon'', ''Ending Soon'')]"

definition statusOptions :: "(string \<times> string) list" where
  "statusOptions = [(''active'', ''Active''), (''pending'', ''Pending''), (''resolved'', ''Resolved'')]"

definition QuoteFormSchema :: "'d schema" where
  "QuoteFormSchema = ZObject
     [(''wagerUsd'', ZNumber [Minimum 1 (Some ''Wager must be at least $1''),
                              Maximum 10000 (Some ''Wager must be at most $10,000'')])]"

definition BetStatusSchema :: "'d schema" where
  "BetStatusSchema = ZEnum [''active'', ''won'', ''lost'', ''cashedOut'']"

definition BetSchema :: "'d decs \<Rightarrow> 'd schema" where
  "BetSchema X = ZObject
     [(''id'', ZUuid), (''status'', BetStatusSchema), (''pricePaid'', DecimalSchema X), (''payout'', DecimalSchema X),
      (''cashedOut'', ZOptional (DecimalSchema X)), (''avgPrice'', DecimalSchema X), (''marketId'', ZUuid),
      (''marketName'', ZString []), (''marketImgKey'', ZOptional (ZString [])), (''outcomeId'', ZNumber [IntCheck]),
      (''side'', BetSideSchema), (''outcomeName'', ZString []), (''placedAt'', ZDate)]"

definition UserBetsResSchema :: "'d decs \<Rightarrow> 'd schema" where
  "UserBetsResSchema X = ZObject [(''bets'', ZArray (BetSchema X)), (''metadata'', MetadataSchema)]"

definition UserBetSearchSchema :: "'d schema" where
  "UserBetSearchSchema = ZObject
     [(''marketId'', ZOptional ZUuid), (''status'', ZOptional (ZUnion [BetStatusSchema, ZLiteral ''resolved''])),
      (''pageSize'', ZDefault (ZNumber [IntCheck, Minimum 4 None, Maximum 20 None]) (jint 20)),
      (''page'', ZDefault (ZNumber [IntCheck, Minimum 1 None]) (jint 1)),
      (''sort'', ZDefault (ZEnum [''placedAt'', ''wager'', ''payout'', ''event'']) (JStr ''placedAt'')),
      (''sortDir'', ZDefault (ZEnum [''asc'', ''desc'']) (JStr ''desc''))]"

definition CommentSchema :: "'d decs \<Rightarrow> 'd schema" where
  "CommentSchema X = ZObject
     [(''id'', ZNumber [IntCheck]), (''user'', UserProfileSchema X), (''marketId'', ZUuid),
      (''nbReplies'', ZNumber [IntCheck]), (''nbLikes'', ZNumber [IntCheck]), (''isLiked'', ZBoolean),
      (''isReported'', ZBoolean), (''content'', ZString []), (''createdAt'', ZDate),
      (''parentId'', ZOptional (ZNumber [IntCheck])), (''depth'', ZNumber [])]"

definition CommentSearchSchema :: "'d schema" where
  "CommentSearchSchema = ZObject
     [(''marketId'', ZUuid), (''parentId'', ZOptional (ZNumber [])),
      (''pageSize'', ZDefault (ZNumber [IntCheck, Minimum 4 None, Maximum 20 None]) (jint 20)),
      (''page'', ZDefault (ZNumber [IntCheck, Minimum 1 None]) (jint 1))]"

definition PostCommentSchema :: "'d schema" where
  "PostCommentSchema = ZObject
     [(''marketId'', ZUuid), (''content'', ZString [MinLength 3 None, MaxLength 500 None]),
      (''parentId'', ZOptional (ZNumber []))]"

definition InteractCommentSchema :: "'d schema" where
  "InteractCommentSchema = ZObject [(''commentId'', ZNumber [])]"

subsubsection \<open>Messages of the socket\<close>

definition WsMessageSchema :: "'d schema" where
  "WsMessageSchema = ZObject [(''type'', ZString [MaxLength 100 None]), (''payload'', ZOptional ZAny)]"

definition BalanceUpdateSchema :: "'d decs \<Rightarrow> 'd schema" where
  "BalanceUpdateSchema X = ZObject
     [(''currency'', ZString []), (''balance'', DecimalSchema X), (''version'', ZNumber [IntCheck])]"

definition OutcomeUpdateSchema :: "'d decs \<Rightarrow> 'd schema" where
  "OutcomeUpdateSchema X = ZObject [(''id'', ZNumber [IntCheck]), (''quantity'', DecimalSchema X)]"

definition MarketUpdateSchema :: "'d decs \<Rightarrow> 'd schema" where
  "MarketUpdateSchema X = ZObject
     [(''marketID'', ZUuid), (''marketVersion'', ZNumber [IntCheck]), (''totalVolume'', DecimalSchema X),
      (''outcomes'', ZArray (OutcomeUpdateSchema X))]"

definition WsUserSchema :: "'d schema" where
  "WsUserSchema = ZObject
     [(''id'', ZUuid), (''username'', ZString []), (''profileImageKey'', ZOptional (ZString []))]"

definition ChatMessageSchema :: "'d schema" where
  "ChatMessageSchema = ZObject
     [(''id'', ZUuid), (''chatSlug'', ZString []), (''content'', ZString []), (''createdAt'', ZDate),
      (''type'', ZEnum [''user'', ''system'']), (''user'', WsUserSchema)]"

definition BetUpdateSchema :: "'d decs \<Rightarrow> 'd schema" where
  "BetUpdateSchema X = ZObject
     [(''id'', ZUuid), (''marketID'', ZUuid), (''marketName'', ZString []), (''marketSlug'', ZString []),
      (''outcomeId'', ZNumber []), (''outcomeName'', ZString []), (''wager'', DecimalSchema X),
      (''payout'', DecimalSchema X), (''avgPrice'', DecimalSchema X), (''placedAt'', ZDate),
      (''user'', ZOptional WsUserSchema)]"

definition OnlineUpdateSchema :: "'d schema" where
  "OnlineUpdateSchema = ZObject [(''usersOnlineCount'', ZNumber [IntCheck])]"

definition EmptyPayloadSchema :: "'d schema" where
  "EmptyPayloadSchema = ZNullable (ZObject [])"

definition WSErrorSchema :: "'d schema" where
  "WSErrorSchema = ZObject [(''error'', ZString [])]"

subsubsection \<open>From values to records\<close>

fun as_str :: "'d jv \<Rightarrow> string option" where
  "as_str (JStr s) = Some s"
| "as_str _ = None"

fun as_int :: "'d jv \<Rightarrow> int option" where
  "as_int (JNum (Fin r)) = (if r = of_int \<lfloor>r\<rfloor> then Some \<lfloor>r\<rfloor> else None)"
| "as_int _ = None"

fun as_bool :: "'d jv \<Rightarrow> bool option" where
  "as_bool (JBool b) = Some b"
| "as_bool _ = None"

fun as_date :: "'d jv \<Rightarrow> int option" where
  "as_date (JDate t) = Some t"
| "as_date _ = None"

fun as_dec :: "'d jv \<Rightarrow> 'd option" where
  "as_dec (JDec d) = Some d"
| "as_dec _ = None"

fun as_arr :: "('d jv \<Rightarrow> 'a option) \<Rightarrow> 'd jv \<Rightarrow> 'a list option" where
  "as_arr f (JArr xs) = those (map f xs)"
| "as_arr f _ = None"

definition as_opt :: "('d jv \<Rightarrow> 'a option) \<Rightarrow> 'd jv \<Rightarrow> 'a option option" where
  "as_opt f v = (if v = JUndef then Some None else map_option Some (f v))"

definition as_enum :: "(string \<times> 'a) list \<Rightarrow> 'd jv \<Rightarrow> 'a option" where
  "as_enum tbl v = as_str v \<bind> map_of tbl"

definition decode_point :: "'d jv \<Rightarrow> 'd price_point option" where
  "decode_point v = do {
     d \<leftarrow> as_date (obj_get ''date'' v);
     t \<leftarrow> as_int (obj_get ''timestamp'' v);
     p \<leftarrow> as_dec (obj_get ''price'' v);
     Some \<lparr>pp_date = d, pp_timestamp = t, pp_price = p\<rparr> }"

definition decode_chart :: "'d jv \<Rightarrow> 'd price_chart option" where
  "decode_chart v = do {
     tf \<leftarrow> as_enum [(''24h'', TF_24h), (''7d'', TF_7d), (''30d'', TF_30d), (''all'', TF_all)] (obj_get ''timeframe'' v);
     ps \<leftarrow> as_arr decode_point (obj_get ''prices'' v);
     Some \<lparr>chart_timeframe = tf, chart_prices = ps\<rparr> }"

definition decode_outcome :: "'d jv \<Rightarrow> 'd outcome option" where
  "decode_outcome v = do {
     i \<leftarrow> as_int (obj_get ''id'' v);
     n \<leftarrow> as_str (obj_get ''name'' v);
     q \<leftarrow> as_dec (obj_get ''quantity'' v);
     pos \<leftarrow> as_int (obj_get ''position'' v);
     y \<leftarrow> as_dec (obj_get ''priceYes'' v);
     no \<leftarrow> as_dec (obj_get ''priceNo'' v);
     yn \<leftarrow> as_dec (obj_get ''priceYesNormalized'' v);
     nn \<leftarrow> as_dec (obj_get ''priceNoNormalized'' v);
     cs \<leftarrow> as_opt (as_arr decode_chart) (obj_get ''priceCharts'' v);
     Some \<lparr>o_id = i, o_name = n, quantity = q, position = pos, priceYes = y, priceNo = no,
           priceYesNormalized = yn, priceNoNormalized = nn, priceCharts = cs\<rparr> }"

definition decode_category :: "'d jv \<Rightarrow> category option" where
  "decode_category v = do {
     i \<leftarrow> as_int (obj_get ''id'' v);
     s \<leftarrow> as_str (obj_get ''slug'' v);
     l \<leftarrow> as_str (obj_get ''label'' v);
     u \<leftarrow> as_str (obj_get ''iconUrl'' v);
     Some \<lparr>cat_id = i, cat_slug = s, cat_label = l, cat_iconUrl = u\<rparr> }"

definition decode_resolution :: "'d jv \<Rightarrow> market_resolution option" where
  "decode_resolution v = do {
     i \<leftarrow> as_opt as_int (obj_get ''id'' v);
     m \<leftarrow> as_str (obj_get ''marketId'' v);
     w \<leftarrow> as_int (obj_get ''winningOutcomeId'' v);
     t \<leftarrow> as_date (obj_get ''createdAt'' v);
     Some \<lparr>res_id = i, res_marketId = m, winningOutcomeId = w, res_createdAt = t\<rparr> }"

definition decode_market :: "'d jv \<Rightarrow> 'd market_view option" where
  "decode_market v = do {
     i \<leftarrow> as_str (obj_get ''id'' v);
     n \<leftarrow> as_str (obj_get ''name'' v);
     ds \<leftarrow> as_str (obj_get ''description'' v);
     b \<leftarrow> as_bool (obj_get ''isBinary'' v);
     img \<leftarrow> as_opt as_str (obj_get ''imgKey'' v);
     sl \<leftarrow> as_str (obj_get ''slug'' v);
     ct \<leftarrow> as_opt as_date (obj_get ''closeTime'' v);
     os \<leftarrow> as_enum [(''price'', SortPrice), (''position'', SortPosition)] (obj_get ''outcomeSort'' v);
     a \<leftarrow> as_dec (obj_get ''alpha'' v);
     cap \<leftarrow> as_dec (obj_get ''capPrice'' v);
     vol \<leftarrow> as_dec (obj_get ''totalVolume'' v);
     cats \<leftarrow> as_arr decode_category (obj_get ''categories'' v);
     outs \<leftarrow> as_arr decode_outcome (obj_get ''outcomes'' v);
     st \<leftarrow> as_enum [(''active'', Active), (''resolved'', Resolved), (''pending'', Pending), (''paused'', Paused)]
            (obj_get ''status'' v);
     res \<leftarrow> as_opt decode_resolution (obj_get ''resolution'' v);
     ver \<leftarrow> as_int (obj_get ''version'' v);
     Some \<lparr>m_id = i, m_name = n, m_description = ds, isBinary = b, imgKey = img, m_slug = sl, closeTime = ct,
           outcomeSort = os, alpha = a, capPrice = cap, totalVolume = vol, categories = cats, outcomes = outs,
           m_status = st, resolution = res, m_version = ver\<rparr> }"

text \<open>The transformation: an exception of \<^verbatim>\<open>pricesForMarket\<close> passes through \<^verbatim>\<open>safeParse\<close>.\<close>

definition market_transform :: "fpu \<Rightarrow> 'd decs \<Rightarrow> 'd market_view \<Rightarrow> 'd market_view js" where
  "market_transform F X m = pricesForMarket F (dec_lib X) (m\<lparr>isBinary := (length (outcomes m) = 2)\<rparr>)"

definition MarketViewSchema ::
    "fpu \<Rightarrow> 'd decs \<Rightarrow> ('d schema \<Rightarrow> 'd jv \<Rightarrow> 'd zresult) \<Rightarrow> 'd jv \<Rightarrow> (issue list + 'd market_view) js" where
  "MarketViewSchema F X safeParse v =
     (case safeParse (MarketViewObject X) v of
        Inl is \<Rightarrow> Inr (Inl is)
      | Inr r \<Rightarrow> (case decode_market r of
          None \<Rightarrow> Inr (Inl [([], None)])
        | Some m \<Rightarrow> bindE (market_transform F X m) (\<lambda>m'. Inr (Inr m'))))"

end
