(* ===== verification/MarketPrices.thy ===== *)
theory MarketPrices
  imports LsLmsr
begin

section \<open>What pricing a market keeps\<close>

text \<open>
  Setting the prices of a market returns whenever it has outcomes, and it changes nothing but prices and the order
  of the outcomes: identifiers with their quantities, the volume and the version stay. Validation and live
  updates both rest on this.
\<close>

subsection \<open>Definitions\<close>

text \<open>What an outcome is worth trading on: its identifier and its quantity.\<close>

definition holdings :: "'d market_view \<Rightarrow> (int \<times> 'd) multiset" where
  "holdings m = image_mset (\<lambda>ob. (o_id ob, quantity ob)) (mset (outcomes m))"

definition ids :: "'d market_view \<Rightarrow> int multiset" where
  "ids m = image_mset o_id (mset (outcomes m))"

lemma prices_total: "q \<noteq> [] \<Longrightarrow> \<exists>p. prices F q a = Inr p"
  by (cases q) (simp_all add: prices_def softmaxB_def Let_def)

lemma pricesForMarket_total: "outcomes m \<noteq> [] \<Longrightarrow> \<exists>m'. pricesForMarket F D m = Inr m'"
  using prices_total [of "map (toNumber D) (map quantity (outcomes m))" F "toNumber D (alpha m)"]
  by (auto simp: pricesForMarket_def Let_def)

lemma map_enumerate_snd: "map (\<lambda>x. f (snd x)) (enumerate n xs) = map f xs"
  by (induction xs arbitrary: n) simp_all

lemma priced_ids:
  "map (\<lambda>ob. (o_id ob, quantity ob)) (normalize_prices D (set_prices D p os)) =
   map (\<lambda>ob. (o_id ob, quantity ob)) os"
  using map_enumerate_snd [of "\<lambda>ob. (o_id ob, quantity ob)" 0 os]
  by (simp add: normalize_prices_def set_prices_def Let_def comp_def case_prod_unfold)

lemma pricesForMarket_keeps:
  assumes "pricesForMarket F D m = Inr m'"
  shows "holdings m' = holdings m" and "totalVolume m' = totalVolume m" and "m_version m' = m_version m"
    and "outcomes m' = [] \<longleftrightarrow> outcomes m = []" and "length (outcomes m') = length (outcomes m)"
    and "isBinary m' = isBinary m"
proof -
  obtain p where m': "m' = m\<lparr>outcomes := (let os = normalize_prices D (set_prices D p (outcomes m))
      in if outcomeSort m = SortPrice then sort_by (price_after D) os else os)\<rparr>"
    using assms by (auto simp: pricesForMarket_def Let_def bindE_eq_Inr)
  let ?os = "normalize_prices D (set_prices D p (outcomes m))"
  have ms: "mset (outcomes m') = mset ?os" by (simp add: m' Let_def)
  have "image_mset (\<lambda>ob. (o_id ob, quantity ob)) (mset ?os) = image_mset (\<lambda>ob. (o_id ob, quantity ob)) (mset (outcomes m))"
    unfolding mset_map [symmetric] priced_ids ..
  with ms show h: "holdings m' = holdings m" by (simp add: holdings_def)
  show "totalVolume m' = totalVolume m" "m_version m' = m_version m" "isBinary m' = isBinary m"
    by (simp_all add: m')
  from h have "size (holdings m') = size (holdings m)" by simp
  then show "length (outcomes m') = length (outcomes m)" by (simp add: holdings_def)
  from h have "holdings m' = {#} \<longleftrightarrow> holdings m = {#}" by simp
  then show "outcomes m' = [] \<longleftrightarrow> outcomes m = []" by (simp add: holdings_def)
qed

lemma holdings_ids: "ids m = image_mset fst (holdings m)"
  by (simp add: ids_def holdings_def image_mset.compositionality comp_def)

end
