(* ===== verification/Validation.thy ===== *)
theory Validation
  imports Schemas MarketPrices
begin

section \<open>What validated data looks like\<close>

text \<open>
  Consequences of the schemas for the rest of the program, proved in the locale \<open>zod\<close> and stated for
  every implementation of it: a field of a validated object is a validated value, the account forms
  accept what their limits say, searches get their defaults and stay within their page bounds, and a
  validated market decodes into the record that the market maker works on.
\<close>

abbreviation defined :: "'a option \<Rightarrow> bool" where
  "defined m \<equiv> \<exists>y. m = Some y"

text \<open>Identifiers that are integers, where a schema allows any number.\<close>

definition int_id :: "'d jv \<Rightarrow> bool" where
  "int_id w \<longleftrightarrow> as_int (obj_get ''id'' w) \<noteq> None"

definition int_ids :: "'d jv \<Rightarrow> bool" where
  "int_ids r \<longleftrightarrow>
     (case obj_get ''outcomes'' r of JArr os \<Rightarrow> list_all int_id os | _ \<Rightarrow> True) \<and>
     (case obj_get ''categories'' r of JArr cs \<Rightarrow> list_all int_id cs | _ \<Rightarrow> True) \<and>
     (obj_get ''id'' (obj_get ''resolution'' r) = JUndef \<or> int_id (obj_get ''resolution'' r))"

subsection \<open>Fields\<close>

lemma fields_get:
  assumes "distinct (map fst fs)" and "length xs = length fs" and "i < length fs"
  shows "obj_get (fst (fs ! i)) (parsed_fields fs xs) = xs ! i"
proof -
  let ?zs = "filter (\<lambda>(k, x). x \<noteq> JUndef) (zip (map fst fs) xs)"
  have d: "distinct (map fst (zip (map fst fs) xs))" using assms by simp
  have dz: "distinct (map fst ?zs)" by (rule distinct_map_filter [OF d])
  have mem: "(fst (fs ! i), xs ! i) \<in> set (zip (map fst fs) xs)"
    using assms by (auto simp: in_set_zip intro!: exI [of _ i])
  show ?thesis
  proof (cases "xs ! i = JUndef")
    case True
    have "x = xs ! i" if "(fst (fs ! i), x) \<in> set (zip (map fst fs) xs)" for x
      using d mem that by (metis map_of_eq_Some_iff option.inject)
    then have "map_of ?zs (fst (fs ! i)) = None"
      using True by (fastforce simp: map_of_eq_None_iff)
    with True show ?thesis by (simp add: obj_get_def parsed_fields_def)
  next
    case False
    with mem have "(fst (fs ! i), xs ! i) \<in> set ?zs" by simp
    then have "map_of ?zs (fst (fs ! i)) = Some (xs ! i)" using dz by simp
    then show ?thesis by (simp add: obj_get_def parsed_fields_def)
  qed
qed

lemma absent_get: "k \<notin> fst ` set fs \<Longrightarrow> obj_get k (parsed_fields fs xs) = JUndef"
proof -
  assume "k \<notin> fst ` set fs"
  then have "k \<notin> fst ` set (zip (map fst fs) xs)" by (auto dest: set_zip_leftD)
  then have "map_of (filter (\<lambda>(k, x). x \<noteq> JUndef) (zip (map fst fs) xs)) k = None"
    by (fastforce simp: map_of_eq_None_iff)
  then show ?thesis by (simp add: obj_get_def parsed_fields_def)
qed

context zod
begin

lemma field_ok:
  assumes "safeParse (ZObject fs) v = Inr r" and "distinct (map fst fs)" and "(k, s) \<in> set fs"
  shows "safeParse s (obj_get k v) = Inr (obj_get k r)"
proof -
  obtain xs where xs: "r = parsed_fields fs xs" "list_all2 (\<lambda>(k, s) x. safeParse s (obj_get k v) = Inr x) fs xs"
    using assms(1) by (auto simp: object_ok)
  obtain i where i: "i < length fs" "fs ! i = (k, s)" using assms(3) by (auto simp: in_set_conv_nth)
  have "length xs = length fs" using xs(2) by (simp add: list_all2_lengthD)
  with fields_get [OF assms(2) _ i(1), of xs] xs(1) i(2) have "obj_get k r = xs ! i" by simp
  with list_all2_nthD [OF xs(2) i(1)] i(2) show ?thesis by simp
qed

lemma fields_ok:
  "safeParse (ZObject fs) v = Inr r \<Longrightarrow> distinct (map fst fs) \<Longrightarrow>
   list_all (\<lambda>(k, s). safeParse s (obj_get k v) = Inr (obj_get k r)) fs"
  using field_ok by (force simp: list_all_iff)

lemma object_type: "safeParse (ZObject fs) v = Inr r \<Longrightarrow> \<exists>kvs. v = JObj kvs"
  by (auto simp: object_ok)

lemma str_type: "safeParse (ZString cs) v = Inr r \<Longrightarrow> defined (as_str r)"
  and uuid_type: "safeParse ZUuid v = Inr r \<Longrightarrow> defined (as_str r)"
  and bool_type: "safeParse ZBoolean v = Inr r \<Longrightarrow> defined (as_bool r)"
  and date_type: "safeParse ZDate v = Inr r \<Longrightarrow> defined (as_date r)"
  and int_type: "safeParse (ZNumber (IntCheck # ns)) v = Inr r \<Longrightarrow> defined (as_int r)"
  by (auto simp: ok_iff)

lemma enum_type: "safeParse (ZEnum vs) v = Inr r \<Longrightarrow> set vs \<subseteq> fst ` set tbl \<Longrightarrow> defined (as_enum tbl r)"
  by (auto simp: enum_ok as_enum_def dest!: subsetD intro: weak_map_of_SomeI)

lemma dec_type: "safeParse (DecimalSchema X) v = Inr r \<Longrightarrow> defined (as_dec r)"
proof -
  have "to_decimal X x = Inr r \<Longrightarrow> defined (as_dec r)" for x
    by (cases x) (auto simp: to_decimal_def split: option.splits)
  then show "safeParse (DecimalSchema X) v = Inr r \<Longrightarrow> defined (as_dec r)"
    by (auto simp: DecimalSchema_def transform_ok)
qed

lemma default_type:
  "safeParse (ZDefault s d) v = Inr r \<Longrightarrow> (\<And>w. safeParse s w = Inr r \<Longrightarrow> defined (f r)) \<Longrightarrow> defined (f d) \<Longrightarrow> defined (f r)"
  by (auto simp: default_ok split: if_splits)

lemma opt_type:
  "safeParse (ZOptional s) v = Inr r \<Longrightarrow> (\<And>w. safeParse s w = Inr r \<Longrightarrow> defined (f r)) \<Longrightarrow> defined (as_opt f r)"
  by (auto simp: optional_ok as_opt_def split: if_splits)

lemma those_None: "defined (those (map f xs)) \<longleftrightarrow> (\<forall>x\<in>set xs. defined (f x))"
  by (induction xs) (auto split: option.splits)

lemma arr_type:
  assumes "safeParse (ZArray s) v = Inr r" and "\<And>w y. safeParse s w = Inr y \<Longrightarrow> P y \<Longrightarrow> defined (f y)"
    and "\<And>ys. r = JArr ys \<Longrightarrow> list_all P ys"
  shows "defined (as_arr f r)"
proof -
  obtain xs ys where r: "r = JArr ys" "list_all2 (\<lambda>x y. safeParse s x = Inr y) xs ys"
    using assms(1) by (auto simp: array_ok)
  have "defined (f y)" if y: "y \<in> set ys" for y
  proof -
    obtain i where i: "i < length ys" "ys ! i = y" using y by (auto simp: in_set_conv_nth)
    from list_all2_nthD2 [OF r(2) i(1)] i(2) have "safeParse s (xs ! i) = Inr y" by simp
    then show ?thesis by (rule assms(2)) (use assms(3) [OF r(1)] y in \<open>auto simp: list_all_iff\<close>)
  qed
  then show ?thesis using r(1) by (simp add: those_None)
qed

lemmas field_types = str_type uuid_type bool_type date_type int_type dec_type

lemma point_type: "safeParse (PriceChartDataPointSchema X) v = Inr r \<Longrightarrow> defined (decode_point r)"
proof -
  assume "safeParse (PriceChartDataPointSchema X) v = Inr r"
  from fields_ok [OF this [unfolded PriceChartDataPointSchema_def]] show ?thesis
    by (auto simp: decode_point_def dest!: field_types)
qed

lemma chart_type: "safeParse (PriceChartSchema X) v = Inr r \<Longrightarrow> defined (decode_chart r)"
proof -
  assume "safeParse (PriceChartSchema X) v = Inr r"
  note f = fields_ok [OF this [unfolded PriceChartSchema_def], simplified]
  have "defined (as_enum [(''24h'', TF_24h), (''7d'', TF_7d), (''30d'', TF_30d), (''all'', TF_all)] (obj_get ''timeframe'' r))"
    by (rule enum_type [OF f [THEN conjunct1, unfolded TimeframeSchema_def]]) auto
  moreover have "defined (as_arr decode_point (obj_get ''prices'' r))"
    by (rule arr_type [OF f [THEN conjunct2], where P = "\<lambda>_. True"]) (auto intro: point_type simp: list_all_iff)
  ultimately show ?thesis by (auto simp: decode_chart_def)
qed

lemma price_default_type:
  "safeParse (ZDefault (DecimalSchema X) (zero X)) v = Inr r \<Longrightarrow> defined (as_dec r)"
  by (auto simp: default_ok zero_def split: if_splits dest: dec_type)

lemma outcome_type:
  assumes "safeParse (OutcomeSchema X) v = Inr r" and "int_id r"
  shows "defined (decode_outcome r)"
proof -
  note f = fields_ok [OF assms(1) [unfolded OutcomeSchema_def], simplified]
  have "defined (as_opt (as_arr decode_chart) (obj_get ''priceCharts'' r))"
  proof (rule opt_type)
    show "safeParse (ZOptional (ZArray (PriceChartSchema X))) (obj_get ''priceCharts'' v) = Inr (obj_get ''priceCharts'' r)"
      using f by blast
    show "defined (as_arr decode_chart (obj_get ''priceCharts'' r))"
      if "safeParse (ZArray (PriceChartSchema X)) w = Inr (obj_get ''priceCharts'' r)" for w
      by (rule arr_type [OF that, where P = "\<lambda>_. True"]) (auto intro: chart_type simp: list_all_iff)
  qed
  with f assms(2) show ?thesis
    by (auto simp: decode_outcome_def int_id_def dest!: field_types price_default_type)
qed

lemma category_type:
  assumes "safeParse CategorySchema v = Inr r" and "int_id r"
  shows "defined (decode_category r)"
  using fields_ok [OF assms(1) [unfolded CategorySchema_def]] assms(2)
  by (auto simp: decode_category_def int_id_def dest!: field_types)

lemma resolution_type:
  assumes "safeParse MarketResolutionSchema v = Inr r" and "obj_get ''id'' r = JUndef \<or> int_id r"
  shows "defined (decode_resolution r)"
  using fields_ok [OF assms(1) [unfolded MarketResolutionSchema_def]] assms(2)
  by (auto simp: decode_resolution_def int_id_def as_opt_def dest!: field_types)

lemma market_type:
  assumes "safeParse (MarketViewObject X) v = Inr r" and "int_ids r"
  shows "defined (decode_market r)"
proof -
  note f = fields_ok [OF assms(1) [unfolded MarketViewObject_def], simplified, unfolded MarketStatus_def]
  have "defined (as_arr decode_outcome (obj_get ''outcomes'' r))"
    using f by (intro arr_type [of "OutcomeSchema X" "obj_get ''outcomes'' v" _ int_id])
      (use assms(2) in \<open>auto intro: outcome_type simp: int_ids_def\<close>)
  moreover have "defined (as_arr decode_category (obj_get ''categories'' r))"
    using f by (intro arr_type [of CategorySchema "obj_get ''categories'' v" _ int_id])
      (use assms(2) in \<open>auto intro: category_type simp: int_ids_def\<close>)
  moreover have "defined (as_opt decode_resolution (obj_get ''resolution'' r))"
    using f by (intro opt_type [of MarketResolutionSchema "obj_get ''resolution'' v"])
      (use assms(2) in \<open>auto intro: resolution_type simp: int_ids_def\<close>)
  moreover have "defined (as_enum [(''price'', SortPrice), (''position'', SortPosition)] (obj_get ''outcomeSort'' r))"
    using f by (intro enum_type [of "[''price'', ''position'']" "obj_get ''outcomeSort'' v"]) auto
  moreover have "defined (as_enum [(''active'', Active), (''resolved'', Resolved), (''pending'', Pending), (''paused'', Paused)]
      (obj_get ''status'' r))"
    using f by (intro enum_type [of "[''active'', ''resolved'', ''pending'', ''paused'']" "obj_get ''status'' v"]) auto
  moreover have "defined (as_opt as_str (obj_get ''imgKey'' r))"
    using f by (intro opt_type [of "ZString []" "obj_get ''imgKey'' v"]) (auto dest: str_type)
  moreover have "defined (as_opt as_date (obj_get ''closeTime'' r))"
    using f by (intro opt_type [of ZDate "obj_get ''closeTime'' v"]) (auto dest: date_type)
  moreover have "defined (as_bool (obj_get ''isBinary'' r))"
    by (rule default_type [of ZBoolean "JBool True" "obj_get ''isBinary'' v" _ as_bool]) (use f in \<open>auto dest: bool_type\<close>)
  moreover have "defined (as_int (obj_get ''version'' r))"
    by (rule default_type [of "ZNumber [IntCheck]" "jint 0" "obj_get ''version'' v" _ as_int])
      (use f in \<open>auto dest: int_type simp: jint_def\<close>)
  moreover have "defined (as_str (obj_get ''id'' r))" "defined (as_str (obj_get ''name'' r))"
    "defined (as_str (obj_get ''description'' r))" "defined (as_str (obj_get ''slug'' r))"
    "defined (as_dec (obj_get ''alpha'' r))" "defined (as_dec (obj_get ''capPrice'' r))"
    "defined (as_dec (obj_get ''totalVolume'' r))"
    using f str_type uuid_type dec_type by blast+
  ultimately show ?thesis unfolding decode_market_def by auto
qed

end

lemma those_length: "those xs = Some ys \<Longrightarrow> length ys = length xs"
  by (induction xs arbitrary: ys) (auto split: option.splits)

lemma decode_outcomes:
  assumes "decode_market r = Some m" and "obj_get ''outcomes'' r = JArr os"
  shows "length (outcomes m) = length os"
  using assms by (auto simp: decode_market_def bind_eq_Some_conv dest!: those_length)

lemma market_transform_total:
  assumes "outcomes m \<noteq> []"
  obtains m' where "market_transform F X m = Inr m'" "length (outcomes m') = length (outcomes m)"
    "isBinary m' \<longleftrightarrow> length (outcomes m') = 2" "m_version m' = m_version m"
proof -
  let ?m = "m\<lparr>isBinary := (length (outcomes m) = 2)\<rparr>"
  obtain m' where m': "pricesForMarket F (dec_lib X) ?m = Inr m'"
    using pricesForMarket_total [of ?m F "dec_lib X"] assms by auto
  with pricesForMarket_keeps [OF m'] that [of m'] show thesis by (simp add: market_transform_def)
qed

lemma market_transform_empty: "outcomes m = [] \<Longrightarrow> market_transform F X m = Inl TypeError"
  by (simp add: market_transform_def pricesForMarket_def prices_def softmaxB_def Let_def)

lemma empty_market_throws:
  assumes "zod E safeParse" and "safeParse (MarketViewObject X) v = Inr r" and "int_ids r"
    and "obj_get ''outcomes'' r = JArr []"
  shows "MarketViewSchema F X safeParse v = Inl TypeError"
proof -
  obtain m0 where m0: "decode_market r = Some m0" using zod.market_type [OF assms(1-3)] by blast
  moreover have "outcomes m0 = []" using decode_outcomes [OF m0 assms(4)] by simp
  ultimately show ?thesis using assms(2) by (simp add: MarketViewSchema_def market_transform_empty)
qed

subsection \<open>Examples\<close>

definition demo_env :: "real zenv" where
  "demo_env = \<lparr>is_email = (\<lambda>s. CHR ''@'' \<in> set s), is_uuid = (\<lambda>s. s \<noteq> []), is_url = (\<lambda>s. s \<noteq> []),
     to_date = (\<lambda>v. case v of JStr _ \<Rightarrow> Some 0 | _ \<Rightarrow> None)\<rparr>"

definition demo_decs :: "real decs" where
  "demo_decs = \<lparr>dec_lib = real_lib, dec_of_string = (\<lambda>s. if digits s then Some (real (dval s)) else None)\<rparr>"

definition demo_json :: "real jv list \<Rightarrow> real jv" where
  "demo_json os = JObj
     [(''id'', JStr ''m''), (''name'', JStr ''n''), (''description'', JStr ''d''), (''slug'', JStr ''s''),
      (''outcomeSort'', JStr ''price''), (''alpha'', JNum (Fin 1)), (''capPrice'', JNum (Fin 1)),
      (''totalVolume'', JNum (Fin 0)), (''categories'', JArr []), (''outcomes'', JArr os), (''status'', JStr ''active'')]"

definition demo_json_outcome :: "real \<Rightarrow> real jv" where
  "demo_json_outcome i = JObj
     [(''id'', JNum (Fin i)), (''name'', JStr ''o''), (''quantity'', JNum (Fin 1)), (''position'', JNum (Fin 0))]"

lemma demo_empty_parses:
  obtains r where "zparse (MarketViewObject demo_decs) demo_env (demo_json []) = Inr r" "int_ids r"
    "obj_get ''outcomes'' r = JArr []"
  by (simp add: demo_json_def MarketViewObject_def MarketStatus_def DecimalSchema_def to_decimal_def demo_decs_def demo_env_def
      obj_get_def parsed_fields_def guard_def at_path_def apply_trim_def jint_def int_ids_def)

subsection \<open>Properties\<close>



text \<open>
  The registration form accepts exactly the objects with a user name of three to fifteen ASCII
  letters and digits, a mail address and a password of eight to forty-nine characters.
\<close>

lemma register_accepts:
  assumes "zod E safeParse"
  shows "(\<exists>r. safeParse RegisterSchema v = Inr r) \<longleftrightarrow>
    (\<exists>kvs u e p. v = JObj kvs \<and> obj_get ''username'' v = JStr u \<and> obj_get ''email'' v = JStr e \<and>
       obj_get ''password'' v = JStr p \<and> 3 \<le> length u \<and> length u \<le> 15 \<and> list_all alnum u \<and>
       e \<noteq> [] \<and> is_email E e \<and> 8 \<le> length p \<and> length p \<le> 49)"
proof -
  note z = zod.object_ok [OF assms] zod.object_Cons [OF assms] zod.string_ok [OF assms]
  show ?thesis
    unfolding RegisterSchema_def usernameSchema_def emailSchema_def passwordSchema_def
    by (auto simp: z apply_trim_def Suc_le_eq)
qed

text \<open>
  Changing a password needs the confirmation to equal the new password, which has eight to
  forty-nine characters; a well-formed form whose two entries differ yields one problem, at the
  confirmation, and what is sent on success carries no confirmation.
\<close>

theorem change_password_confirmed:
  assumes "zod E safeParse"
  shows "(\<forall>r. safeParse ChangePasswordSchema v = Inr r \<longrightarrow>
      (\<exists>p. obj_get ''newPassword'' r = JStr p \<and> obj_get ''confirmNewPassword'' r = JStr p \<and>
         8 \<le> length p \<and> length p \<le> 49)) \<and>
    (\<forall>r. safeParse (ZObject change_fields) v = Inr r \<and> obj_get ''newPassword'' r \<noteq> obj_get ''confirmNewPassword'' r \<longrightarrow>
      safeParse ChangePasswordSchema v = Inl [([''confirmNewPassword''], Some ''Passwords don't match'')]) \<and>
    (\<forall>w r. safeParse ChangePasswordPayloadSchema w = Inr r \<longrightarrow> obj_get ''confirmNewPassword'' r = JUndef)"
proof (intro conjI allI impI)
  fix r assume r: "safeParse ChangePasswordSchema v = Inr r"
  then have ok: "safeParse (ZObject change_fields) v = Inr r" "obj_get ''newPassword'' r = obj_get ''confirmNewPassword'' r"
    by (simp_all add: ChangePasswordSchema_def zod.refine_ok [OF assms])
  from zod.fields_ok [OF assms ok(1)] ok(2)
  show "\<exists>p. obj_get ''newPassword'' r = JStr p \<and> obj_get ''confirmNewPassword'' r = JStr p \<and> 8 \<le> length p \<and> length p \<le> 49"
    by (auto simp: change_fields_def zod.string_ok [OF assms] apply_trim_def)
next
  fix r assume "safeParse (ZObject change_fields) v = Inr r \<and> obj_get ''newPassword'' r \<noteq> obj_get ''confirmNewPassword'' r"
  then show "safeParse ChangePasswordSchema v = Inl [([''confirmNewPassword''], Some ''Passwords don't match'')]"
    unfolding ChangePasswordSchema_def by (intro zod.refine_issue [OF assms]) auto
next
  fix w r assume "safeParse ChangePasswordPayloadSchema w = Inr r"
  then show "obj_get ''confirmNewPassword'' r = JUndef"
    by (auto simp: ChangePasswordPayloadSchema_def zod.object_ok [OF assms] intro!: absent_get)
qed

theorem change_password_confirmed_witness:
  "zparse ChangePasswordSchema demo_env
     (JObj [(''currentPassword'', JStr ''x''), (''newPassword'', JStr ''12345678''), (''confirmNewPassword'', JStr ''12345679'')])
   = Inl [([''confirmNewPassword''], Some ''Passwords don't match'')]"
proof -
  let ?v = "JObj [(''currentPassword'', JStr ''x''), (''newPassword'', JStr ''12345678''),
      (''confirmNewPassword'', JStr ''12345679'')] :: real jv"
  have "zparse (ZObject change_fields) demo_env ?v = Inr ?v"
    by (simp add: change_fields_def obj_get_def at_path_def apply_trim_def parsed_fields_def)
  then show ?thesis
    using change_password_confirmed [OF zref.zod_axioms, of demo_env ?v] by (simp add: obj_get_def)
qed

text \<open>
  Searches stay in bounds: a validated search for markets, bets or comments asks for a page from
  one on, of at most twenty and at least three (markets) or four entries; absent, they are page one
  and twenty entries.
\<close>

theorem search_pages_bounded:
  assumes "zod E safeParse"
    and "(lo, S) \<in> {(3, MarketSearchSchema), (4, UserBetSearchSchema), (4, CommentSearchSchema)}"
    and "safeParse S v = Inr r"
  shows "\<exists>page size. obj_get ''page'' r = jint page \<and> obj_get ''pageSize'' r = jint size \<and>
    1 \<le> page \<and> lo \<le> size \<and> size \<le> 20 \<and>
    (obj_get ''page'' v = JUndef \<longrightarrow> page = 1) \<and> (obj_get ''pageSize'' v = JUndef \<longrightarrow> size = 20)"
proof -
  have int: "\<exists>k. w = jint k \<and> (\<forall>c m. Minimum c m \<in> set ns \<longrightarrow> c \<le> k) \<and> (\<forall>c m. Maximum c m \<in> set ns \<longrightarrow> k \<le> c)"
    if "safeParse (ZNumber (IntCheck # ns)) u = Inr w" for u w ns
  proof -
    from that obtain y where y: "w = JNum (Fin y)" "y = of_int \<lfloor>y\<rfloor>" "list_all (\<lambda>c. check_number c (Fin y)) ns"
      by (auto simp: zod.number_ok [OF assms(1)])
    have "c \<le> \<lfloor>y\<rfloor>" if "Minimum c m \<in> set ns" for c m
      using y(3) that by (fastforce simp: list_all_iff le_floor_iff)
    moreover have "\<lfloor>y\<rfloor> \<le> c" if "Maximum c m \<in> set ns" for c m
    proof -
      have "y \<le> of_int c" using y(3) that by (fastforce simp: list_all_iff)
      then show ?thesis using y(2) by (metis of_int_le_iff)
    qed
    ultimately show ?thesis using y(1,2) by (metis jint_def)
  qed
  have page: "\<exists>k. obj_get ''page'' r = jint k \<and> 1 \<le> k \<and> (obj_get ''page'' v = JUndef \<longrightarrow> k = 1)"
    if "safeParse (ZDefault (ZNumber [IntCheck, Minimum 1 None]) (jint 1)) (obj_get ''page'' v) = Inr (obj_get ''page'' r)"
    using that int [of "[Minimum 1 None]"] by (fastforce simp: zod.default_ok [OF assms(1)] split: if_splits)
  have size: "\<exists>k. obj_get ''pageSize'' r = jint k \<and> lo \<le> k \<and> k \<le> 20 \<and> (obj_get ''pageSize'' v = JUndef \<longrightarrow> k = 20)"
    if "safeParse (ZDefault (ZNumber [IntCheck, Minimum lo None, Maximum 20 None]) (jint 20)) (obj_get ''pageSize'' v) =
      Inr (obj_get ''pageSize'' r)" and "lo \<le> 20"
    using that int [of "[Minimum lo None, Maximum 20 None]"] by (fastforce simp: zod.default_ok [OF assms(1)] split: if_splits)
  from assms(2,3) have "lo \<le> 20 \<and>
      safeParse (ZDefault (ZNumber [IntCheck, Minimum 1 None]) (jint 1)) (obj_get ''page'' v) = Inr (obj_get ''page'' r) \<and>
      safeParse (ZDefault (ZNumber [IntCheck, Minimum lo None, Maximum 20 None]) (jint 20)) (obj_get ''pageSize'' v) =
        Inr (obj_get ''pageSize'' r)"
    by (auto simp: MarketSearchSchema_def UserBetSearchSchema_def CommentSearchSchema_def
        dest!: zod.fields_ok [OF assms(1)])
  with page size show ?thesis by blast
qed

theorem search_pages_bounded_witness:
  "\<exists>page size r. zparse MarketSearchSchema demo_env (JObj []) = Inr r \<and> obj_get ''page'' r = jint page \<and>
    obj_get ''pageSize'' r = jint size \<and> page = 1 \<and> size = 20"
proof -
  obtain r where r: "zparse MarketSearchSchema demo_env (JObj []) = Inr r"
    by (simp add: MarketSearchSchema_def MarketStatus_def MarketSort_def obj_get_def at_path_def)
  from search_pages_bounded [OF zref.zod_axioms _ r, of 3] r show ?thesis by (auto simp: obj_get_def)
qed

end
