(* ===== verification/Utils.thy ===== *)
theory Utils
  imports Definitions JsString
begin

section \<open>Small utilities\<close>

text \<open>
  The helpers of \<^verbatim>\<open>src/frontend/seer/src/lib\<close> that other parts share: relative times
  (\<^verbatim>\<open>utils/date.ts\<close>), the state of a market at a point in time (\<^verbatim>\<open>markets.ts\<close>), paging (\<^verbatim>\<open>meta.ts\<close>), the
  cookie header (\<^verbatim>\<open>utils/cookies.ts\<close>), the keys of the query cache (\<^verbatim>\<open>queries\<close>) and the search parameters of the
  address (\<^verbatim>\<open>hooks/useUpdateSearchParams.ts\<close>). Times are in milliseconds and the current time is an
  argument. The two formatters of \<^verbatim>\<open>Intl\<close> are arguments too.
\<close>

subsection \<open>Definitions\<close>

subsubsection \<open>Dates\<close>

definition time_units :: "(int \<times> string) list" where
  "time_units = [(31536000, ''year''), (2592000, ''month''), (86400, ''day''), (3600, ''hour''), (60, ''minute'')]"

definition ago :: "int \<Rightarrow> string \<Rightarrow> string" where
  "ago n unit = show_int n @ '' '' @ unit @ (if n = 1 then [] else ''s'') @ '' ago''"

fun unit_loop :: "int \<Rightarrow> (int \<times> string) list \<Rightarrow> string" where
  "unit_loop seconds [] = ago seconds ''second''"
| "unit_loop seconds ((limit, unit) # us) =
     (if seconds div limit \<ge> 1 then ago (seconds div limit) unit else unit_loop seconds us)"

definition timeSince :: "int \<Rightarrow> int \<Rightarrow> string" where
  "timeSince now date =
     (let seconds = (now - date) div 1000
      in if seconds = 0 then ''now'' else unit_loop seconds time_units)"

text \<open>\<^verbatim>\<open>Math.round\<close> of a quotient of integers: to the nearest integer, halves upwards.\<close>

definition round_quot :: "int \<Rightarrow> int \<Rightarrow> int" where
  "round_quot x d = (2 * x + d) div (2 * d)"

definition relative_time :: "(int \<Rightarrow> string \<Rightarrow> string) \<Rightarrow> int \<Rightarrow> string" where
  "relative_time rtf diffMs =
     (let diffMin = round_quot diffMs 60000; diffHours = round_quot diffMs 3600000;
          diffDays = round_quot diffMs 86400000; diffMonths = round_quot diffMs 2592000000
      in if \<bar>diffMin\<bar> < 60 then rtf diffMin ''minute''
         else if \<bar>diffHours\<bar> < 24 then rtf diffHours ''hour''
         else if \<bar>diffDays\<bar> < 30 then rtf diffDays ''day''
         else rtf diffMonths ''month'')"

definition formatDateTime :: "(int \<Rightarrow> string) \<Rightarrow> (int \<Rightarrow> string \<Rightarrow> string) \<Rightarrow> int \<Rightarrow> int \<Rightarrow> string" where
  "formatDateTime dateFormatter rtf now date = dateFormatter date @ '' - '' @ relative_time rtf (date - now)"

subsubsection \<open>Markets and pages\<close>

definition isMarketActive :: "int \<Rightarrow> 'd market_view \<Rightarrow> bool" where
  "isMarketActive now m \<longleftrightarrow> m_status m = Active \<and> (case closeTime m of None \<Rightarrow> True | Some t \<Rightarrow> t > now)"

definition isMarketPending :: "int \<Rightarrow> 'd market_view \<Rightarrow> bool" where
  "isMarketPending now m \<longleftrightarrow> m_status m = Pending \<or> (case closeTime m of None \<Rightarrow> False | Some t \<Rightarrow> t \<le> now)"

definition getNextPageParamFromMetadata :: "metadata \<Rightarrow> int option" where
  "getNextPageParamFromMetadata meta =
     (if currentPage meta < lastPage meta then Some (currentPage meta + 1) else None)"

definition getServerCookies :: "(string \<times> string) list \<Rightarrow> string" where
  "getServerCookies cookies =
     (case map (\<lambda>(n, v). n @ ''='' @ v) cookies of [] \<Rightarrow> [] | c # cs \<Rightarrow> c @ concat (map (\<lambda>x. ''; '' @ x) cs))"

subsubsection \<open>Query keys\<close>

datatype market_sort = Trending | Volume | Newest | EndingSoon

datatype bet_sort = ByPlacedAt | ByWager | ByPayout | ByEvent

datatype bet_filter = OnlyStatus bet_status | OnlyResolved

record market_search =
  ms_query :: "string option"
  ms_categorySlug :: "string option"
  ms_status :: "market_status option"
  ms_sort :: market_sort
  ms_pageSize :: int
  ms_page :: int

record bet_search =
  bs_marketId :: "string option"
  bs_status :: "bet_filter option"
  bs_pageSize :: int
  bs_page :: int
  bs_sort :: bet_sort
  bs_ascending :: bool

record comment_search =
  cs_marketId :: string
  cs_parentId :: "int option"
  cs_pageSize :: int
  cs_page :: int

fun show_sort :: "market_sort \<Rightarrow> string" where
  "show_sort Trending = ''trending''"
| "show_sort Volume = ''volume''"
| "show_sort Newest = ''newest''"
| "show_sort EndingSoon = ''endingSoon''"

fun show_status :: "market_status \<Rightarrow> string" where
  "show_status Active = ''active''"
| "show_status Resolved = ''resolved''"
| "show_status Pending = ''pending''"
| "show_status Paused = ''paused''"

fun show_bet_sort :: "bet_sort \<Rightarrow> string" where
  "show_bet_sort ByPlacedAt = ''placedAt''"
| "show_bet_sort ByWager = ''wager''"
| "show_bet_sort ByPayout = ''payout''"
| "show_bet_sort ByEvent = ''event''"

fun show_bet_filter :: "bet_filter \<Rightarrow> string" where
  "show_bet_filter (OnlyStatus BetActive) = ''active''"
| "show_bet_filter (OnlyStatus BetWon) = ''won''"
| "show_bet_filter (OnlyStatus BetLost) = ''lost''"
| "show_bet_filter (OnlyStatus BetCashedOut) = ''cashedOut''"
| "show_bet_filter OnlyResolved = ''resolved''"

datatype key_part = KStr string | KNum int | KBool bool | KUndef

definition marketSearchKey :: "market_search option \<Rightarrow> key_part list" where
  "marketSearchKey search =
     (case search of
        None \<Rightarrow> [KStr ''market'', KStr ''invalid'']
      | Some s \<Rightarrow>
          [KStr ''market'', KStr ''query'', (case ms_query s of None \<Rightarrow> KUndef | Some q \<Rightarrow> KStr q),
           KStr ''category'', (case ms_categorySlug s of None \<Rightarrow> KUndef | Some c \<Rightarrow> KStr c),
           KStr ''sort'', KStr (show_sort (ms_sort s)),
           KStr ''status'', (case ms_status s of None \<Rightarrow> KUndef | Some x \<Rightarrow> KStr (show_status x)),
           KStr ''pageSize'', KNum (ms_pageSize s), KStr ''page'', KNum (ms_page s)])"

definition betSearchKey :: "bet_search option \<Rightarrow> key_part list" where
  "betSearchKey search =
     (case search of
        None \<Rightarrow> [KStr ''userBets'', KStr ''invalid'']
      | Some s \<Rightarrow>
          [KStr ''userBets'', KStr ''query'', KStr ''marketId'', KStr (case bs_marketId s of None \<Rightarrow> ''all'' | Some i \<Rightarrow> i),
           KStr ''status'', KStr (case bs_status s of None \<Rightarrow> ''all'' | Some f \<Rightarrow> show_bet_filter f),
           KStr ''sort'', KStr (show_bet_sort (bs_sort s)),
           KStr ''sortDir'', KStr (if bs_ascending s then ''asc'' else ''desc'')])"

definition commentSearchKey :: "comment_search \<Rightarrow> key_part list" where
  "commentSearchKey s =
     [KStr ''comment'', KStr ''marketId'', KStr (cs_marketId s), KStr ''parentId'',
      (case cs_parentId s of None \<Rightarrow> KStr ''root'' | Some p \<Rightarrow> KNum p)]"

subsubsection \<open>Search parameters\<close>

type_synonym params = "(string \<times> string) list"

definition params_get :: "params \<Rightarrow> string \<Rightarrow> string option" where
  "params_get ps k = map_of ps k"

definition params_delete :: "string \<Rightarrow> params \<Rightarrow> params" where
  "params_delete k ps = filter (\<lambda>(k', v). k' \<noteq> k) ps"

fun params_set :: "string \<Rightarrow> string \<Rightarrow> params \<Rightarrow> params" where
  "params_set k v [] = [(k, v)]"
| "params_set k v ((k', v') # ps) =
     (if k' = k then (k, v) # params_delete k ps else (k', v') # params_set k v ps)"

text \<open>The encoding of forms: letters, digits and \<^verbatim>\<open>*-._\<close> stand for themselves, a space is a plus sign.\<close>

definition hex_digit :: "nat \<Rightarrow> char" where
  "hex_digit n = (if n < 10 then digit_char n else char_of (55 + n))"

definition percent :: "nat \<Rightarrow> string" where
  "percent b = [CHR ''%'', hex_digit (b div 16), hex_digit (b mod 16)]"

definition encode_char :: "char \<Rightarrow> string" where
  "encode_char c =
     (let n = of_char c :: nat
      in if is_digit c \<or> (65 \<le> n \<and> n \<le> 90) \<or> (97 \<le> n \<and> n \<le> 122) \<or> c \<in> {CHR ''*'', CHR ''-'', CHR ''.'', CHR ''_''}
         then [c]
         else if c = CHR '' '' then ''+''
         else if n < 128 then percent n
         else percent (192 + n div 64) @ percent (128 + n mod 64))"

definition encode_component :: "string \<Rightarrow> string" where
  "encode_component s = concat (map encode_char s)"

definition params_toString :: "params \<Rightarrow> string" where
  "params_toString ps =
     (case map (\<lambda>(k, v). encode_component k @ ''='' @ encode_component v) ps of
        [] \<Rightarrow> [] | p # qs \<Rightarrow> p @ concat (map (\<lambda>x. ''&'' @ x) qs))"

datatype update_value = UStr string | UNum int | UBool bool | UNull | UUndefined

fun param_of :: "update_value \<Rightarrow> string option" where
  "param_of (UStr s) = (if s = [] then None else Some s)"
| "param_of (UNum n) = Some (show_int n)"
| "param_of (UBool b) = Some (if b then ''true'' else ''false'')"
| "param_of UNull = None"
| "param_of UUndefined = None"

definition apply_update :: "string \<times> update_value \<Rightarrow> params \<Rightarrow> params" where
  "apply_update u ps = (case param_of (snd u) of None \<Rightarrow> params_delete (fst u) ps | Some v \<Rightarrow> params_set (fst u) v ps)"

record url_options =
  opt_replace :: bool
  opt_scroll :: "bool option"
  newPathname :: "string option"
  overwriteCurrent :: bool

datatype navigation = Push string bool | Replace string bool

definition setParams :: "string \<Rightarrow> params \<Rightarrow> (string \<times> update_value) list \<Rightarrow> url_options \<Rightarrow> navigation" where
  "setParams pathname searchParams updates opts =
     (let params = fold apply_update updates (if overwriteCurrent opts then [] else searchParams);
          qs = params_toString params;
          nextPathname = (case newPathname opts of Some p \<Rightarrow> if p = [] then pathname else p | None \<Rightarrow> pathname);
          href = (if qs \<noteq> [] then nextPathname @ ''?'' @ qs else pathname);
          scroll = (case opt_scroll opts of None \<Rightarrow> False | Some b \<Rightarrow> b)
      in if opt_replace opts then Replace href scroll else Push href scroll)"

subsection \<open>Relative times\<close>

text \<open>The loop over the units takes the first one that fits: its count is exact and no larger unit fits.\<close>

lemma quotient_exact:
  fixes s l :: int
  assumes "0 < l"
  shows "s div l * l \<le> s" and "s < (s div l + 1) * l"
proof -
  have "s div l * l + s mod l = s" by (rule div_mult_mod_eq)
  moreover have "0 \<le> s mod l" "s mod l < l" using assms by simp_all
  moreover have "(s div l + 1) * l = s div l * l + l" by (simp add: distrib_right)
  ultimately show "s div l * l \<le> s" "s < (s div l + 1) * l" by linarith+
qed

lemma unit_loop_exact:
  assumes "sorted_wrt (\<lambda>a b. fst b < fst a) us" and "\<forall>u\<in>set us. 1 < fst u" and "1 \<le> s"
  shows "\<exists>limit unit n. (limit, unit) \<in> set ((1, ''second'') # us) \<and> 1 \<le> n \<and>
           unit_loop s us = ago n unit \<and> n * limit \<le> s \<and> s < (n + 1) * limit \<and>
           (\<forall>u\<in>set us. limit < fst u \<longrightarrow> s < fst u)"
  using assms
proof (induction s us rule: unit_loop.induct)
  case (1 s)
  then show ?case by (intro exI [of _ 1] exI [of _ "''second''"] exI [of _ s]) simp
next
  case (2 s limit unit us)
  show ?case
  proof (cases "s div limit \<ge> 1")
    case True
    have "0 < limit" using 2(3) by simp
    have "\<forall>u\<in>set ((limit, unit) # us). limit < fst u \<longrightarrow> s < fst u"
      using 2(2) by auto
    then show ?thesis
      using True quotient_exact [OF \<open>0 < limit\<close>, of s]
      by (intro exI [of _ limit] exI [of _ unit] exI [of _ "s div limit"]) simp
  next
    case False
    then have below: "s < limit"
      using 2(3) pos_imp_zdiv_pos_iff [of limit s] by simp
    have "sorted_wrt (\<lambda>a b. fst b < fst a) us" "\<forall>u\<in>set us. 1 < fst u" using 2(2,3) by simp_all
    from 2(1) [OF False this 2(4)] obtain l u n where
      x: "(l, u) \<in> set ((1, ''second'') # us)" "1 \<le> n"
      "unit_loop s us = ago n u" "n * l \<le> s" "s < (n + 1) * l" "\<forall>v\<in>set us. l < fst v \<longrightarrow> s < fst v"
      by blast
    then show ?thesis
      using below False by (intro exI [of _ l] exI [of _ u] exI [of _ n]) auto
  qed
qed

lemma time_units_sorted: "sorted_wrt (\<lambda>a b. fst b < fst a) time_units" "\<forall>u\<in>set time_units. 1 < fst u"
  by (simp_all add: time_units_def)

text \<open>
  A date at least a second in the past is shown as \<open>n\<close> units ago, where \<open>n\<close> whole units have passed and
  \<open>n + 1\<close> have not, and no larger unit of the list has passed even once.
\<close>

lemma timeSince_exact:
  assumes "1000 \<le> now - date"
  shows "\<exists>limit unit n. (limit, unit) \<in> set ((1, ''second'') # time_units) \<and> 1 \<le> n \<and>
           timeSince now date = ago n unit \<and>
           n * limit * 1000 \<le> now - date \<and> now - date < (n + 1) * limit * 1000 \<and>
           (\<forall>u\<in>set time_units. limit < fst u \<longrightarrow> now - date < fst u * 1000)"
proof -
  define s where "s = (now - date) div 1000"
  have s: "1 \<le> s" using assms by (simp add: s_def)
  have ms: "x * 1000 \<le> now - date \<longleftrightarrow> x \<le> s" "now - date < x * 1000 \<longleftrightarrow> s < x" for x
    by (auto simp: s_def)
  have "timeSince now date = unit_loop s time_units"
    using s by (simp add: timeSince_def s_def Let_def)
  then show ?thesis
    using unit_loop_exact [OF time_units_sorted s] by (simp only: ms)
qed

lemma show_two: "show_int 2 = ''2''"
  by code_simp

text \<open>A date in the future is shown with a negative number of seconds.\<close>

lemma unit_loop_negative: "s < 0 \<Longrightarrow> \<forall>u\<in>set us. 1 < fst u \<Longrightarrow> unit_loop s us = ago s ''second''"
proof (induction s us rule: unit_loop.induct)
  case (2 s limit unit us)
  moreover have "s div limit < 1" using 2(2,3) div_neg_pos_less0 [of s limit] by simp
  ultimately show ?case by simp
qed simp

lemma timeSince_future: "now < date \<Longrightarrow> \<exists>n < 0. timeSince now date = ago n ''second''"
  using unit_loop_negative [OF _ time_units_sorted(2), of "(now - date) div 1000"]
    div_neg_pos_less0 [of "now - date" 1000]
  by (intro exI [of _ "(now - date) div 1000"]) (auto simp: timeSince_def Let_def)

subsection \<open>The state of a market\<close>

lemma active_not_pending: "isMarketActive now m \<Longrightarrow> \<not> isMarketPending now m"
  by (auto simp: isMarketActive_def isMarketPending_def split: option.splits)

lemma active_until_close:
  "isMarketActive now m \<Longrightarrow> now' \<le> now \<Longrightarrow> isMarketActive now' m"
  by (auto simp: isMarketActive_def split: option.splits)

subsection \<open>Keys of the query cache\<close>

text \<open>Two searches share an entry of the cache exactly if they ask for the same thing.\<close>

lemma show_sort_inj: "show_sort a = show_sort b \<longleftrightarrow> a = b"
  by (cases a; cases b) simp_all

lemma show_status_inj: "show_status a = show_status b \<longleftrightarrow> a = b"
  by (cases a; cases b) simp_all

lemma show_bet_sort_inj: "show_bet_sort a = show_bet_sort b \<longleftrightarrow> a = b"
  by (cases a; cases b) simp_all

lemma marketSearchKey_inj: "marketSearchKey a = marketSearchKey b \<longleftrightarrow> a = b"
  by (cases a; cases b)
    (auto simp: marketSearchKey_def show_sort_inj show_status_inj split: option.splits intro: market_search.equality)

lemma commentSearchKey_inj:
  "commentSearchKey a = commentSearchKey b \<longleftrightarrow> cs_marketId a = cs_marketId b \<and> cs_parentId a = cs_parentId b"
  by (auto simp: commentSearchKey_def split: option.splits)

subsection \<open>Search parameters\<close>

lemma params_get_nil: "params_get [] k = None"
  by (simp add: params_get_def)

lemma params_get_delete: "params_get (params_delete k ps) j = (if j = k then None else params_get ps j)"
  by (induction ps) (auto simp: params_get_def params_delete_def)

lemma params_get_set: "params_get (params_set k v ps) j = (if j = k then Some v else params_get ps j)"
  by (induction k v ps rule: params_set.induct)
    (use params_get_delete in \<open>auto simp: params_get_def\<close>)

lemma params_get_update:
  "params_get (apply_update u ps) j = (if j = fst u then param_of (snd u) else params_get ps j)"
  by (simp add: apply_update_def params_get_delete params_get_set split: option.split)

lemma params_get_updates:
  "distinct (map fst us) \<Longrightarrow>
   params_get (fold apply_update us ps) j = (case map_of us j of None \<Rightarrow> params_get ps j | Some v \<Rightarrow> param_of v)"
proof (induction us arbitrary: ps)
  case (Cons u us)
  have "map_of us (fst u) = None" using Cons.prems by (simp add: map_of_eq_None_iff)
  then show ?case
    using Cons by (cases u) (simp add: params_get_update split: option.split)
qed simp

fun nav_href :: "navigation \<Rightarrow> string" where
  "nav_href (Push h s) = h"
| "nav_href (Replace h s) = h"

lemma params_toString_empty: "params_toString ps = [] \<longleftrightarrow> ps = []"
  by (cases ps) (auto simp: params_toString_def)

text \<open>
  Updating the address: a parameter that is updated has its new value, one that is set to nothing is
  removed, and every other parameter keeps its value (or is dropped when the current ones are to be overwritten). The
  address leads to the given path unless no parameter is left, and then to the current path.
\<close>

theorem setParams_updates:
  assumes "distinct (map fst updates)"
  shows "\<exists>ps. (\<forall>k. params_get ps k =
                  (case map_of updates k of
                     Some v \<Rightarrow> param_of v
                   | None \<Rightarrow> if overwriteCurrent opts then None else params_get searchParams k)) \<and>
               nav_href (setParams pathname searchParams updates opts) =
                 (if ps = [] then pathname
                  else (case newPathname opts of Some (c # p) \<Rightarrow> c # p | _ \<Rightarrow> pathname) @ ''?'' @ params_toString ps)"
proof (intro exI conjI allI)
  let ?ps = "fold apply_update updates (if overwriteCurrent opts then [] else searchParams)"
  show "params_get ?ps k =
          (case map_of updates k of
             Some v \<Rightarrow> param_of v
           | None \<Rightarrow> if overwriteCurrent opts then None else params_get searchParams k)" for k
    by (simp add: params_get_updates [OF assms] params_get_nil split: option.split)
  show "nav_href (setParams pathname searchParams updates opts) =
          (if ?ps = [] then pathname
           else (case newPathname opts of Some (c # p) \<Rightarrow> c # p | _ \<Rightarrow> pathname) @ ''?'' @ params_toString ?ps)"
    by (simp add: setParams_def Let_def params_toString_empty split: option.split list.split)
qed

theorem setParams_updates_witness:
  "\<exists>ps. params_get ps ''page'' = Some ''2'' \<and> params_get ps ''q'' = None \<and> params_get ps ''sort'' = Some ''volume'' \<and>
        nav_href (setParams ''/search'' [(''q'', ''cup''), (''sort'', ''volume'')] [(''page'', UNum 2), (''q'', UNull)]
          \<lparr>opt_replace = True, opt_scroll = None, newPathname = None, overwriteCurrent = False\<rparr>) =
        ''/search?'' @ params_toString ps"
proof -
  let ?o = "\<lparr>opt_replace = True, opt_scroll = None, newPathname = None, overwriteCurrent = False\<rparr>"
  let ?u = "[(''page'', UNum 2), (''q'', UNull)]"
  have "distinct (map fst ?u)" by simp
  from setParams_updates [OF this, where opts = ?o and searchParams = "[(''q'', ''cup''), (''sort'', ''volume'')]"
      and pathname = "''/search''"]
  obtain ps where *:
    "\<forall>k. params_get ps k = (case map_of ?u k of Some v \<Rightarrow> param_of v | None \<Rightarrow> params_get [(''q'', ''cup''), (''sort'', ''volume'')] k)"
    "nav_href (setParams ''/search'' [(''q'', ''cup''), (''sort'', ''volume'')] ?u ?o) =
       (if ps = [] then ''/search'' else ''/search'' @ ''?'' @ params_toString ps)"
    by (simp only: url_options.simps option.case if_False) blast
  have get: "params_get ps ''page'' = Some ''2''" "params_get ps ''q'' = None" "params_get ps ''sort'' = Some ''volume''"
    using *(1) by (simp_all add: params_get_def show_two)
  have "ps \<noteq> []" using get(1) by (auto simp: params_get_def)
  with *(2) get show ?thesis by auto
qed

text \<open>A path that is asked for is ignored when no parameter is left.\<close>

lemma setParams_ignores_path:
  "nav_href (setParams pathname searchParams [] \<lparr>opt_replace = r, opt_scroll = s, newPathname = p, overwriteCurrent = True\<rparr>)
     = pathname"
  by (simp add: setParams_def Let_def params_toString_empty)

end
