(* ===== verification/Api.thy ===== *)
theory Api
  imports Validation Utils
begin

section \<open>The server interface\<close>

text \<open>
  \<^verbatim>\<open>src/frontend/seer/src/lib/api.ts\<close>: one function per request to the server. \<^verbatim>\<open>fetch\<close> is a parameter
  that maps a request to a response, or to nothing when the network fails; a response has a status
  and, if its body is JSON, a value. The body of a request is the value given to
  \<^verbatim>\<open>JSON.stringify\<close>. A rejected promise is an error value: an \<^verbatim>\<open>APIError\<close> with the message and the
  field errors of the server, an \<^verbatim>\<open>Error\<close> with a fixed text, a failed fetch, a body that is not JSON or
  an exception of the language. \<^verbatim>\<open>safeParse\<close> of the validation package is a parameter as in
  \<^verbatim>\<open>Validation\<close>. Logging and the delay of \<^verbatim>\<open>getComments\<close> are left out.
\<close>

subsection \<open>Requests and responses\<close>

record 'd request =
  req_url :: string
  req_method :: string
  req_headers :: "(string \<times> string) list"
  req_credentials :: "string option"
  req_cache :: "string option"
  req_body :: "'d jv option"

record 'd response =
  resp_status :: int
  resp_body :: "'d jv option"

type_synonym 'd fetch = "'d request \<Rightarrow> 'd response option"

datatype 'd api_error =
    APIError (err_message: "'d jv") (err_errors: "'d jv")
  | Error string
  | FetchFailed
  | Raised js_error

definition ok :: "'d response \<Rightarrow> bool" where
  "ok r \<longleftrightarrow> 200 \<le> resp_status r \<and> resp_status r \<le> 299"

definition send :: "'d fetch \<Rightarrow> 'd request \<Rightarrow> 'd api_error + 'd response" where
  "send fetch req = (case fetch req of None \<Rightarrow> Inl FetchFailed | Some r \<Rightarrow> Inr r)"

definition json :: "'d response \<Rightarrow> 'd api_error + 'd jv" where
  "json r = (case resp_body r of None \<Rightarrow> Inl (Raised SyntaxError) | Some v \<Rightarrow> Inr v)"

text \<open>A property of a value: reading one of \<^verbatim>\<open>null\<close> is an error.\<close>

definition get_prop :: "'d jv \<Rightarrow> string \<Rightarrow> 'd api_error + 'd jv" where
  "get_prop v k = (if v = JNull \<or> v = JUndef then Inl (Raised TypeError) else Inr (obj_get k v))"

text \<open>The value of \<^verbatim>\<open>data.message\<close>, or of \<^verbatim>\<open>data.message || "..."\<close>, in an error that may carry \<^verbatim>\<open>data.errors\<close>.\<close>

definition fail_with :: "string option \<Rightarrow> bool \<Rightarrow> 'd jv \<Rightarrow> 'd api_error + 'a" where
  "fail_with dflt with_errors data =
     bindE (get_prop data ''message'') (\<lambda>m.
       Inl (APIError (case dflt of None \<Rightarrow> m | Some t \<Rightarrow> if truthy m then m else JStr t)
                     (if with_errors then obj_get ''errors'' data else JUndef)))"

text \<open>The common part of the functions: fetch, read the body, and throw unless the status is good.\<close>

definition checked :: "'d fetch \<Rightarrow> 'd request \<Rightarrow> string option \<Rightarrow> bool \<Rightarrow> 'd api_error + 'd jv" where
  "checked fetch req dflt with_errors =
     bindE (send fetch req) (\<lambda>response.
     bindE (json response) (\<lambda>data.
       if \<not> ok response then fail_with dflt with_errors data else Inr data))"

definition validated :: "('d schema \<Rightarrow> 'd jv \<Rightarrow> 'd zresult) \<Rightarrow> 'd schema \<Rightarrow> string \<Rightarrow> 'd jv \<Rightarrow> 'd api_error + 'd jv" where
  "validated safeParse S msg data = (case safeParse S data of Inl is \<Rightarrow> Inl (Error msg) | Inr d \<Rightarrow> Inr d)"

definition get_request :: "string \<Rightarrow> 'd request" where
  "get_request url = \<lparr>req_url = url, req_method = ''GET'', req_headers = [], req_credentials = None,
     req_cache = None, req_body = None\<rparr>"

definition included :: "'d request \<Rightarrow> 'd request" where
  "included req = req\<lparr>req_credentials := Some ''include''\<rparr>"

definition json_request :: "string \<Rightarrow> string \<Rightarrow> 'd jv \<Rightarrow> 'd request" where
  "json_request meth url v = \<lparr>req_url = url, req_method = meth,
     req_headers = [(''Content-Type'', ''application/json'')], req_credentials = Some ''include'',
     req_cache = None, req_body = Some v\<rparr>"

definition API_BASE_URL :: "string option \<Rightarrow> string" where
  "API_BASE_URL env = (case env of None \<Rightarrow> [] | Some s \<Rightarrow> s)"

subsection \<open>Accounts\<close>

definition register :: "'d fetch \<Rightarrow> string \<Rightarrow> 'd jv \<Rightarrow> 'd api_error + 'd jv" where
  "register fetch base formData =
     bindE (checked fetch (json_request ''POST'' (base @ ''/auth/register'') formData) None True) (\<lambda>data. Inr JNull)"

definition login :: "'d fetch \<Rightarrow> string \<Rightarrow> 'd jv \<Rightarrow> 'd api_error + 'd jv" where
  "login fetch base formData =
     bindE (checked fetch (json_request ''POST'' (base @ ''/auth/login'') formData) None True) (\<lambda>data. Inr JNull)"

definition UserResponseSchema :: "'d decs \<Rightarrow> 'd schema" where
  "UserResponseSchema X = ZUnion [UserSchema X, ZNull]"

definition getUser ::
    "'d fetch \<Rightarrow> string \<Rightarrow> 'd decs \<Rightarrow> ('d schema \<Rightarrow> 'd jv \<Rightarrow> 'd zresult) \<Rightarrow> string option \<Rightarrow> 'd api_error + 'd jv" where
  "getUser fetch base X safeParse cookie =
     (let headers = (case cookie of None \<Rightarrow> [] | Some c \<Rightarrow> if c = [] then [] else [(''Cookie'', c)])
      in bindE (send fetch (included (get_request (base @ ''/user/me''))\<lparr>req_headers := headers\<rparr>)) (\<lambda>response.
         bindE (json response) (\<lambda>data.
           if \<not> ok response then
             (if resp_status response = 401 then Inr JNull else fail_with (Some ''Failed to fetch user'') False data)
           else validated safeParse (UserResponseSchema X) ''Invalid user data'' data)))"

definition completeProfile :: "'d fetch \<Rightarrow> string \<Rightarrow> 'd jv \<Rightarrow> 'd api_error + 'd jv" where
  "completeProfile fetch base formData =
     bindE (checked fetch (json_request ''POST'' (base @ ''/auth/complete-profile'') formData) None True) (\<lambda>data. Inr JNull)"

definition logout :: "'d fetch \<Rightarrow> string \<Rightarrow> 'd api_error + 'd jv" where
  "logout fetch base =
     bindE (send fetch (included (get_request (base @ ''/auth/logout''))\<lparr>req_method := ''POST''\<rparr>)) (\<lambda>response.
       if \<not> ok response then bindE (json response) (fail_with (Some ''Logout failed'') False)
       else json response)"

definition getSessions ::
    "'d fetch \<Rightarrow> string \<Rightarrow> ('d schema \<Rightarrow> 'd jv \<Rightarrow> 'd zresult) \<Rightarrow> bool \<Rightarrow> 'd api_error + 'd jv" where
  "getSessions fetch base safeParse showInactive =
     (let url = base @ ''/auth/sessions'' @ (if showInactive then ''?showInactive=true'' else [])
      in bindE (checked fetch (included (get_request url)) (Some ''Failed to fetch sessions'') False)
           (validated safeParse SessionsSchema ''Invalid session data''))"

definition revokeSession :: "'d fetch \<Rightarrow> string \<Rightarrow> string \<Rightarrow> 'd api_error + 'd jv" where
  "revokeSession fetch base sessionId =
     bindE (send fetch (included (get_request (base @ ''/auth/sessions/'' @ sessionId @ ''/revoke''))
       \<lparr>req_method := ''PATCH''\<rparr>)) (\<lambda>response.
       if \<not> ok response then bindE (json response) (fail_with (Some ''Failed to revoke session'') False)
       else Inr JNull)"

definition changePassword :: "'d fetch \<Rightarrow> string \<Rightarrow> 'd jv \<Rightarrow> 'd api_error + 'd jv" where
  "changePassword fetch base formData =
     bindE (checked fetch (json_request ''PATCH'' (base @ ''/auth/password/change'') formData) None True) (\<lambda>data. Inr JNull)"

definition setPassword :: "'d fetch \<Rightarrow> string \<Rightarrow> 'd jv \<Rightarrow> 'd api_error + 'd jv" where
  "setPassword fetch base formData =
     bindE (checked fetch (json_request ''POST'' (base @ ''/auth/password/set'') formData) None True) (\<lambda>data. Inr JNull)"

definition getUserPreferences ::
    "'d fetch \<Rightarrow> string \<Rightarrow> ('d schema \<Rightarrow> 'd jv \<Rightarrow> 'd zresult) \<Rightarrow> 'd api_error + 'd jv" where
  "getUserPreferences fetch base safeParse =
     bindE (checked fetch (included (get_request (base @ ''/user/prefs''))) (Some ''Failed to fetch user preferences'') True)
       (validated safeParse UserPreferencesSchema ''Invalid preferences data'')"

definition updateUserPreferences :: "'d fetch \<Rightarrow> string \<Rightarrow> 'd jv \<Rightarrow> 'd api_error + 'd jv" where
  "updateUserPreferences fetch base preferences =
     bindE (checked fetch (json_request ''PATCH'' (base @ ''/user/prefs'') preferences)
       (Some ''Failed to update preferences'') True) (\<lambda>data. Inr JNull)"

subsection \<open>Markets and bets\<close>

definition decode_metadata :: "'d jv \<Rightarrow> metadata option" where
  "decode_metadata v = do {
     c \<leftarrow> as_int (obj_get ''currentPage'' v);
     s \<leftarrow> as_int (obj_get ''pageSize'' v);
     f \<leftarrow> as_int (obj_get ''firstPage'' v);
     l \<leftarrow> as_int (obj_get ''lastPage'' v);
     t \<leftarrow> as_int (obj_get ''totalRecords'' v);
     Some \<lparr>currentPage = c, pageSize = s, firstPage = f, lastPage = l, totalRecords = t\<rparr> }"

text \<open>An array of markets: every element is validated, and an exception of one of them is thrown.\<close>

fun market_array ::
    "('d jv \<Rightarrow> (issue list + 'd market_view) js) \<Rightarrow> 'd jv list \<Rightarrow> (issue list + 'd market_view list) js" where
  "market_array f [] = Inr (Inr [])"
| "market_array f (v # vs) =
     bindE (f v) (\<lambda>r. bindE (market_array f vs) (\<lambda>rs.
       Inr (case (r, rs) of
              (Inr m, Inr ms) \<Rightarrow> Inr (m # ms)
            | (Inl e, Inl es) \<Rightarrow> Inl (e @ es)
            | (Inl e, Inr _) \<Rightarrow> Inl e
            | (Inr _, Inl es) \<Rightarrow> Inl es)))"

definition MarketSearchResSchema ::
    "fpu \<Rightarrow> 'd decs \<Rightarrow> ('d schema \<Rightarrow> 'd jv \<Rightarrow> 'd zresult) \<Rightarrow> 'd jv \<Rightarrow>
     (issue list + 'd market_view list \<times> metadata) js" where
  "MarketSearchResSchema F X safeParse v =
     (case v of
        JObj _ \<Rightarrow>
          bindE (case obj_get ''markets'' v of
                   JArr vs \<Rightarrow> market_array (MarketViewSchema F X safeParse) vs
                 | _ \<Rightarrow> Inr (Inl [([''markets''], None)])) (\<lambda>ms.
            Inr (case (ms, safeParse MetadataSchema (obj_get ''metadata'' v)) of
                   (Inr ms', Inr md) \<Rightarrow>
                     (case decode_metadata md of Some d \<Rightarrow> Inr (ms', d) | None \<Rightarrow> Inl [([''metadata''], None)])
                 | (Inl es, _) \<Rightarrow> Inl es
                 | (_, Inl es) \<Rightarrow> Inl es))
      | _ \<Rightarrow> Inr (Inl [([], None)]))"

text \<open>The outcome of a validation whose transformation may throw.\<close>

definition parsed :: "string \<Rightarrow> (issue list + 'a) js \<Rightarrow> 'd api_error + 'a" where
  "parsed msg r =
     (case r of Inl e \<Rightarrow> Inl (Raised e) | Inr (Inl is) \<Rightarrow> Inl (Error msg) | Inr (Inr x) \<Rightarrow> Inr x)"

definition opt_param :: "string \<Rightarrow> string option \<Rightarrow> params" where
  "opt_param k v = (case v of None \<Rightarrow> [] | Some s \<Rightarrow> if s = [] then [] else [(k, s)])"

definition market_params :: "market_search \<Rightarrow> params" where
  "market_params search =
     opt_param ''query'' (ms_query search) @ opt_param ''categorySlug'' (ms_categorySlug search) @
     [(''sort'', show_sort (ms_sort search))] @ opt_param ''status'' (map_option show_status (ms_status search)) @
     [(''pageSize'', show_int (ms_pageSize search)), (''page'', show_int (ms_page search))]"

definition search_request :: "string \<Rightarrow> market_search \<Rightarrow> 'd request" where
  "search_request base search =
     included (get_request (base @ ''/market/search?'' @ params_toString (market_params search)))"

definition searchMarket ::
    "'d fetch \<Rightarrow> string \<Rightarrow> fpu \<Rightarrow> 'd decs \<Rightarrow> ('d schema \<Rightarrow> 'd jv \<Rightarrow> 'd zresult) \<Rightarrow> market_search \<Rightarrow>
     'd api_error + 'd market_view list \<times> metadata" where
  "searchMarket fetch base F X safeParse search =
     bindE (checked fetch (search_request base search) (Some ''Failed to search markets'') True) (\<lambda>data.
       parsed ''Invalid market search data'' (MarketSearchResSchema F X safeParse data))"

definition CategoriesResponseSchema :: "'d schema" where
  "CategoriesResponseSchema = ZArray CategorySchema"

definition getFeaturedCategories ::
    "'d fetch \<Rightarrow> string \<Rightarrow> ('d schema \<Rightarrow> 'd jv \<Rightarrow> 'd zresult) \<Rightarrow> 'd api_error + 'd jv" where
  "getFeaturedCategories fetch base safeParse =
     bindE (checked fetch ((get_request (base @ ''/market/categories/featured''))\<lparr>req_cache := Some ''force-cache''\<rparr>)
       (Some ''Failed to fetch categories'') True)
       (validated safeParse CategoriesResponseSchema ''Invalid categories data'')"

definition getMarketById ::
    "'d fetch \<Rightarrow> string \<Rightarrow> fpu \<Rightarrow> 'd decs \<Rightarrow> ('d schema \<Rightarrow> 'd jv \<Rightarrow> 'd zresult) \<Rightarrow> string \<Rightarrow>
     'd api_error + 'd market_view" where
  "getMarketById fetch base F X safeParse marketId =
     bindE (checked fetch (get_request (base @ ''/market/search/'' @ marketId)) (Some ''Failed to fetch market'') True)
       (\<lambda>data. parsed ''Invalid market data'' (MarketViewSchema F X safeParse data))"

fun show_currency :: "currency \<Rightarrow> string" where
  "show_currency USDT = ''USDT''"

definition getBalance ::
    "'d fetch \<Rightarrow> string \<Rightarrow> 'd decs \<Rightarrow> ('d schema \<Rightarrow> 'd jv \<Rightarrow> 'd zresult) \<Rightarrow> currency \<Rightarrow> 'd api_error + 'd jv" where
  "getBalance fetch base X safeParse cur =
     bindE (checked fetch (included (get_request (base @ ''/user/balance/'' @ show_currency cur)))
       (Some ''Failed to fetch balance'') True)
       (validated safeParse (BalanceSchema X) ''Invalid balance data'')"

definition postBet :: "'d fetch \<Rightarrow> string \<Rightarrow> 'd jv \<Rightarrow> 'd api_error + 'd jv" where
  "postBet fetch base placeBet =
     bindE (checked fetch (json_request ''POST'' (base @ ''/market/bet'') placeBet) (Some ''Failed to place bet'') True)
       (\<lambda>data. Inr JNull)"

definition getUserProfile ::
    "'d fetch \<Rightarrow> string \<Rightarrow> 'd decs \<Rightarrow> ('d schema \<Rightarrow> 'd jv \<Rightarrow> 'd zresult) \<Rightarrow> string \<Rightarrow> 'd api_error + 'd jv" where
  "getUserProfile fetch base X safeParse username =
     bindE (checked fetch (get_request (base @ ''/user/profile/'' @ username)) (Some ''Failed to fetch user profile'') False)
       (validated safeParse (UserProfileSchema X) ''Invalid user profile data'')"

definition bet_params :: "bet_search \<Rightarrow> params" where
  "bet_params search =
     opt_param ''status'' (map_option show_bet_filter (bs_status search)) @ opt_param ''marketId'' (bs_marketId search) @
     [(''sort'', show_bet_sort (bs_sort search)), (''sortDir'', if bs_ascending search then ''asc'' else ''desc''),
      (''pageSize'', show_int (bs_pageSize search)), (''page'', show_int (bs_page search))]"

definition getUserBets ::
    "'d fetch \<Rightarrow> string \<Rightarrow> 'd decs \<Rightarrow> ('d schema \<Rightarrow> 'd jv \<Rightarrow> 'd zresult) \<Rightarrow> bet_search \<Rightarrow> 'd api_error + 'd jv" where
  "getUserBets fetch base X safeParse search =
     bindE (checked fetch (included (get_request (base @ ''/my/bets?'' @ params_toString (bet_params search))))
       (Some ''Failed to fetch user bets'') True)
       (validated safeParse (UserBetsResSchema X) ''Invalid user bets data'')"

definition cashoutBet :: "'d fetch \<Rightarrow> string \<Rightarrow> 'd jv \<Rightarrow> 'd api_error + 'd jv" where
  "cashoutBet fetch base cashout =
     bindE (checked fetch (json_request ''POST'' (base @ ''/market/cashout'') cashout) (Some ''Failed to cashout bet'') True)
       (\<lambda>data. Inr JNull)"

subsection \<open>Comments\<close>

definition CommentsResSchema :: "'d decs \<Rightarrow> 'd schema" where
  "CommentsResSchema X = ZObject [(''comments'', ZArray (CommentSchema X)), (''metadata'', MetadataSchema)]"

definition comment_params :: "comment_search \<Rightarrow> params" where
  "comment_params search =
     [(''marketId'', cs_marketId search)] @
     (case cs_parentId search of None \<Rightarrow> [] | Some p \<Rightarrow> if p = 0 then [] else [(''parentId'', show_int p)]) @
     [(''page'', show_int (cs_page search)), (''pageSize'', show_int (cs_pageSize search))]"

definition getComments ::
    "'d fetch \<Rightarrow> string \<Rightarrow> 'd decs \<Rightarrow> ('d schema \<Rightarrow> 'd jv \<Rightarrow> 'd zresult) \<Rightarrow> comment_search \<Rightarrow> 'd api_error + 'd jv" where
  "getComments fetch base X safeParse search =
     bindE (checked fetch (included (get_request (base @ ''/comments?'' @ params_toString (comment_params search))))
       (Some ''Failed to fetch comments'') True)
       (validated safeParse (CommentsResSchema X) ''Invalid comments data'')"

definition postComment :: "'d fetch \<Rightarrow> string \<Rightarrow> 'd jv \<Rightarrow> 'd api_error + 'd jv" where
  "postComment fetch base req =
     bindE (checked fetch (json_request ''POST'' (base @ ''/comments'') req) (Some ''Failed to post comment'') True)
       (\<lambda>data. Inr JNull)"

definition postLike :: "'d fetch \<Rightarrow> string \<Rightarrow> 'd jv \<Rightarrow> 'd api_error + 'd jv" where
  "postLike fetch base req =
     bindE (checked fetch (json_request ''POST'' (base @ ''/comments/like'') req) (Some ''Failed to post comment'') True)
       (\<lambda>data. Inr JNull)"

definition deleteLike :: "'d fetch \<Rightarrow> string \<Rightarrow> 'd jv \<Rightarrow> 'd api_error + 'd jv" where
  "deleteLike fetch base req =
     bindE (checked fetch (json_request ''DELETE'' (base @ ''/comments/like'') req) (Some ''Failed to delete comment'') True)
       (\<lambda>data. Inr JNull)"

definition deleteComment :: "'d fetch \<Rightarrow> string \<Rightarrow> 'd jv \<Rightarrow> 'd api_error + 'd jv" where
  "deleteComment fetch base req =
     bindE (checked fetch (json_request ''DELETE'' (base @ ''/comments'') req) (Some ''Failed to delete comment'') True)
       (\<lambda>data. Inr JNull)"

definition reportComment :: "'d fetch \<Rightarrow> string \<Rightarrow> 'd jv \<Rightarrow> 'd api_error + 'd jv" where
  "reportComment fetch base req =
     bindE (checked fetch (json_request ''POST'' (base @ ''/comments/report'') req) (Some ''Failed to report comment'') True)
       (\<lambda>data. Inr JNull)"

subsection \<open>Outcomes of a call\<close>

lemma checked_ok:
  "checked fetch req dflt we = Inr v \<longleftrightarrow> (\<exists>r. fetch req = Some r \<and> ok r \<and> resp_body r = Some v)"
  by (auto simp: checked_def send_def json_def fail_with_def get_prop_def bindE_eq_Inr split: option.splits if_splits)

lemma checked_fails:
  "fetch req = None \<Longrightarrow> checked fetch req dflt we = Inl FetchFailed"
  "fetch req = Some r \<Longrightarrow> resp_body r = None \<Longrightarrow> checked fetch req dflt we = Inl (Raised SyntaxError)"
  "fetch req = Some r \<Longrightarrow> resp_body r = Some v \<Longrightarrow> \<not> ok r \<Longrightarrow> checked fetch req dflt we = fail_with dflt we v"
  by (simp_all add: checked_def send_def json_def)

lemma fail_with_object:
  "fail_with dflt we (JObj kvs) =
     Inl (APIError (case dflt of
                      None \<Rightarrow> obj_get ''message'' (JObj kvs)
                    | Some t \<Rightarrow> if truthy (obj_get ''message'' (JObj kvs)) then obj_get ''message'' (JObj kvs) else JStr t)
                   (if we then obj_get ''errors'' (JObj kvs) else JUndef))"
  by (simp add: fail_with_def get_prop_def)

text \<open>
  The requests that change something on the server, with the function that sends each, for given
  contents \<open>x\<close>.
\<close>

definition mutations :: "string \<Rightarrow> 'd jv \<Rightarrow> (('d fetch \<Rightarrow> 'd api_error + 'd jv) \<times> 'd request) list" where
  "mutations base x =
     [(\<lambda>f. register f base x, json_request ''POST'' (base @ ''/auth/register'') x),
      (\<lambda>f. login f base x, json_request ''POST'' (base @ ''/auth/login'') x),
      (\<lambda>f. completeProfile f base x, json_request ''POST'' (base @ ''/auth/complete-profile'') x),
      (\<lambda>f. changePassword f base x, json_request ''PATCH'' (base @ ''/auth/password/change'') x),
      (\<lambda>f. setPassword f base x, json_request ''POST'' (base @ ''/auth/password/set'') x),
      (\<lambda>f. updateUserPreferences f base x, json_request ''PATCH'' (base @ ''/user/prefs'') x),
      (\<lambda>f. postBet f base x, json_request ''POST'' (base @ ''/market/bet'') x),
      (\<lambda>f. cashoutBet f base x, json_request ''POST'' (base @ ''/market/cashout'') x),
      (\<lambda>f. postComment f base x, json_request ''POST'' (base @ ''/comments'') x),
      (\<lambda>f. postLike f base x, json_request ''POST'' (base @ ''/comments/like'') x),
      (\<lambda>f. deleteLike f base x, json_request ''DELETE'' (base @ ''/comments/like'') x),
      (\<lambda>f. deleteComment f base x, json_request ''DELETE'' (base @ ''/comments'') x),
      (\<lambda>f. reportComment f base x, json_request ''POST'' (base @ ''/comments/report'') x)]"

lemmas mutation_defs = register_def login_def completeProfile_def changePassword_def setPassword_def
  updateUserPreferences_def postBet_def cashoutBet_def postComment_def postLike_def deleteLike_def
  deleteComment_def reportComment_def

lemma mutation_checked:
  assumes "(op, req) \<in> set (mutations base x)"
  shows "\<exists>dflt. op = (\<lambda>f. bindE (checked f req dflt True) (\<lambda>d. Inr JNull))"
  using assms unfolding mutations_def mutation_defs
  by (simp only: list.set insert_iff empty_iff prod.inject) (elim disjE conjE, simp_all, blast+)



subsection \<open>Reading data\<close>

lemma validated_ok: "validated safeParse S msg data = Inr d \<longleftrightarrow> safeParse S data = Inr d"
  by (simp add: validated_def split: sum.split)

text \<open>
  Nobody is logged in exactly as the server says: with a JSON answer of status 401, or a good answer that is
  \<^verbatim>\<open>null\<close>, the user is \<^verbatim>\<open>null\<close>; a user that is returned has passed validation, and every other answer is an error.
\<close>

theorem getUser_result:
  assumes "zod E safeParse"
    and "fetch ((included (get_request (base @ ''/user/me'')))\<lparr>req_headers := [(''Cookie'', c # cs)]\<rparr>) = Some r"
    and "resp_body r = Some v"
  shows "(getUser fetch base X safeParse (Some (c # cs)) = Inr JNull \<longleftrightarrow> resp_status r = 401 \<or> ok r \<and> v = JNull) \<and>
         (\<forall>u. u \<noteq> JNull \<longrightarrow> (getUser fetch base X safeParse (Some (c # cs)) = Inr u \<longleftrightarrow>
            ok r \<and> safeParse (UserSchema X) v = Inr u))"
proof -
  have user: "getUser fetch base X safeParse (Some (c # cs)) =
      (if \<not> ok r then if resp_status r = 401 then Inr JNull else fail_with (Some ''Failed to fetch user'') False v
       else validated safeParse (UserResponseSchema X) ''Invalid user data'' v)"
    using assms(2,3) by (simp add: getUser_def send_def json_def)
  have "safeParse (UserSchema X) w \<noteq> Inr JNull" for w
    by (auto simp: UserSchema_def zod.object_ok [OF assms(1)] parsed_fields_def)
  moreover have "(\<exists>e. safeParse (UserSchema X) JNull = Inl e)"
    by (cases "safeParse (UserSchema X) JNull") (auto simp: UserSchema_def zod.object_ok [OF assms(1)])
  moreover have "fail_with d w v \<noteq> (Inr u :: 'a api_error + 'a jv)" for d w u
    by (simp add: fail_with_def get_prop_def)
  ultimately show ?thesis
    by (auto simp: user validated_ok UserResponseSchema_def zod.union_Cons [OF assms(1)] zod.union_Nil [OF assms(1)]
        zod.null_ok [OF assms(1)] ok_def)
qed

theorem getUser_result_witness:
  "getUser (\<lambda>req. Some \<lparr>resp_status = 401, resp_body = Some JNull\<rparr>) ''/api'' demo_decs (\<lambda>s. zparse s demo_env)
     (Some ''sid=1'') = Inr JNull"
proof -
  let ?r = "\<lparr>resp_status = 401, resp_body = Some JNull\<rparr> :: real response"
  have f: "(\<lambda>req. Some ?r) ((included (get_request (''/api'' @ ''/user/me'')))\<lparr>req_headers := [(''Cookie'', CHR ''s'' # ''id=1'')]\<rparr>)
      = Some ?r" by simp
  have b: "resp_body ?r = Some JNull" by simp
  from getUser_result [OF zref.zod_axioms f b, where X = demo_decs and E = demo_env] show ?thesis by simp
qed

lemma market_array_ok:
  "market_array f vs = Inr (Inr ms) \<longleftrightarrow> list_all2 (\<lambda>v m. f v = Inr (Inr m)) vs ms"
proof (induction vs arbitrary: ms)
  case (Cons v vs)
  show ?case
  proof
    assume "market_array f (v # vs) = Inr (Inr ms)"
    then obtain r rs where r: "f v = Inr r" "market_array f vs = Inr rs"
      and e: "(case (r, rs) of (Inr m, Inr ms) \<Rightarrow> Inr (m # ms) | (Inl e, Inl es) \<Rightarrow> Inl (e @ es)
                | (Inl e, Inr _) \<Rightarrow> Inl e | (Inr _, Inl es) \<Rightarrow> Inl es) = (Inr ms :: issue list + _)"
      by (auto simp: bindE_eq_Inr)
    from e obtain m ms' where "r = Inr m" "rs = Inr ms'" "ms = m # ms'"
      by (cases r; cases rs) auto
    with r Cons.IH show "list_all2 (\<lambda>v m. f v = Inr (Inr m)) (v # vs) ms" by simp
  next
    assume "list_all2 (\<lambda>v m. f v = Inr (Inr m)) (v # vs) ms"
    then obtain m ms' where "ms = m # ms'" "f v = Inr (Inr m)" "list_all2 (\<lambda>v m. f v = Inr (Inr m)) vs ms'"
      by (auto simp: list_all2_Cons1)
    moreover from this Cons.IH have "market_array f vs = Inr (Inr ms')" by simp
    ultimately show "market_array f (v # vs) = Inr (Inr ms)" by simp
  qed
qed auto

lemma market_array_throws:
  assumes "w \<in> set vs" and "f w = Inl TypeError" and "\<And>v e. v \<in> set vs \<Longrightarrow> f v = Inl e \<Longrightarrow> e = TypeError"
  shows "market_array f vs = Inl TypeError"
  using assms
proof (induction vs)
  case (Cons v vs)
  show ?case
  proof (cases "f v")
    case (Inl e)
    with Cons.prems(3) [of v e] show ?thesis by simp
  next
    case (Inr r)
    with Cons.prems have "w \<in> set vs" by auto
    with Cons have "market_array f vs = Inl TypeError" by auto
    with Inr show ?thesis by simp
  qed
qed simp

lemma MarketViewSchema_ok:
  assumes "MarketViewSchema F X safeParse v = Inr (Inr m)"
  shows "outcomes m \<noteq> []" and "isBinary m \<longleftrightarrow> length (outcomes m) = 2"
proof -
  obtain m0 where m0: "market_transform F X m0 = Inr m"
    using assms by (auto simp: MarketViewSchema_def bindE_eq_Inr split: sum.splits option.splits)
  then have ne: "outcomes m0 \<noteq> []" using market_transform_empty [of m0 F X] by auto
  obtain m' where "market_transform F X m0 = Inr m'" "length (outcomes m') = length (outcomes m0)"
    "isBinary m' \<longleftrightarrow> length (outcomes m') = 2"
    using market_transform_total [OF ne, of F X] by metis
  with m0 ne show "outcomes m \<noteq> []" "isBinary m \<longleftrightarrow> length (outcomes m) = 2" by auto
qed

lemma MarketViewSchema_throws:
  assumes "MarketViewSchema F X safeParse v = Inl e"
  shows "e = TypeError"
proof -
  obtain m0 where m0: "market_transform F X m0 = Inl e"
    using assms by (auto simp: MarketViewSchema_def bindE_def split: sum.splits option.splits)
  show ?thesis
  proof (cases "outcomes m0 = []")
    case False
    then obtain m' where "market_transform F X m0 = Inr m'" by (rule market_transform_total [of m0 F X])
    with m0 show ?thesis by simp
  qed (use m0 market_transform_empty [of m0 F X] in simp)
qed

lemma MarketSearchResSchema_ok:
  assumes "MarketSearchResSchema F X safeParse v = Inr (Inr (ms, md))"
  obtains vs d where "obj_get ''markets'' v = JArr vs" "safeParse MetadataSchema (obj_get ''metadata'' v) = Inr d"
    "decode_metadata d = Some md" "list_all2 (\<lambda>w m. MarketViewSchema F X safeParse w = Inr (Inr m)) vs ms"
proof -
  obtain kvs where v: "v = JObj kvs" using assms by (cases v) (auto simp: MarketSearchResSchema_def)
  let ?a = "case obj_get ''markets'' v of JArr vs \<Rightarrow> market_array (MarketViewSchema F X safeParse) vs
              | _ \<Rightarrow> Inr (Inl [([''markets''], None)])"
  obtain ams where a: "?a = Inr ams"
    and e: "(case (ams, safeParse MetadataSchema (obj_get ''metadata'' v)) of
               (Inr ms', Inr md) \<Rightarrow> (case decode_metadata md of Some d \<Rightarrow> Inr (ms', d) | None \<Rightarrow> Inl [([''metadata''], None)])
             | (Inl es, _) \<Rightarrow> Inl es | (_, Inl es) \<Rightarrow> Inl es) = (Inr (ms, md) :: issue list + _)"
    using assms by (auto simp: MarketSearchResSchema_def v bindE_eq_Inr)
  from e obtain d where d: "ams = Inr ms" "safeParse MetadataSchema (obj_get ''metadata'' v) = Inr d" "decode_metadata d = Some md"
    by (cases ams; cases "safeParse MetadataSchema (obj_get ''metadata'' v)") (auto split: option.splits)
  from a d(1) obtain vs where vs: "obj_get ''markets'' v = JArr vs" "market_array (MarketViewSchema F X safeParse) vs = Inr (Inr ms)"
    by (cases "obj_get ''markets'' v") auto
  with d that show thesis by (simp add: market_array_ok)
qed

lemma metadata_pages:
  assumes "zod E safeParse" and "safeParse MetadataSchema v = Inr d" and "decode_metadata d = Some md"
  shows "1 \<le> currentPage md" and "1 \<le> lastPage md" and "0 \<le> totalRecords md"
proof -
  have min: "k \<le> i" if "safeParse (ZNumber [IntCheck, Minimum k None]) u = Inr w" "as_int w = Some i" for u w k i
    using that by (auto simp: zod.number_ok [OF assms(1)] split: if_splits)
  note f = zod.fields_ok [OF assms(1) assms(2) [unfolded MetadataSchema_def], simplified]
  have *: "as_int (obj_get ''currentPage'' d) = Some (currentPage md)" "as_int (obj_get ''lastPage'' d) = Some (lastPage md)"
    "as_int (obj_get ''totalRecords'' d) = Some (totalRecords md)"
    using assms(3) by (auto simp: decode_metadata_def bind_eq_Some_conv)
  show "1 \<le> currentPage md" "1 \<le> lastPage md" "0 \<le> totalRecords md"
    using f * min by blast+
qed

lemma parsed_ok: "parsed msg r = Inr x \<longleftrightarrow> r = Inr (Inr x)"
  by (auto simp: parsed_def split: sum.splits)



end
