(* ===== verification/Odds.thy ===== *)
theory Odds
  imports LsLmsr JsString
begin

section \<open>Odds\<close>

text \<open>
  The presentation of probabilities: \<^verbatim>\<open>formatOdds\<close> and \<^verbatim>\<open>splitNumberLikeParts\<close> of
  \<^verbatim>\<open>src/frontend/seer/src/lib/odds.ts\<close>, \<^verbatim>\<open>gcd\<close> of \<^verbatim>\<open>lslmsr/math_util.ts\<close>, the conversions of
  \<^verbatim>\<open>ui/odds/AnimatedOdds.tsx\<close> and the direction of the arrow of \<^verbatim>\<open>ui/odds/ArrowOdds.tsx\<close>. The
  recursion of \<open>gcd_dec\<close> runs on \<^verbatim>\<open>Decimal\<close> values, so it is a partial function: that it returns
  is a theorem. \<open>pr\<close> prints the numbers that the language does not print as plain integers.
\<close>

subsection \<open>Definitions\<close>

partial_function (option) gcd_dec :: "'d dlib \<Rightarrow> 'd \<Rightarrow> 'd \<Rightarrow> 'd option" where
  "gcd_dec D a b = (if equals D b (dOfInt D 0) then Some a else gcd_dec D b (dMod D decimal_conf a b))"

datatype oddsFormat = OddsDecimal | OddsAmerican | OddsFractional | OddsPercent

text \<open>Conversion of a number to a string, as template literals do it.\<close>

definition show_num :: "(real \<Rightarrow> string) \<Rightarrow> num \<Rightarrow> string" where
  "show_num pr x =
     (case x of NaN \<Rightarrow> ''NaN'' | PInf \<Rightarrow> ''Infinity'' | NInf \<Rightarrow> ''-Infinity''
      | Fin r \<Rightarrow> if r = of_int \<lfloor>r\<rfloor> \<and> \<bar>r\<bar> < 10 ^ 21 then show_int \<lfloor>r\<rfloor> else pr r)"

definition dRound :: "'d dlib \<Rightarrow> 'd \<Rightarrow> 'd" where
  "dRound D x = toDecimalPlaces D x 0 (rounding_mode decimal_conf)"

text \<open>The reduced fraction of \<open>(1 / prob - 1) * maxDen\<close> and \<open>maxDen\<close>.\<close>

definition reduced_fraction :: "'d dlib \<Rightarrow> 'd \<Rightarrow> int \<Rightarrow> (num \<times> num) option" where
  "reduced_fraction D prob maxDen =
     (let f = dMinus D decimal_conf (dDiv D decimal_conf (dOfInt D 1) prob) (dOfInt D 1);
          num = dRound D (dMul D decimal_conf f (dOfInt D maxDen));
          den = dOfInt D maxDen
      in map_option (\<lambda>g0. let g = dAbs D g0
           in (toNumber D (dDiv D decimal_conf num g), toNumber D (dDiv D decimal_conf den g)))
         (gcd_dec D (dAbs D num) den))"

definition american_value :: "'d dlib \<Rightarrow> 'd \<Rightarrow> 'd" where
  "american_value D prob =
     (let c = decimal_conf; one = dOfInt D 1
      in if greaterThanOrEqualTo D prob (dNew D (Fin (1 / 2)))
         then dMul D c (dDiv D c prob (dMinus D c one prob)) (dOfInt D 100)
         else dMul D c (dDiv D c (dMinus D c one prob) prob) (dOfInt D 100))"

definition formatOdds :: "(real \<Rightarrow> string) \<Rightarrow> 'd dlib \<Rightarrow> 'd \<Rightarrow> oddsFormat \<Rightarrow> string option" where
  "formatOdds pr D prob fmt =
     (case fmt of
        OddsDecimal \<Rightarrow>
          Some (toFixed D decimal_conf
            (toDecimalPlaces D (dDiv D decimal_conf (dOfInt D 1) prob) 2 ROUND_DOWN) 2)
      | OddsAmerican \<Rightarrow>
          Some ((if greaterThanOrEqualTo D prob (dNew D (Fin (1 / 2))) then ''-'' else ''+'') @
            toFixed D decimal_conf (american_value D prob) 0)
      | OddsFractional \<Rightarrow>
          map_option (\<lambda>(n, d). show_num pr n @ ''/'' @ show_num pr d) (reduced_fraction D prob 100)
      | OddsPercent \<Rightarrow>
          Some (toFixed D decimal_conf
            (toDecimalPlaces D (dMul D decimal_conf prob (dOfInt D 100)) 0 ROUND_UP) 0 @ ''%''))"

record odd_part =
  part :: string
  isNumber :: bool

definition digit_like :: "char \<Rightarrow> bool" where
  "digit_like c \<longleftrightarrow> is_digit c \<or> c = CHR ''.'' \<or> c = CHR '','' \<or> c = CHR ''-'' \<or> c = CHR ''+''"

fun split_loop :: "string \<Rightarrow> odd_part list \<Rightarrow> string \<Rightarrow> bool \<Rightarrow> odd_part list" where
  "split_loop [] parts currentPart numberLike =
     (if currentPart \<noteq> [] then parts @ [\<lparr>part = currentPart, isNumber = numberLike\<rparr>] else parts)"
| "split_loop (c # cs) parts currentPart numberLike =
     (if currentPart = [] then split_loop cs parts (currentPart @ [c]) (digit_like c)
      else if digit_like c = numberLike then split_loop cs parts (currentPart @ [c]) numberLike
      else split_loop cs (parts @ [\<lparr>part = currentPart, isNumber = numberLike\<rparr>]) [c] (digit_like c))"

definition splitNumberLikeParts :: "string \<Rightarrow> odd_part list" where
  "splitNumberLikeParts formattedOdd = split_loop formattedOdd [] [] False"

subsubsection \<open>The animated display\<close>

definition toDecimalOdds :: "'d dlib \<Rightarrow> 'd \<Rightarrow> num" where
  "toDecimalOdds D p =
     (if lessThanOrEqualTo D p (dOfInt D 0) then Fin 0
      else toNumber D (toDecimalPlaces D (dDiv D decimal_conf (dOfInt D 1) p) 2 ROUND_DOWN))"

definition toPercent :: "'d dlib \<Rightarrow> 'd \<Rightarrow> num" where
  "toPercent D p =
     (if lessThanOrEqualTo D p (dOfInt D 0) then Fin 0
      else toNumber D (toDecimalPlaces D p 2 (rounding_mode decimal_conf)))"

definition toAmerican :: "'d dlib \<Rightarrow> 'd \<Rightarrow> char \<times> num" where
  "toAmerican D p =
     (if lessThanOrEqualTo D p (dOfInt D 0) then (CHR ''+'', Fin 0)
      else ((if greaterThanOrEqualTo D p (dNew D (Fin (1 / 2))) then CHR ''-'' else CHR ''+''),
            toNumber D (toDecimalPlaces D (american_value D p) 0 (rounding_mode decimal_conf))))"

definition toFraction :: "'d dlib \<Rightarrow> 'd \<Rightarrow> int \<Rightarrow> (num \<times> num) option" where
  "toFraction D p maxDen =
     (if lessThanOrEqualTo D p (dOfInt D 0) then Some (Fin 0, Fin 1) else reduced_fraction D p maxDen)"

text \<open>What \<^verbatim>\<open>AnimatedOdds\<close> shows: the animated numbers with the style they are printed in.\<close>

datatype odds_view =
    FlowDecimal num
  | FlowPercent num
  | FlowAmerican char num
  | FlowFraction num num

definition AnimatedOdds :: "'d dlib \<Rightarrow> 'd \<Rightarrow> oddsFormat \<Rightarrow> odds_view option" where
  "AnimatedOdds D prob fmt =
     (case fmt of
        OddsDecimal \<Rightarrow> Some (FlowDecimal (toDecimalOdds D prob))
      | OddsPercent \<Rightarrow> Some (FlowPercent (toPercent D prob))
      | OddsAmerican \<Rightarrow> Some (case toAmerican D prob of (sign, v) \<Rightarrow> FlowAmerican sign v)
      | OddsFractional \<Rightarrow> map_option (\<lambda>(n, d). FlowFraction n d) (toFraction D prob 100))"

datatype arrow_direction = ArrowUp | ArrowDown

record 'd arrow_state =
  prevProb :: 'd
  direction :: "arrow_direction option"

text \<open>The effect of \<^verbatim>\<open>ArrowOdds\<close> on a new probability, and the end of the arrow's animation.\<close>

definition arrow_effect :: "'d dlib \<Rightarrow> 'd \<Rightarrow> 'd arrow_state \<Rightarrow> 'd arrow_state" where
  "arrow_effect D prob s =
     s\<lparr>direction := (if lessThan D prob (prevProb s) then Some ArrowUp
                     else if lessThan D (prevProb s) prob then Some ArrowDown
                     else direction s),
       prevProb := prob\<rparr>"

definition arrow_complete :: "'d arrow_state \<Rightarrow> 'd arrow_state" where
  "arrow_complete s = s\<lparr>direction := None\<rparr>"

text \<open>A part of one kind, for the specification of the splitting.\<close>

definition homogeneous :: "odd_part \<Rightarrow> bool" where
  "homogeneous x \<longleftrightarrow> part x \<noteq> [] \<and> list_all (\<lambda>c. digit_like c = isNumber x) (part x)"

subsection \<open>The greatest common divisor\<close>

lemma floor_div_nat: "n \<noteq> 0 \<Longrightarrow> round_int ROUND_DOWN (real m / real n) = int (m div n)"
  by (simp add: round_int_down_floor floor_divide_of_nat_eq zdiv_int)

context decimal_js
begin

lemma mod_nat:
  assumes "fin a" "fin b" "val a = real m" "val b = real n" "n \<noteq> 0" "n < 10 ^ 12"
  shows "fin (dMod D decimal_conf a b) \<and> val (dMod D decimal_conf a b) = real (m mod n)"
proof -
  have "int m = int n * int (m div n) + int (m mod n)" by (simp flip: of_nat_mult of_nat_add)
  then have "real m = real n * real (m div n) + real (m mod n)" by (metis of_int_add of_int_mult of_int_of_nat_eq)
  then have "real m - real n * of_int (int (m div n)) = real_of_int (int (m mod n))" by simp
  moreover have "m mod n < 10 ^ 12" using assms(5,6) mod_less_divisor [of n m] by linarith
  then have "\<bar>int (m mod n)\<bar> < 10 ^ 12" by simp
  ultimately show ?thesis
    using modulo [OF assms(1,2), of decimal_conf] assms(3-5) round_sig_of_int [of "int (m mod n)" 12]
    by (simp add: floor_div_nat decimal_conf_def)
qed

lemma gcd_dec_nat:
  "fin a \<Longrightarrow> fin b \<Longrightarrow> val a = real m \<Longrightarrow> val b = real n \<Longrightarrow> m < 10 ^ 12 \<Longrightarrow> n < 10 ^ 12 \<Longrightarrow>
   \<exists>g. gcd_dec D a b = Some g \<and> fin g \<and> val g = real (gcd m n)"
proof (induction m n arbitrary: a b rule: gcd_nat.induct)
  case (1 m n)
  show ?case
  proof (cases "n = 0")
    case True
    with 1 show ?thesis by (subst gcd_dec.simps) (simp add: equals of_int)
  next
    case False
    let ?r = "dMod D decimal_conf a b"
    from False 1 have r: "fin ?r" "val ?r = real (m mod n)" using mod_nat by blast+
    moreover have "m mod n < 10 ^ 12" using False 1 mod_less_divisor [of n m] by linarith
    ultimately obtain g where "gcd_dec D b ?r = Some g" "fin g" "val g = real (gcd n (m mod n))"
      using 1(1) [OF False 1(3) r(1) 1(5) r(2) 1(7)] by blast
    moreover have "gcd_dec D a b = gcd_dec D b ?r"
      using False 1 by (subst gcd_dec.simps) (simp add: equals of_int)
    ultimately show ?thesis by (metis gcd_red_nat)
  qed
qed

lemma toNumber_nat:
  assumes "fin a" "fin b" "val a = real (k * g)" "val b = real g" "g \<noteq> 0" "k < 10 ^ 12"
  shows "toNumber D (dDiv D decimal_conf a b) = Fin (real k)"
proof -
  have "val a / val b = of_int (int k)" using assms by simp
  moreover have "\<bar>int k\<bar> < 10 ^ 12" "\<bar>int k\<bar> \<le> 2 ^ 53" using assms(6) by simp_all
  ultimately show ?thesis
    using div [OF assms(1,2), of decimal_conf] assms(4,5) round_sig_of_int [of "int k" 12]
      toNumber_int [of "dDiv D decimal_conf a b" "int k"]
    by (simp add: decimal_conf_def)
qed

text \<open>The rounding errors of the three operations before the fraction is reduced.\<close>

lemma odds_numerator:
  assumes "fin p" and "1 / 10 ^ 6 \<le> val p" and "val p \<le> 1"
  defines "f \<equiv> dMinus D decimal_conf (dDiv D decimal_conf (dOfInt D 1) p) (dOfInt D 1)"
  defines "num \<equiv> dRound D (dMul D decimal_conf f (dOfInt D 100))"
  obtains K where "fin num" "val num = real K" "K < 10 ^ 12"
    "real K / 100 \<le> 1 / val p - 1" "1 / val p - 1 - 1 / 50 < real K / 100"
proof -
  let ?r = "round_sig ROUND_DOWN 12" and ?e = "1 - 1 / 10 ^ 11 :: real" and ?x = "1 / val p"
  define y where "y = ?r ?x"
  define z where "z = ?r (?r (y - 1) * 100)"
  have x: "1 \<le> ?x" "?x \<le> 10 ^ 6" using assms(2,3) by (simp_all add: field_simps)
  have rel: "v * ?e \<le> ?r v \<and> 0 \<le> ?r v \<and> ?r v \<le> v" if "0 \<le> v" for v
    using round_sig_down_nonneg [OF that, of 12] round_sig_down_pos [of v 12] that
    by (cases "v = 0") (auto simp: round_sig_def)
  have "0 < val p" using assms(2) by (rule less_le_trans [rotated]) simp
  then have y: "1 \<le> y" "y \<le> ?x" "?x * ?e \<le> y"
    using round_sig_down_ge_int [of 1 ?x 12] rel [of ?x] x unfolding y_def by auto
  have f: "0 \<le> ?r (y - 1)" "?r (y - 1) \<le> y - 1" "(y - 1) * ?e \<le> ?r (y - 1)"
    using rel [of "y - 1"] y by auto
  have z: "0 \<le> z" "z \<le> ?r (y - 1) * 100" "?r (y - 1) * 100 * ?e \<le> z"
    using rel [of "?r (y - 1) * 100"] f unfolding z_def by auto
  define K where "K = nat \<lfloor>z\<rfloor>"
  have K: "real K \<le> z" "z < real K + 1" using z(1) unfolding K_def by linarith+
  have "val p \<noteq> 0" using assms(2) by auto
  then have vf: "fin f \<and> val f = ?r (y - 1)"
    using div [of "dOfInt D 1" p decimal_conf] minus of_int assms(1) unfolding f_def y_def
    by (simp add: decimal_conf_def)
  have vnum: "fin num \<and> val num = real K"
    using vf mul [of f "dOfInt D 100" decimal_conf] of_int places z(1) unfolding num_def dRound_def K_def
    by (simp add: z_def decimal_conf_def round_dp_def round_int_down_floor)
  have up: "real K / 100 \<le> ?x - 1" using K z f y by (simp add: field_simps)
  have small: "v - 2 / 10 ^ 5 \<le> v * ?e" if "v \<le> 10 ^ 6" for v using that by (simp add: field_simps)
  have "?x - 1 - 2 / 10 ^ 5 \<le> y - 1" using small [of ?x] x y by simp
  moreover have "y - 1 - 2 / 10 ^ 5 \<le> ?r (y - 1)" using small [of "y - 1"] x y f by simp
  moreover have "?r (y - 1) - 2 / 10 ^ 5 \<le> z / 100" using small [of "?r (y - 1)"] x y f z by simp
  ultimately have low: "?x - 1 - 1 / 50 < real K / 100" using K by (simp add: field_simps)
  have "real K < real (10 ^ 12)" using up x by simp
  then have "K < 10 ^ 12" by (simp only: of_nat_less_iff)
  with that vnum up low show thesis by blast
qed

lemma reduced_fraction_100:
  assumes "fin p" and "1 / 10 ^ 6 \<le> val p" and "val p \<le> 1"
  shows "\<exists>n d. reduced_fraction D p 100 = Some (Fin (real n), Fin (real d)) \<and> coprime n d \<and> d dvd 100 \<and>
    n < 10 ^ 12 \<and> real n / real d \<le> 1 / val p - 1 \<and> 1 / val p - 1 - 1 / 50 < real n / real d"
proof -
  let ?f = "dMinus D decimal_conf (dDiv D decimal_conf (dOfInt D 1) p) (dOfInt D 1)"
  let ?num = "dRound D (dMul D decimal_conf ?f (dOfInt D 100))"
  obtain K where K: "fin ?num" "val ?num = real K" "K < 10 ^ 12"
    "real K / 100 \<le> 1 / val p - 1" "1 / val p - 1 - 1 / 50 < real K / 100"
    by (rule odds_numerator [OF assms])
  have absK: "fin (dAbs D ?num) \<and> val (dAbs D ?num) = real K" using abs [OF K(1)] K(2) by simp
  obtain g where g: "gcd_dec D (dAbs D ?num) (dOfInt D 100) = Some g" "fin g" "val g = real (gcd K 100)"
    using gcd_dec_nat [of "dAbs D ?num" "dOfInt D 100" K 100] absK K(3) of_int by auto
  let ?g = "gcd K 100" and ?n = "K div gcd K 100" and ?d = "100 div gcd K 100"
  have absg: "fin (dAbs D g)" "val (dAbs D g) = real ?g" using abs [OF g(2)] g(3) by simp_all
  have nd: "?n * ?g = K" "?d * ?g = 100" "?g \<noteq> 0" by simp_all
  have lt: "?n < 10 ^ 12" using K(3) div_le_dividend [of K ?g] by linarith
  have ltd: "?d < 10 ^ 12" by (rule le_less_trans [OF div_le_dividend]) simp
  have "toNumber D (dDiv D decimal_conf ?num (dAbs D g)) = Fin (real ?n)"
    by (rule toNumber_nat [OF K(1) absg(1) _ absg(2) nd(3) lt]) (simp only: K(2) nd(1))
  moreover have "toNumber D (dDiv D decimal_conf (dOfInt D 100) (dAbs D g)) = Fin (real ?d)"
    by (rule toNumber_nat [OF of_int(1) absg(1) _ absg(2) nd(3) ltd]) (simp add: of_int nd)
  ultimately have "reduced_fraction D p 100 = Some (Fin (real ?n), Fin (real ?d))"
    using g(1) by (simp add: reduced_fraction_def Let_def)
  moreover have "coprime ?n ?d" by (rule div_gcd_coprime) simp
  moreover have "?d dvd 100" using nd(2) dvd_triv_left by metis
  moreover have "real ?n / real ?d = real K / 100" using nd by (simp add: real_of_nat_div)
  ultimately show ?thesis using K lt by (metis (no_types, lifting))
qed

end

subsection \<open>Printing\<close>

lemma show_num_nat [simp]: "n < 10 ^ 21 \<Longrightarrow> show_num pr (Fin (real n)) = show_nat n"
proof -
  assume "n < 10 ^ 21"
  then have "real n < real (10 ^ 21)" by (simp only: of_nat_less_iff)
  then show ?thesis by (simp add: show_num_def show_int_def)
qed

lemma ceiling_tenth: "\<lceil>real k / 10\<rceil> = int ((k + 9) div 10)"
proof -
  define u where "u = (k + 9) div 10"
  have "10 * u \<le> k + 9" unfolding u_def by (rule times_div_less_eq_dividend)
  moreover have "k + 9 < 10 + 10 * u" unfolding u_def by (rule dividend_less_times_div) simp
  ultimately have "10 * real u < real k + 10" "real k \<le> 10 * real u" by linarith+
  then show ?thesis unfolding u_def [symmetric] by (simp add: ceiling_eq_iff)
qed

lemma fixed_str_nat [simp]: "fixed_str 0 False (real n) = show_nat n"
  by (simp add: fixed_str_def)

context decimal_exact
begin

lemma percent_text:
  assumes "fin p" and "val p = real k / 1000" and "k \<le> 1000"
  shows "formatOdds pr D p OddsPercent = Some (show_nat ((k + 9) div 10) @ ''%'')"
proof -
  let ?m = "dMul D decimal_conf p (dOfInt D 100)" and ?u = "(k + 9) div 10"
  have "\<bar>int k\<bar> < 10 ^ 12" using assms(3) by simp
  then have m: "fin ?m \<and> val ?m = real k / 10"
    using mul [OF assms(1) of_int(1) [of 100], of decimal_conf] of_int round_sig_decimal [of "int k" 12 ROUND_DOWN 1] assms(2)
    by (simp add: decimal_conf_def)
  have "round_dp ROUND_UP 0 (real k / 10) = real ?u"
    by (simp add: round_dp_def round_int_def round_mag_def ceiling_tenth)
  with m have "fin (toDecimalPlaces D ?m 0 ROUND_UP) \<and> val (toDecimalPlaces D ?m 0 ROUND_UP) = real ?u"
    using places [of ?m 0 ROUND_UP] by metis
  then show ?thesis
    using toFixed by (simp add: formatOdds_def decimal_conf_def round_dp_def round_int_of_int [of _ "int n" for n, simplified])
qed

lemma percent_animated:
  assumes "fin p" and "val p = real k / 1000" and "0 < k"
  shows "AnimatedOdds D p OddsPercent = Some (FlowPercent (Fin (real (k div 10) / 100)))"
proof -
  have "real k / 1000 * 10 ^ 2 = real k / real 10" by simp
  then have "round_dp ROUND_DOWN 2 (real k / 1000) = real (k div 10) / 100"
    by (simp only: round_dp_def floor_div_nat) simp
  then have "fin (toDecimalPlaces D p 2 ROUND_DOWN) \<and> val (toDecimalPlaces D p 2 ROUND_DOWN) = real (k div 10) / 100"
    using places [OF assms(1)] assms(2) by simp
  then show ?thesis
    using assms of_int by (simp add: AnimatedOdds_def toPercent_def lessThanOrEqualTo_iff decimal_conf_def toNumber_exact)
qed

end

subsection \<open>Splitting a formatted value\<close>

lemma split_loop_text:
  "concat (map part (split_loop s parts cur b)) = concat (map part parts) @ cur @ s"
  by (induction s parts cur b rule: split_loop.induct) auto

lemma split_loop_parts:
  "list_all homogeneous parts \<Longrightarrow> list_all (\<lambda>c. digit_like c = b) cur \<Longrightarrow>
   successively (\<lambda>x y. isNumber x \<noteq> isNumber y) parts \<Longrightarrow>
   (parts \<noteq> [] \<longrightarrow> cur \<noteq> [] \<and> isNumber (last parts) \<noteq> b) \<Longrightarrow>
   list_all homogeneous (split_loop s parts cur b) \<and>
   successively (\<lambda>x y. isNumber x \<noteq> isNumber y) (split_loop s parts cur b)"
proof (induction s parts cur b rule: split_loop.induct)
  case (1 parts cur b)
  then show ?case by (auto simp: successively_append_iff homogeneous_def)
next
  case (2 c cs parts cur b)
  show ?case
  proof (cases "cur = []")
    case True
    with 2 show ?thesis by simp
  next
    case False
    with 2 show ?thesis
      by (cases "digit_like c = b") (auto simp: successively_append_iff homogeneous_def)
  qed
qed

subsection \<open>Properties\<close>



text \<open>
  The two displays of a percentage disagree: for a probability of \<open>k\<close> thousandths
  \<^verbatim>\<open>formatOdds\<close> rounds up to the next whole percentage and the animated display truncates, so they
  differ by one whenever \<open>k\<close> is not a multiple of ten.
\<close>

theorem percent_displays:
  assumes "decimal_exact D val fin" and "fin p" and "val p = real k / 1000" and "0 < k" and "k \<le> 1000"
  shows "formatOdds pr D p OddsPercent = Some (show_nat (k div 10 + (if k mod 10 = 0 then 0 else 1)) @ ''%'') \<and>
    AnimatedOdds D p OddsPercent = Some (FlowPercent (Fin (real (k div 10) / 100)))"
proof -
  have "(r + 9) div 10 = (if r = 0 then 0 else 1)" if "r < 10" for r :: nat
    using that by (simp add: div_nat_eqI)
  from this [of "k mod 10"] have "(10 * (k div 10) + (k mod 10 + 9)) div 10 = k div 10 + (if k mod 10 = 0 then 0 else 1)"
    by (subst div_mult_self4) simp_all
  then have "(k + 9) div 10 = k div 10 + (if k mod 10 = 0 then 0 else 1)"
    by (simp only: add.assoc [symmetric] mult_div_mod_eq)
  with decimal_exact.percent_text [OF assms(1-3,5)] decimal_exact.percent_animated [OF assms(1-4)]
  show ?thesis by simp
qed

theorem percent_displays_witness:
  "formatOdds (\<lambda>_. []) real_lib (505 / 1000) OddsPercent = Some ''51%'' \<and>
   AnimatedOdds real_lib (505 / 1000) OddsPercent = Some (FlowPercent (Fin (50 / 100)))"
proof -
  have "show_nat 51 = ''51''" by code_simp
  with percent_displays [OF real_lib_decimal, of "505 / 1000" 505 "\<lambda>_. []"] show ?thesis by simp
qed

text \<open>
  Splitting a formatted value loses nothing: the parts put together are the value, every part is
  nonempty and all number-like or all not, and neighbouring parts differ in kind.
\<close>

theorem splitNumberLikeParts_roundtrip:
  "concat (map part (splitNumberLikeParts s)) = s \<and> list_all homogeneous (splitNumberLikeParts s) \<and>
   successively (\<lambda>x y. isNumber x \<noteq> isNumber y) (splitNumberLikeParts s)"
  using split_loop_text [of s "[]" "[]" False] split_loop_parts [of "[]" False "[]" s]
  by (simp add: splitNumberLikeParts_def)

end
