(* ===== verification/Stores.thy ===== *)
theory Stores
  imports Messages Odds
begin

section \<open>The client-side stores\<close>

text \<open>
  The state of \<^verbatim>\<open>src/frontend/seer/src/lib/stores\<close>, one record per store and one function per
  action: the feeds of latest and high bets, the chats, the drawer and the modal, the number of
  users online and the preferences. The two bet feeds share one action on a bounded feed. Every feed
  keeps the newest entries first, never more than its limit, and a parity that flips with every entry;
  the locale \<open>bounded_feed\<close> is that contract, proved once and interpreted for both kinds of feed.
\<close>

subsection \<open>Definitions\<close>

record 'd bet_store =
  latestBets :: "'d bet_update list"
  latestParity :: nat
  highBets :: "'d bet_update list"
  highParity :: nat

definition bet_store_init :: "'d bet_store" where
  "bet_store_init = \<lparr>latestBets = [], latestParity = 0, highBets = [], highParity = 0\<rparr>"

definition addLatestBet :: "'d bet_update \<Rightarrow> 'd bet_store \<Rightarrow> 'd bet_store" where
  "addLatestBet bet s =
     s\<lparr>latestBets := slice2 0 10 (bet # latestBets s), latestParity := (latestParity s + 1) mod 2\<rparr>"

definition addHighBet :: "'d bet_update \<Rightarrow> 'd bet_store \<Rightarrow> 'd bet_store" where
  "addHighBet bet s =
     s\<lparr>highBets := slice2 0 10 (bet # highBets s), highParity := (highParity s + 1) mod 2\<rparr>"

definition MAX_MESSAGES_PER_CHAT :: nat where
  "MAX_MESSAGES_PER_CHAT = 20"

record chat_log =
  messages :: "chat_message list"
  parity :: nat

type_synonym chat_store = "string \<rightharpoonup> chat_log"

definition addChatMessage :: "chat_message \<Rightarrow> chat_store \<Rightarrow> chat_store" where
  "addChatMessage message chats =
     (let slug = chatSlug message;
          log = (case chats slug of None \<Rightarrow> \<lparr>messages = [], parity = 0\<rparr> | Some l \<Rightarrow> l);
          chatMessages = message # messages log;
          kept = (if length chatMessages > MAX_MESSAGES_PER_CHAT then butlast chatMessages else chatMessages)
      in chats(slug \<mapsto> \<lparr>messages = kept, parity = (parity log + 1) mod 2\<rparr>))"

datatype drawer_type = DrawerChat | DrawerBet | DrawerBetSuccess

record 'a drawer_store =
  currentDrawer :: "drawer_type option"
  drawerData :: "'a option"

definition openDrawer :: "drawer_type option \<Rightarrow> 'a option \<Rightarrow> 'a drawer_store \<Rightarrow> 'a drawer_store" where
  "openDrawer drawer data s = s\<lparr>currentDrawer := drawer, drawerData := data\<rparr>"

definition closeDrawer :: "'a drawer_store \<Rightarrow> 'a drawer_store" where
  "closeDrawer s = s\<lparr>currentDrawer := None, drawerData := None\<rparr>"

datatype modal_type =
    ModalAuth
  | ModalProfileCompletion
  | ModalChangePassword
  | ModalSetPassword
  | ModalUser
  | ModalBet
  | ModalBetSuccess

record 'a modal_store =
  currentModal :: "modal_type option"
  modalData :: "'a option"

definition openModal :: "modal_type option \<Rightarrow> 'a option \<Rightarrow> 'a modal_store \<Rightarrow> 'a modal_store" where
  "openModal modal data s = s\<lparr>currentModal := modal, modalData := data\<rparr>"

definition closeModal :: "'a modal_store \<Rightarrow> 'a modal_store" where
  "closeModal s = s\<lparr>currentModal := None, modalData := None\<rparr>"

record online_store =
  onlineCount :: int

definition updateOnlineCount :: "online_update \<Rightarrow> online_store \<Rightarrow> online_store" where
  "updateOnlineCount u s = s\<lparr>onlineCount := usersOnlineCount u\<rparr>"

record prefs_store =
  oddsFormat :: oddsFormat

definition prefs_init :: prefs_store where
  "prefs_init = \<lparr>oddsFormat = OddsDecimal\<rparr>"

definition setOddsFormat :: "oddsFormat \<Rightarrow> prefs_store \<Rightarrow> prefs_store" where
  "setOddsFormat fmt s = s\<lparr>oddsFormat := fmt\<rparr>"

text \<open>The hook \<^verbatim>\<open>useOdds\<close>: formatting with the preferred format.\<close>

definition useOdds_format :: "(real \<Rightarrow> string) \<Rightarrow> 'd dlib \<Rightarrow> prefs_store \<Rightarrow> 'd \<Rightarrow> string option" where
  "useOdds_format pr D s prob = formatOdds pr D prob (oddsFormat s)"

text \<open>The two actions of the bet store as events, and the reading of a chat.\<close>

datatype 'd bet_event = Latest "'d bet_update" | High "'d bet_update"

fun bet_step :: "'d bet_event \<Rightarrow> 'd bet_store \<Rightarrow> 'd bet_store" where
  "bet_step (Latest b) = addLatestBet b"
| "bet_step (High b) = addHighBet b"

fun latest_entry :: "'d bet_event \<Rightarrow> 'd bet_update option" where
  "latest_entry (Latest b) = Some b"
| "latest_entry (High b) = None"

fun high_entry :: "'d bet_event \<Rightarrow> 'd bet_update option" where
  "high_entry (Latest b) = None"
| "high_entry (High b) = Some b"

definition chat_feed :: "string \<Rightarrow> chat_store \<Rightarrow> chat_message list" where
  "chat_feed slug chats = (case chats slug of None \<Rightarrow> [] | Some l \<Rightarrow> messages l)"

definition chat_flip :: "string \<Rightarrow> chat_store \<Rightarrow> nat" where
  "chat_flip slug chats = (case chats slug of None \<Rightarrow> 0 | Some l \<Rightarrow> parity l)"

definition chat_entry :: "string \<Rightarrow> chat_message \<Rightarrow> chat_message option" where
  "chat_entry slug m = (if chatSlug m = slug then Some m else None)"

subsection \<open>The contract of a feed\<close>

text \<open>
  \<open>feed\<close> reads the entries, newest first, \<open>flip\<close> reads the parity, \<open>add\<close> handles an event: an event
  that carries an entry of this feed puts it in front of at most \<open>limit\<close> entries, any other event
  leaves the feed alone.
\<close>

locale bounded_feed =
  fixes add :: "'e \<Rightarrow> 's \<Rightarrow> 's" and feed :: "'s \<Rightarrow> 'x list" and flip :: "'s \<Rightarrow> nat"
    and entry :: "'e \<Rightarrow> 'x option" and limit :: nat
  assumes feed_add: "length (feed s) \<le> limit \<Longrightarrow> entry e = Some x \<Longrightarrow> feed (add e s) = take limit (x # feed s)"
    and flip_add: "entry e = Some x \<Longrightarrow> flip (add e s) = (flip s + 1) mod 2"
    and feed_skip: "entry e = None \<Longrightarrow> feed (add e s) = feed s"
    and flip_skip: "entry e = None \<Longrightarrow> flip (add e s) = flip s"
begin

lemma feed_fold:
  "length (feed s) \<le> limit \<Longrightarrow> feed (fold add es s) = take limit (rev (List.map_filter entry es) @ feed s)"
proof (induction es arbitrary: s)
  case (Cons e es)
  show ?case
  proof (cases "entry e")
    case (Some x)
    with Cons.prems have le: "length (feed (add e s)) \<le> limit" by (simp add: feed_add)
    have "take limit (xs @ take limit ys) = take limit (xs @ ys)" for xs ys :: "'x list"
      by (simp add: min_def)
    with Cons.IH [OF le] Some Cons.prems show ?thesis by (simp add: feed_add map_filter_simps)
  next
    case None
    with Cons show ?thesis by (simp add: feed_skip map_filter_simps)
  qed
qed (simp add: map_filter_simps)

lemma flip_fold: "flip s < 2 \<Longrightarrow> flip (fold add es s) = (flip s + length (List.map_filter entry es)) mod 2"
proof (induction es arbitrary: s)
  case (Cons e es)
  then show ?case by (cases "entry e") (simp_all add: flip_add flip_skip mod_simps map_filter_simps)
qed (simp add: map_filter_simps)

end

interpretation latest: bounded_feed bet_step latestBets latestParity latest_entry 10
proof
  fix e :: "'d bet_event" and s :: "'d bet_store" and x
  show "length (latestBets s) \<le> 10 \<Longrightarrow> latest_entry e = Some x \<Longrightarrow>
    latestBets (bet_step e s) = take 10 (x # latestBets s)"
    by (cases e) (simp_all add: addLatestBet_def slice2_def)
  show "latest_entry e = Some x \<Longrightarrow> latestParity (bet_step e s) = (latestParity s + 1) mod 2"
    by (cases e) (simp_all add: addLatestBet_def)
  show "latest_entry e = None \<Longrightarrow> latestBets (bet_step e s) = latestBets s"
    by (cases e) (simp_all add: addHighBet_def)
  show "latest_entry e = None \<Longrightarrow> latestParity (bet_step e s) = latestParity s"
    by (cases e) (simp_all add: addHighBet_def)
qed

interpretation high: bounded_feed bet_step highBets highParity high_entry 10
proof
  fix e :: "'d bet_event" and s :: "'d bet_store" and x
  show "length (highBets s) \<le> 10 \<Longrightarrow> high_entry e = Some x \<Longrightarrow>
    highBets (bet_step e s) = take 10 (x # highBets s)"
    by (cases e) (simp_all add: addHighBet_def slice2_def)
  show "high_entry e = Some x \<Longrightarrow> highParity (bet_step e s) = (highParity s + 1) mod 2"
    by (cases e) (simp_all add: addHighBet_def)
  show "high_entry e = None \<Longrightarrow> highBets (bet_step e s) = highBets s"
    by (cases e) (simp_all add: addLatestBet_def)
  show "high_entry e = None \<Longrightarrow> highParity (bet_step e s) = highParity s"
    by (cases e) (simp_all add: addLatestBet_def)
qed

lemma keep_limit:
  "length xs \<le> n \<Longrightarrow> (if length (x # xs) > n then butlast (x # xs) else x # xs) = take n (x # xs)"
  by (cases "length xs = n") (auto simp: butlast_conv_take)

interpretation chat: bounded_feed addChatMessage "chat_feed slug" "chat_flip slug" "chat_entry slug"
    MAX_MESSAGES_PER_CHAT for slug
proof
  fix s :: chat_store and e x
  show "length (chat_feed slug s) \<le> MAX_MESSAGES_PER_CHAT \<Longrightarrow> chat_entry slug e = Some x \<Longrightarrow>
    chat_feed slug (addChatMessage e s) = take MAX_MESSAGES_PER_CHAT (x # chat_feed slug s)"
    using keep_limit [of "chat_feed slug s" MAX_MESSAGES_PER_CHAT e]
    by (auto simp: addChatMessage_def chat_feed_def chat_entry_def Let_def split: option.splits if_splits)
qed (auto simp: addChatMessage_def chat_feed_def chat_flip_def chat_entry_def Let_def
       split: option.splits if_splits)

subsection \<open>Properties\<close>

text \<open>
  Whatever the interleaving of the two feeds, each shows the ten newest bets of its own kind,
  newest first, and its parity is the number of its bets modulo two.
\<close>

theorem bet_feeds:
  "latestBets (fold bet_step es bet_store_init) = take 10 (rev (List.map_filter latest_entry es)) \<and>
   highBets (fold bet_step es bet_store_init) = take 10 (rev (List.map_filter high_entry es)) \<and>
   latestParity (fold bet_step es bet_store_init) = length (List.map_filter latest_entry es) mod 2 \<and>
   highParity (fold bet_step es bet_store_init) = length (List.map_filter high_entry es) mod 2"
  using latest.feed_fold [of bet_store_init es] high.feed_fold [of bet_store_init es]
    latest.flip_fold [of bet_store_init es] high.flip_fold [of bet_store_init es]
  by (simp add: bet_store_init_def)

text \<open>
  After any sequence of messages, a chat holds the twenty newest messages of its own slug,
  newest first, whatever was received for other chats, and its parity counts them modulo two.
\<close>

theorem chat_feeds:
  "chat_feed slug (fold addChatMessage ms Map.empty) = take 20 (rev (filter (\<lambda>m. chatSlug m = slug) ms)) \<and>
   chat_flip slug (fold addChatMessage ms Map.empty) = length (filter (\<lambda>m. chatSlug m = slug) ms) mod 2"
proof -
  have "List.map_filter (chat_entry slug) ms = filter (\<lambda>m. chatSlug m = slug) ms"
    by (induction ms) (simp_all add: map_filter_simps chat_entry_def)
  with chat.feed_fold [of slug Map.empty ms] chat.flip_fold [of slug Map.empty ms] show ?thesis
    by (simp add: chat_feed_def chat_flip_def MAX_MESSAGES_PER_CHAT_def)
qed

end
