(* ===== verification/View.thy ===== *)
theory View
  imports Api Stores
begin

section \<open>Views and what they do\<close>

text \<open>
  A component renders a list of widgets: texts, amounts, odds, pictures, links, input fields, buttons
  and the components inside it. Elements that only lay out the page, styles, icons and animations are left
  out. A button carries the event its handler stands for and whether it is disabled; \<open>presses\<close>
  lists the events a user can cause. A handler changes the state of its component and has effects, which are values of
  \<open>effect\<close>: requests to the server by the function of \<^verbatim>\<open>Api\<close> they go through, messages, navigation and
  changes of the shared stores and of the query cache.
\<close>

subsection \<open>Widgets\<close>

datatype ('d, 'e) widget =
    Text string
  | Amount 'd
  | Fixed2 'd
  | OddsOf 'd oddsFormat
  | Chart "'d price_point list" bet_side
  | Picture string
  | Loader
  | Press bool 'e "('d, 'e) widget list"
  | Link string "('d, 'e) widget list"
  | Field string nat "string \<Rightarrow> 'e"
  | Part string "'d jv"

definition shown :: "bool \<Rightarrow> 'a list \<Rightarrow> 'a list" where
  "shown b ws = (if b then ws else [])"

definition picture :: "string option \<Rightarrow> ('d, 'e) widget list" where
  "picture k = (case k of None \<Rightarrow> [] | Some s \<Rightarrow> if s = [] then [] else [Picture s])"

text \<open>The sides of a bet as the sources write them.\<close>

fun show_side :: "bet_side \<Rightarrow> string" where
  "show_side SideY = ''y''"
| "show_side SideN = ''n''"

text \<open>The component \<^verbatim>\<open>Button\<close>: it is disabled while it is loading, and then shows a loader.\<close>

definition Button :: "bool \<Rightarrow> bool \<Rightarrow> 'e \<Rightarrow> ('d, 'e) widget list \<Rightarrow> ('d, 'e) widget" where
  "Button isLoading disabled e children =
     Press (isLoading \<or> disabled) e (if isLoading then [Loader] else children)"

fun presses1 :: "('d, 'e) widget \<Rightarrow> 'e list" where
  "presses1 (Press disabled e ws) = (if disabled then [] else e # concat (map presses1 ws))"
| "presses1 (Link href ws) = concat (map presses1 ws)"
| "presses1 _ = []"

definition presses :: "('d, 'e) widget list \<Rightarrow> 'e list" where
  "presses ws = concat (map presses1 ws)"

subsection \<open>Effects\<close>

datatype mutation =
    Login
  | Register
  | CompleteProfile
  | ChangePassword
  | SetPassword
  | UpdatePreferences
  | PostBet
  | CashoutBet
  | PostComment
  | PostLike
  | DeleteLike
  | DeleteComment
  | ReportComment
  | RevokeSession
  | Logout

datatype 'd effect =
    Mutate mutation "'d jv"
  | OpenModal modal_type "(string \<times> 'd jv) list"
  | CloseModal
  | CloseDrawer
  | Invalidate "key_part list"
  | Toast string bool
  | Navigate navigation
  | ReplaceLocation string
  | Emit string "(string \<times> 'd jv) list"
  | Disconnect
  | Blur
  | CopyText string

text \<open>The function of the server interface behind a request.\<close>

fun perform :: "'d fetch \<Rightarrow> string \<Rightarrow> mutation \<Rightarrow> 'd jv \<Rightarrow> 'd api_error + 'd jv" where
  "perform fetch base Login v = login fetch base v"
| "perform fetch base Register v = register fetch base v"
| "perform fetch base CompleteProfile v = completeProfile fetch base v"
| "perform fetch base ChangePassword v = changePassword fetch base v"
| "perform fetch base SetPassword v = setPassword fetch base v"
| "perform fetch base UpdatePreferences v = updateUserPreferences fetch base v"
| "perform fetch base PostBet v = postBet fetch base v"
| "perform fetch base CashoutBet v = cashoutBet fetch base v"
| "perform fetch base PostComment v = postComment fetch base v"
| "perform fetch base PostLike v = postLike fetch base v"
| "perform fetch base DeleteLike v = deleteLike fetch base v"
| "perform fetch base DeleteComment v = deleteComment fetch base v"
| "perform fetch base ReportComment v = reportComment fetch base v"
| "perform fetch base RevokeSession v = (case v of JStr s \<Rightarrow> revokeSession fetch base s | _ \<Rightarrow> Inl (Raised TypeError))"
| "perform fetch base Logout v = logout fetch base"

fun requests :: "'d effect list \<Rightarrow> (mutation \<times> 'd jv) list" where
  "requests [] = []"
| "requests (Mutate m v # es) = (m, v) # requests es"
| "requests (_ # es) = requests es"

subsection \<open>Forms that send requests\<close>

text \<open>
  A session of a component: what its user and its surroundings do (\<open>acts\<close>, with the requests sent) and the
  answers that settle a request (\<open>settles\<close>), in any order; the history of requests and the number of
  answers are recorded.
\<close>

inductive session ::
    "('s \<Rightarrow> 'q list \<Rightarrow> 's \<Rightarrow> bool) \<Rightarrow> ('s \<Rightarrow> 's \<Rightarrow> bool) \<Rightarrow> 's \<Rightarrow> 's \<Rightarrow> 'q list \<Rightarrow> nat \<Rightarrow> bool"
  for acts settles s0 where
  start: "session acts settles s0 s0 [] 0"
| act: "session acts settles s0 s qs n \<Longrightarrow> acts s rs s' \<Longrightarrow> session acts settles s0 s' (qs @ rs) n"
| settle: "session acts settles s0 s qs n \<Longrightarrow> settles s s' \<Longrightarrow> session acts settles s0 s' qs (Suc n)"

text \<open>
  The contract of a form: it sends a request only when none is pending, and each request carries the
  key the form was created with, which never changes.
\<close>

locale request_form =
  fixes pending :: "'s \<Rightarrow> bool" and key :: "'s \<Rightarrow> 'k" and req_key :: "'q \<Rightarrow> 'k"
    and acts :: "'s \<Rightarrow> 'q list \<Rightarrow> 's \<Rightarrow> bool" and settles :: "'s \<Rightarrow> 's \<Rightarrow> bool"
  assumes one_at_a_time:
      "acts s rs s' \<Longrightarrow> rs = [] \<and> pending s' = pending s \<or> (\<exists>r. rs = [r]) \<and> \<not> pending s \<and> pending s'"
    and same_key: "acts s rs s' \<Longrightarrow> key s' = key s \<and> (\<forall>r\<in>set rs. req_key r = key s)"
    and settled: "settles s s' \<Longrightarrow> pending s \<and> \<not> pending s' \<and> key s' = key s"
begin

lemma session_requests:
  assumes "session acts settles s0 s qs n" and "\<not> pending s0"
  shows "length qs = n + (if pending s then 1 else 0)" and "\<forall>r\<in>set qs. req_key r = key s0" and "key s = key s0"
proof -
  from assms have "length qs = n + (if pending s then 1 else 0) \<and> (\<forall>r\<in>set qs. req_key r = key s0) \<and> key s = key s0"
  proof (induction rule: session.induct)
    case (act s qs n rs s')
    then show ?case using one_at_a_time [OF act(2)] same_key [OF act(2)] by auto
  next
    case (settle s qs n s')
    then show ?case using settled [OF settle(2)] by auto
  qed simp
  then show "length qs = n + (if pending s then 1 else 0)" "\<forall>r\<in>set qs. req_key r = key s0" "key s = key s0" by blast+
qed

end

lemma presses_simps [simp]:
  "presses [] = []"
  "presses (w # ws) = presses1 w @ presses ws"
  "presses (us @ ws) = presses us @ presses ws"
  by (simp_all add: presses_def)

lemma presses_shown [simp]: "presses (shown b ws) = (if b then presses ws else [])"
  by (simp add: shown_def)

lemma presses_picture [simp]: "presses (picture k) = []"
  by (simp add: picture_def split: option.split)

lemma presses_Button [simp]:
  "presses1 (Button l d e ws) = (if l \<or> d then [] else e # presses ws)"
  by (simp add: Button_def presses_def)

end
