(* ===== verification/Bisect.thy ===== *)
theory Bisect
  imports LsLmsr
begin

section \<open>The search loop\<close>

text \<open>
  What the loop of \<open>bisect\<close> does on any arithmetic with the standard rounding error: it stops, and
  the result lies in the bracket; when the sign of \<open>f\<close> is monotone, the result is a point where
  \<open>f\<close> is not positive, less than the tolerance below one where it is. Brackets whose ends are so
  large that neighbouring numbers are further apart than the tolerance are excluded, and the loop
  is shown not to stop on such a bracket.
\<close>

text \<open>
  Total correctness. The loop stops, and it stops on a bracket narrower than the tolerance: \<open>f\<close> is
  not positive at the result unless the result is the lower end, and positive at the upper end of
  the final bracket unless that is the initial upper end.
\<close>

definition bracketed :: "(num \<Rightarrow> num) \<Rightarrow> real \<Rightarrow> real \<Rightarrow> real \<Rightarrow> bool" where
  "bracketed f lo hi r \<longleftrightarrow>
     lo \<le> r \<and> (r = lo \<or> \<not> js_gt (f (Fin r)) (Fin 0)) \<and>
     (\<exists>r'. r \<le> r' \<and> r' \<le> hi \<and> r' - r \<le> 1002 / 1000000 \<and> (r' = hi \<or> js_gt (f (Fin r')) (Fin 0)))"

lemma bracketed_lower:
  assumes "bracketed f m hi r" and "lo \<le> m" and "\<not> js_gt (f (Fin m)) (Fin 0)"
  shows "bracketed f lo hi r"
  using assms unfolding bracketed_def by force

lemma bracketed_upper:
  assumes "bracketed f lo m r" and "m \<le> hi" and "js_gt (f (Fin m)) (Fin 0)"
  shows "bracketed f lo hi r"
  using assms unfolding bracketed_def by force

lemma bracketed_stop:
  assumes "lo \<le> hi" and "hi - lo \<le> 1002 / 1000000"
  shows "bracketed f lo hi lo"
  using assms unfolding bracketed_def by auto

text \<open>One round of the loop on reals: the midpoint up to rounding.\<close>

context fp_sound
begin

lemma mid_near:
  assumes lo: "\<bar>lo\<bar> \<le> 100000000000" and hi: "\<bar>hi\<bar> \<le> 100000000000"
  obtains m where "js_div F (js_add F (Fin lo) (Fin hi)) (lit F 2) = Fin m"
    and "(lo + hi) / 2 - 24 / 100000 \<le> m" and "m \<le> (lo + hi) / 2 + 24 / 100000"
proof -
  have s: "\<bar>lo + hi\<bar> \<le> 200000000000" using lo hi by simp
  then obtain r where r: "rnd F (lo + hi) = Fin r"
    and re: "(lo + hi) - (200000000000 + 1) / 1000000000000000 \<le> r"
      "r \<le> (lo + hi) + (200000000000 + 1) / 1000000000000000"
    by (rule rnd_near) simp
  from s re have rb: "\<bar>r / 2\<bar> \<le> 110000000000" by (simp add: abs_le_iff)
  then obtain m where m: "rnd F (r / 2) = Fin m"
    and me: "r / 2 - (110000000000 + 1) / 1000000000000000 \<le> m"
      "m \<le> r / 2 + (110000000000 + 1) / 1000000000000000"
    by (rule rnd_near) simp
  show ?thesis
    by (rule that [of m]) (use r m re me in \<open>simp_all add: field_simps\<close>)
qed

lemma rnd_diff:
  assumes "\<bar>lo\<bar> \<le> 100000000000" and "\<bar>hi\<bar> \<le> 100000000000"
  obtains r where "js_sub F (Fin hi) (Fin lo) = Fin r"
    and "(hi - lo) - (\<bar>hi - lo\<bar> + 1) / 1000000000000000 \<le> r"
    and "r \<le> (hi - lo) + (\<bar>hi - lo\<bar> + 1) / 1000000000000000"
proof -
  have "\<bar>hi - lo\<bar> \<le> 2 ^ 64" using assms by simp
  from rnd_near [OF order_refl this] show ?thesis using that by auto
qed

lemma wide_bracket:
  assumes "\<bar>lo\<bar> \<le> 100000000000" and "\<bar>hi\<bar> \<le> 100000000000"
    and "js_gt (js_sub F (Fin hi) (Fin lo)) (lit F (1 / 1000))"
  shows "998 / 1000000 \<le> hi - lo"
proof -
  obtain r where r: "js_sub F (Fin hi) (Fin lo) = Fin r"
    and e: "r \<le> (hi - lo) + (\<bar>hi - lo\<bar> + 1) / 1000000000000000"
    using rnd_diff [OF assms(1,2)] .
  obtain t where t: "lit F (1 / 1000) = Fin t" "999 / 1000000 \<le> t"
    by (rule lit_thousandth)
  with assms(3) r have "999 / 1000000 < r" by simp
  with e show ?thesis by (cases "lo \<le> hi") (simp_all add: field_simps)
qed

lemma small_bracket:
  assumes "\<bar>lo\<bar> \<le> 100000000000" and "\<bar>hi\<bar> \<le> 100000000000"
    and "\<not> js_gt (js_sub F (Fin hi) (Fin lo)) (lit F (1 / 1000))"
  shows "hi - lo \<le> 1002 / 1000000"
proof -
  obtain r where r: "js_sub F (Fin hi) (Fin lo) = Fin r"
    and e: "(hi - lo) - (\<bar>hi - lo\<bar> + 1) / 1000000000000000 \<le> r"
    using rnd_diff [OF assms(1,2)] .
  obtain t where t: "lit F (1 / 1000) = Fin t" "t \<le> 1001 / 1000000"
    by (rule lit_thousandth)
  with assms(3) r have "r \<le> 1001 / 1000000" by simp
  with e show ?thesis by (cases "lo \<le> hi") (simp_all add: field_simps)
qed

lemma bisect_narrow:
  assumes "\<bar>lo\<bar> \<le> 100000000000" and "\<bar>hi\<bar> \<le> 100000000000" and "hi - lo < 998 / 1000000"
  shows "bisect F (Fin lo) (Fin hi) (lit F (1 / 1000)) f = Some (Fin lo)"
proof -
  have "\<not> js_gt (js_sub F (Fin hi) (Fin lo)) (lit F (1 / 1000))"
    using wide_bracket [OF assms(1,2)] assms(3) by (auto simp del: js_sub_Fin)
  then show ?thesis by (subst bisect.simps) (simp del: js_sub_Fin)
qed

lemma mid_inside:
  assumes "\<bar>lo\<bar> \<le> 100000000000" and "\<bar>hi\<bar> \<le> 100000000000"
    and "js_gt (js_sub F (Fin hi) (Fin lo)) (lit F (1 / 1000))"
  obtains m where "js_div F (js_add F (Fin lo) (Fin hi)) (lit F 2) = Fin m"
    and "lo < m" and "m < hi" and "m - lo \<le> 3 / 4 * (hi - lo)" and "hi - m \<le> 3 / 4 * (hi - lo)"
proof -
  obtain m where m: "js_div F (js_add F (Fin lo) (Fin hi)) (lit F 2) = Fin m"
    and b: "(lo + hi) / 2 - 24 / 100000 \<le> m" "m \<le> (lo + hi) / 2 + 24 / 100000"
    using mid_near [OF assms(1,2)] .
  have w: "998 / 1000000 \<le> hi - lo" by (rule wide_bracket [OF assms])
  show ?thesis
    by (rule that [OF m]) (use b w in \<open>simp_all add: field_simps\<close>)
qed

lemma bisect_bracketed_n:
  "\<lbrakk>hi - lo < (4 / 3) ^ n * (998 / 1000000); \<bar>lo\<bar> \<le> 100000000000; \<bar>hi\<bar> \<le> 100000000000; lo \<le> hi\<rbrakk> \<Longrightarrow>
    \<exists>r. bisect F (Fin lo) (Fin hi) (lit F (1 / 1000)) f = Some (Fin r) \<and> bracketed f lo hi r"
proof (induction n arbitrary: lo hi)
  case 0
  then have "bisect F (Fin lo) (Fin hi) (lit F (1 / 1000)) f = Some (Fin lo)"
    by (intro bisect_narrow) auto
  with 0 show ?case by (auto intro: bracketed_stop)
next
  case (Suc n)
  show ?case
  proof (cases "js_gt (js_sub F (Fin hi) (Fin lo)) (lit F (1 / 1000))")
    case False
    with Suc.prems small_bracket [of lo hi] show ?thesis
      by (subst bisect.simps) (auto simp del: js_sub_Fin intro!: bracketed_stop)
  next
    case True
    then obtain m where m: "js_div F (js_add F (Fin lo) (Fin hi)) (lit F 2) = Fin m"
      and in_m: "lo < m" "m < hi"
      and w: "m - lo \<le> 3 / 4 * (hi - lo)" "hi - m \<le> 3 / 4 * (hi - lo)"
      using mid_inside [OF Suc.prems(2,3)] by blast
    have step: "bisect F (Fin lo) (Fin hi) (lit F (1 / 1000)) f =
      (if js_gt (f (Fin m)) (Fin 0) then bisect F (Fin lo) (Fin m) (lit F (1 / 1000)) f
       else bisect F (Fin m) (Fin hi) (lit F (1 / 1000)) f)"
      using True m by (subst bisect.simps) (simp del: js_sub_Fin js_div.simps js_add.simps lit_two)
    have small: "3 / 4 * (hi - lo) < (4 / 3) ^ n * (998 / 1000000)"
      using Suc.prems(1) by simp
    have bm: "\<bar>m\<bar> \<le> 100000000000" using in_m Suc.prems(2,3) by simp
    show ?thesis
    proof (cases "js_gt (f (Fin m)) (Fin 0)")
      case True
      from Suc.IH [of m lo] Suc.prems(2) in_m bm w small
      obtain r where "bisect F (Fin lo) (Fin m) (lit F (1 / 1000)) f = Some (Fin r)" "bracketed f lo m r"
        by force
      with step True in_m show ?thesis by (auto intro: bracketed_upper)
    next
      case False
      from Suc.IH [of hi m] Suc.prems(3) in_m bm w small
      obtain r where "bisect F (Fin m) (Fin hi) (lit F (1 / 1000)) f = Some (Fin r)" "bracketed f m hi r"
        by force
      with step False in_m show ?thesis by (auto intro: bracketed_lower)
    qed
  qed
qed

lemma bisect_bracketed:
  assumes "\<bar>lo\<bar> \<le> 100000000000" and "\<bar>hi\<bar> \<le> 100000000000" and "lo \<le> hi"
  shows "\<exists>r. bisect F (Fin lo) (Fin hi) (lit F (1 / 1000)) f = Some (Fin r) \<and> bracketed f lo hi r"
proof -
  obtain n where "(hi - lo) / (998 / 1000000) < (4 / 3) ^ n"
    using real_arch_pow [of "4 / 3" "(hi - lo) / (998 / 1000000)"] by auto
  then have "hi - lo < (4 / 3) ^ n * (998 / 1000000)" by (simp add: field_simps)
  from bisect_bracketed_n [OF this assms] show ?thesis .
qed

end

subsection \<open>Binary64 numbers further apart than the tolerance\<close>

lemma ulp_exp_eq:
  assumes "2 powr of_int k \<le> \<bar>x\<bar>" and "\<bar>x\<bar> < 2 powr (of_int k + 1)" and "-1022 \<le> k"
  shows "ulp_exp x = k - 52"
proof -
  have "0 < \<bar>x\<bar>" using assms(1) powr_gt_zero [of 2 "of_int k"] by linarith
  then have "\<lfloor>log 2 \<bar>x\<bar>\<rfloor> = k"
    using assms(1,2) by (simp add: floor_log_eq_powr_iff)
  with assms(3) show ?thesis by (simp add: ulp_exp_def)
qed

lemma round64_eq:
  assumes "2 powr of_int k \<le> \<bar>x\<bar>" and "\<bar>x\<bar> < 2 powr (of_int k + 1)" and "-1022 \<le> k"
  shows "round64 x = of_int (round_half_even (x / 2 powi (k - 52))) * 2 powi (k - 52)"
proof -
  have "x \<noteq> 0" using assms(1) powr_gt_zero [of 2 "of_int k"] by linarith
  with ulp_exp_eq [OF assms] show ?thesis by (simp add: round64_def)
qed

lemma round64_2_9: "round64 (1 / 512) = 1 / 512"
proof -
  have "round64 (1 / 512) = of_int (round_half_even ((1 / 512) / 2 powi (-9 - 52))) * 2 powi (-9 - 52)"
    by (rule round64_eq) (simp_all add: powr_minus powr_divide)
  also have "(1 / 512 :: real) / 2 powi (-9 - 52) = of_int (2 ^ 52)"
    by (simp add: power_int_def power_divide)
  also have "of_int (round_half_even (of_int (2 ^ 52))) * (2 :: real) powi (-9 - 52) = 1 / 512"
    by (simp only: round_half_even_of_int) (simp add: power_int_def power_divide)
  finally show ?thesis .
qed

lemma round64_tie: "round64 (2 ^ 44 + 1 / 512) = 2 ^ 44"
proof -
  have "round64 (2 ^ 44 + 1 / 512) =
      of_int (round_half_even ((2 ^ 44 + 1 / 512) / 2 powi (44 - 52))) * 2 powi (44 - 52)"
    by (rule round64_eq) (simp_all flip: powr_realpow)
  also have "(2 ^ 44 + 1 / 512 :: real) / 2 powi (44 - 52) = 2 ^ 52 + 1 / 2"
    by (simp add: power_int_def power_divide)
  also have "round_half_even (2 ^ 52 + 1 / 2) = 2 ^ 52"
    by (simp add: round_half_even_def Let_def floor_eq_iff)
  finally show ?thesis by (simp add: power_int_def power_divide)
qed

lemma lit_thousandth_ieee:
  obtains t where "lit (ieee e l) (1 / 1000) = Fin t" and "t < 1 / 512"
  by (rule ieee_fp.lit_thousandth [of e l]) auto

lemma stuck_bracket:
  "js_gt (js_sub (ieee e l) (Fin (2 ^ 43 + 1 / 512)) (Fin (2 ^ 43))) (lit (ieee e l) (1 / 1000))"
  "js_div (ieee e l) (js_add (ieee e l) (Fin (2 ^ 43)) (Fin (2 ^ 43 + 1 / 512))) (lit (ieee e l) 2)
     = Fin (2 ^ 43)"
proof -
  have "js_sub (ieee e l) (Fin (2 ^ 43 + 1 / 512)) (Fin (2 ^ 43)) = Fin (1 / 512)"
    using rnd64_Fin [of "1 / 512"] by (simp add: round64_2_9)
  then show "js_gt (js_sub (ieee e l) (Fin (2 ^ 43 + 1 / 512)) (Fin (2 ^ 43))) (lit (ieee e l) (1 / 1000))"
    by (rule_tac lit_thousandth_ieee [of e l]) simp
  have sum: "2 ^ 43 + (2 ^ 43 + 1 / 512) = (2 ^ 44 + 1 / 512 :: real)" by simp
  have "js_add (ieee e l) (Fin (2 ^ 43)) (Fin (2 ^ 43 + 1 / 512)) = Fin (2 ^ 44)"
    using rnd64_Fin [of "2 ^ 44 + 1 / 512"] by (simp only: js_add.simps sum ieee_simps round64_tie) simp
  moreover have "rnd64 (2 ^ 44 / 2) = Fin (2 ^ 43)"
    using ieee_fp.rnd_int [of "2 ^ 43" e l] by simp
  ultimately show "js_div (ieee e l) (js_add (ieee e l) (Fin (2 ^ 43)) (Fin (2 ^ 43 + 1 / 512)))
      (lit (ieee e l) 2) = Fin (2 ^ 43)"
    by (simp del: js_add.simps)
qed

lemma bisect_loop_None:
  assumes gap: "js_gt (js_sub F hi lo) tol"
    and mid: "js_div F (js_add F lo hi) (lit F 2) = lo"
    and f: "\<not> js_gt (f lo) (Fin 0)"
  shows "bisect F lo hi tol f = None"
proof (rule ccontr)
  assume "bisect F lo hi tol f \<noteq> None"
  then obtain r where ret: "bisect F lo hi tol f = Some r" by blast
  have "\<not> (F = F \<and> lo = lo \<and> hi = hi \<and> tol = tol \<and> f = f)"
  proof (rule bisect.raw_induct [where P = "\<lambda>F' lo' hi' tol' f' r.
        \<not> (F' = F \<and> lo' = lo \<and> hi' = hi \<and> tol' = tol \<and> f' = f)", OF _ ret])
    fix g F' lo' hi' tol' f' r
    assume IH: "\<And>F' lo' hi' tol' f' r. g F' lo' hi' tol' f' = Some r \<Longrightarrow>
        \<not> (F' = F \<and> lo' = lo \<and> hi' = hi \<and> tol' = tol \<and> f' = f)"
      and eq: "(if js_gt (js_sub F' hi' lo') tol'
         then let mid = js_div F' (js_add F' lo' hi') (lit F' 2)
              in if js_gt (f' mid) (Fin 0) then g F' lo' mid tol' f' else g F' mid hi' tol' f'
         else Some lo') = Some r"
    show "\<not> (F' = F \<and> lo' = lo \<and> hi' = hi \<and> tol' = tol \<and> f' = f)"
      using IH [of F lo hi tol f r] eq gap mid f by (auto simp: Let_def)
  qed
  then show False by simp
qed

subsection \<open>Properties\<close>

text \<open>
  C34. On binary64 numbers of at most \<open>10\<close> to the \<open>11\<close> the search loop returns, whatever \<open>f\<close> is and
  however \<^verbatim>\<open>Math.exp\<close> and \<^verbatim>\<open>Math.log\<close> are implemented; the result lies in the bracket, is a point
  where \<open>f\<close> is not positive (or the lower end), and a point where \<open>f\<close> is positive (or the upper
  end) lies within 0.001002 above it.
\<close>

theorem bisect_returns:
  assumes "\<bar>lo\<bar> \<le> 100000000000" and "\<bar>hi\<bar> \<le> 100000000000" and "lo \<le> hi"
  shows "\<exists>r. bisect (ieee e l) (Fin lo) (Fin hi) (lit (ieee e l) (1 / 1000)) f = Some (Fin r) \<and>
    bracketed f lo hi r"
  by (rule ieee_fp.bisect_bracketed [OF assms])

theorem bisect_returns_witness:
  "\<exists>r. bisect (ieee (\<lambda>x. Fin x) (\<lambda>x. Fin x)) (Fin 10) (Fin 25)
     (lit (ieee (\<lambda>x. Fin x) (\<lambda>x. Fin x)) (1 / 1000)) (\<lambda>x. x) = Some (Fin r) \<and>
     bracketed (\<lambda>x. x) 10 25 r"
  by (rule bisect_returns) simp_all



end
