(* ===== verification/Lmsr.thy ===== *)
theory Lmsr
  imports Bisect
begin

section \<open>The scoring rule the engine implements\<close>

text \<open>
  The liquidity-sensitive logarithmic market scoring rule as a function on the reals, without the
  shift by the maximum that \<open>softmaxB\<close> uses for stability: \<open>lmsr_cost\<close> is the potential and
  \<open>lmsr_price\<close> the price of an outcome. The refinement lemmas show that \<open>cost\<close> and \<open>prices\<close> compute
  these functions on exact arithmetic. The rest of the theory is the mathematics that the
  application relies on: the supporting-hyperplane inequality, from which the search bracket of
  \<open>payoutForSpend\<close> is derived, positivity and the sum of the prices, and the gradient.
\<close>

subsection \<open>Specification\<close>

definition lmsr_b :: "real list \<Rightarrow> real \<Rightarrow> real" where
  "lmsr_b q a = a * (\<Sum>i<length q. q ! i)"

definition lmsr_Z :: "real list \<Rightarrow> real \<Rightarrow> real" where
  "lmsr_Z q a = (\<Sum>i<length q. exp (q ! i / lmsr_b q a))"

definition lmsr_cost :: "real list \<Rightarrow> real \<Rightarrow> real" where
  "lmsr_cost q a = lmsr_b q a * ln (lmsr_Z q a)"

definition lmsr_soft :: "real list \<Rightarrow> real \<Rightarrow> nat \<Rightarrow> real" where
  "lmsr_soft q a i = exp (q ! i / lmsr_b q a) / lmsr_Z q a"

definition lmsr_entropy :: "real list \<Rightarrow> real \<Rightarrow> real" where
  "lmsr_entropy q a = - (\<Sum>i<length q. lmsr_soft q a i * ln (lmsr_soft q a i))"

definition lmsr_price :: "real list \<Rightarrow> real \<Rightarrow> nat \<Rightarrow> real" where
  "lmsr_price q a i = lmsr_soft q a i + a * lmsr_entropy q a"

text \<open>A market the rule is defined on: a positive liquidity parameter and a positive total quantity.\<close>

definition live :: "real list \<Rightarrow> real \<Rightarrow> bool" where
  "live q a \<longleftrightarrow> 0 < a \<and> 0 < (\<Sum>i<length q. q ! i)"

lemma live_b [simp]: "live q a \<Longrightarrow> 0 < lmsr_b q a"
  by (simp add: live_def lmsr_b_def)

lemma live_nonempty: "live q a \<Longrightarrow> 0 < length q"
  by (cases q) (auto simp: live_def)

lemma live_Z: "live q a \<Longrightarrow> 0 < lmsr_Z q a"
  unfolding lmsr_Z_def using live_nonempty by (intro sum_pos) auto

subsection \<open>Softmax and entropy\<close>

lemma lmsr_soft_pos: "live q a \<Longrightarrow> 0 < lmsr_soft q a i"
  by (simp add: lmsr_soft_def live_Z)

lemma lmsr_soft_sum: "live q a \<Longrightarrow> (\<Sum>i<length q. lmsr_soft q a i) = 1"
  using live_Z [of q a] by (simp add: lmsr_soft_def lmsr_Z_def flip: sum_divide_distrib)

lemma lmsr_soft_le_1:
  assumes "live q a" and "i < length q"
  shows "lmsr_soft q a i \<le> 1"
proof -
  have "lmsr_soft q a i \<le> (\<Sum>j<length q. lmsr_soft q a j)"
    using assms by (intro member_le_sum) (auto intro: less_imp_le lmsr_soft_pos)
  with assms show ?thesis by (simp add: lmsr_soft_sum)
qed

lemma lmsr_soft_ln: "live q a \<Longrightarrow> ln (lmsr_soft q a i) = q ! i / lmsr_b q a - ln (lmsr_Z q a)"
  using live_Z [of q a] by (simp add: lmsr_soft_def ln_div)

lemma lmsr_entropy_nonneg: "live q a \<Longrightarrow> 0 \<le> lmsr_entropy q a"
proof -
  assume "live q a"
  then have "(\<Sum>i<length q. lmsr_soft q a i * ln (lmsr_soft q a i)) \<le> 0"
    by (intro sum_nonpos mult_nonneg_nonpos)
       (auto intro: less_imp_le lmsr_soft_pos simp: lmsr_soft_le_1 lmsr_soft_pos)
  then show ?thesis by (simp add: lmsr_entropy_def)
qed

lemma lmsr_entropy_eq:
  assumes "live q a"
  shows "lmsr_entropy q a = ln (lmsr_Z q a) - (\<Sum>i<length q. lmsr_soft q a i * (q ! i / lmsr_b q a))"
proof -
  have "lmsr_entropy q a = - (\<Sum>i<length q. lmsr_soft q a i * (q ! i / lmsr_b q a) - lmsr_soft q a i * ln (lmsr_Z q a))"
    using assms by (simp add: lmsr_entropy_def lmsr_soft_ln right_diff_distrib)
  also have "\<dots> = (\<Sum>i<length q. lmsr_soft q a i) * ln (lmsr_Z q a) - (\<Sum>i<length q. lmsr_soft q a i * (q ! i / lmsr_b q a))"
    by (simp add: sum_subtractf sum_distrib_right)
  finally show ?thesis using assms by (simp add: lmsr_soft_sum)
qed

text \<open>The variational principle behind the rule (Gibbs).\<close>

lemma gibbs:
  fixes s t :: "nat \<Rightarrow> real"
  assumes "\<And>i. i < n \<Longrightarrow> 0 < s i" and "\<And>i. i < n \<Longrightarrow> 0 < t i"
    and "(\<Sum>i<n. t i) = (\<Sum>i<n. s i)"
  shows "(\<Sum>i<n. s i * ln (t i)) \<le> (\<Sum>i<n. s i * ln (s i))"
proof -
  have "s i * ln (t i) - s i * ln (s i) \<le> t i - s i" if "i < n" for i
  proof -
    have "ln (t i / s i) \<le> t i / s i - 1"
      using assms(1,2) [OF that] by (intro ln_le_minus_one) simp
    then have "s i * ln (t i / s i) \<le> s i * (t i / s i - 1)"
      using assms(1) [OF that] by (intro mult_left_mono) auto
    then show ?thesis
      using assms(1,2) [OF that] by (simp add: ln_div right_diff_distrib)
  qed
  then have "(\<Sum>i<n. s i * ln (t i) - s i * ln (s i)) \<le> (\<Sum>i<n. t i - s i)"
    by (intro sum_mono) simp
  with assms(3) show ?thesis by (simp add: sum_subtractf)
qed

subsection \<open>The supporting hyperplane\<close>

lemma price_dot:
  "(\<Sum>i<length q. lmsr_price q a i * x i) =
     (\<Sum>i<length q. lmsr_soft q a i * x i) + a * lmsr_entropy q a * (\<Sum>i<length q. x i)"
  by (simp add: lmsr_price_def distrib_right sum.distrib sum_distrib_left mult.assoc)

lemma cost_eq_price_dot:
  assumes "live q a"
  shows "lmsr_cost q a = (\<Sum>i<length q. lmsr_price q a i * q ! i)"
proof -
  let ?b = "lmsr_b q a"
  have "(\<Sum>i<length q. lmsr_soft q a i * (q ! i / ?b)) = (\<Sum>i<length q. lmsr_soft q a i * q ! i) / ?b"
    by (simp add: sum_divide_distrib)
  with lmsr_entropy_eq [OF assms]
  have "ln (lmsr_Z q a) = lmsr_entropy q a + (\<Sum>i<length q. lmsr_soft q a i * q ! i) / ?b"
    by linarith
  then have "?b * ln (lmsr_Z q a) = ?b * lmsr_entropy q a + (\<Sum>i<length q. lmsr_soft q a i * q ! i)"
    using live_b [OF assms] by (simp add: distrib_left)
  then show ?thesis
    by (simp add: lmsr_cost_def price_dot lmsr_b_def)
qed

lemma cost_ge_price_dot:
  assumes "live q a" and "live q' a" and "length q' = length q"
  shows "(\<Sum>i<length q. lmsr_price q a i * q' ! i) \<le> lmsr_cost q' a"
proof -
  let ?s = "lmsr_soft q a" and ?t = "lmsr_soft q' a" and ?b = "lmsr_b q' a" and ?n = "length q"
  have "(\<Sum>i<?n. ?s i * ln (?t i)) \<le> (\<Sum>i<?n. ?s i * ln (?s i))"
    using assms lmsr_soft_sum [OF assms(1)] lmsr_soft_sum [OF assms(2)]
    by (intro gibbs) (auto intro: lmsr_soft_pos)
  also have "\<dots> = - lmsr_entropy q a" by (simp add: lmsr_entropy_def)
  finally have "(\<Sum>i<?n. ?s i * (q' ! i / ?b - ln (lmsr_Z q' a))) \<le> - lmsr_entropy q a"
    using assms(2) by (simp add: lmsr_soft_ln)
  then have "(\<Sum>i<?n. ?s i * (q' ! i / ?b)) - ln (lmsr_Z q' a) * (\<Sum>i<?n. ?s i) \<le> - lmsr_entropy q a"
    by (simp add: right_diff_distrib sum_subtractf sum_distrib_left mult.commute)
  then have "(\<Sum>i<?n. ?s i * q' ! i) / ?b + lmsr_entropy q a \<le> ln (lmsr_Z q' a)"
    using lmsr_soft_sum [OF assms(1)] by (simp add: sum_divide_distrib)
  then have "?b * ((\<Sum>i<?n. ?s i * q' ! i) / ?b + lmsr_entropy q a) \<le> ?b * ln (lmsr_Z q' a)"
    using live_b [OF assms(2)] by (intro mult_left_mono) auto
  then have "(\<Sum>i<?n. ?s i * q' ! i) + lmsr_entropy q a * ?b \<le> lmsr_cost q' a"
    using live_b [OF assms(2)] by (simp add: distrib_left lmsr_cost_def mult.commute)
  then show ?thesis
    using assms(3) unfolding price_dot by (simp add: lmsr_b_def mult_ac)
qed

lemma lmsr_price_pos: "live q a \<Longrightarrow> 0 < lmsr_price q a i"
  unfolding lmsr_price_def using lmsr_soft_pos lmsr_entropy_nonneg
  by (intro add_pos_nonneg mult_nonneg_nonneg) (auto simp: live_def)

lemma lmsr_price_sum:
  "live q a \<Longrightarrow> (\<Sum>i<length q. lmsr_price q a i) = 1 + length q * (a * lmsr_entropy q a)"
  by (simp add: lmsr_price_def sum.distrib lmsr_soft_sum)

subsection \<open>Buying shares\<close>

text \<open>
  \<open>hit side idx j\<close>: a bet on side \<open>side\<close> of outcome \<open>idx\<close> buys shares of outcome \<open>j\<close>;
  \<open>shift_r\<close> is the quantity vector after buying \<open>d\<close> shares and \<open>side_price\<close> the price of the bet.
\<close>

definition hit :: "bet_side \<Rightarrow> nat \<Rightarrow> nat \<Rightarrow> bool" where
  "hit side idx j = (case side of SideY \<Rightarrow> j = idx | SideN \<Rightarrow> j \<noteq> idx)"

definition shift_r :: "real list \<Rightarrow> nat \<Rightarrow> bet_side \<Rightarrow> real \<Rightarrow> real list" where
  "shift_r q idx side d = map (\<lambda>j. q ! j + (if hit side idx j then d else 0)) [0..<length q]"

definition side_price :: "real list \<Rightarrow> real \<Rightarrow> nat \<Rightarrow> bet_side \<Rightarrow> real" where
  "side_price q a idx side = (\<Sum>j<length q. if hit side idx j then lmsr_price q a j else 0)"

lemma length_shift_r [simp]: "length (shift_r q idx side d) = length q"
  by (simp add: shift_r_def)

lemma nth_shift_r [simp]:
  "j < length q \<Longrightarrow> shift_r q idx side d ! j = q ! j + (if hit side idx j then d else 0)"
  by (simp add: shift_r_def)

lemma shift_r_0 [simp]: "shift_r q idx side 0 = q"
  by (rule nth_equalityI) auto

lemma shift_r_live:
  assumes "live q a" and "0 \<le> d"
  shows "live (shift_r q idx side d) a"
proof -
  have "(\<Sum>i<length q. q ! i) \<le> (\<Sum>i<length q. shift_r q idx side d ! i)"
    using assms(2) by (intro sum_mono) auto
  with assms(1) show ?thesis by (simp add: live_def)
qed

lemma side_price_scale:
  "(\<Sum>j<length q. lmsr_price q a j * (if hit side idx j then d else 0)) = side_price q a idx side * d"
  unfolding side_price_def sum_distrib_right by (intro sum.cong) auto

lemma cost_shift_ge:
  assumes "live q a" and "live (shift_r q idx side d) a"
  shows "side_price q a idx side * d \<le> lmsr_cost (shift_r q idx side d) a - lmsr_cost q a"
proof -
  have "(\<Sum>i<length q. lmsr_price q a i * shift_r q idx side d ! i) \<le> lmsr_cost (shift_r q idx side d) a"
    by (rule cost_ge_price_dot [OF assms]) simp
  moreover have "(\<Sum>i<length q. lmsr_price q a i * shift_r q idx side d ! i) =
      lmsr_cost q a + side_price q a idx side * d"
    using cost_eq_price_dot [OF assms(1)]
    by (simp add: distrib_left sum.distrib side_price_scale)
  ultimately show ?thesis by simp
qed

lemma cost_shift_le:
  assumes "live q a" and "live (shift_r q idx side d) a"
  shows "lmsr_cost (shift_r q idx side d) a - lmsr_cost q a \<le> side_price (shift_r q idx side d) a idx side * d"
proof -
  let ?q = "shift_r q idx side d"
  have "(\<Sum>i<length q. lmsr_price ?q a i * q ! i) \<le> lmsr_cost q a"
    using cost_ge_price_dot [OF assms(2,1)] by simp
  moreover have "lmsr_cost ?q a = (\<Sum>i<length q. lmsr_price ?q a i * q ! i) + side_price ?q a idx side * d"
    using cost_eq_price_dot [OF assms(2)] side_price_scale [of ?q a side idx d]
    by (simp add: distrib_left sum.distrib)
  ultimately show ?thesis by simp
qed

lemma side_price_pos:
  assumes "live q a" and "idx < length q" and "side = SideN \<longrightarrow> 1 < length q"
  shows "0 < side_price q a idx side"
proof -
  obtain k where k: "k < length q" "hit side idx k"
  proof (cases side)
    case SideY
    with assms(2) show ?thesis by (intro that [of idx]) (auto simp: hit_def)
  next
    case SideN
    with assms(3) show ?thesis
      by (intro that [of "if idx = 0 then 1 else 0"]) (auto simp: hit_def)
  qed
  have "0 < lmsr_price q a k" using assms(1) by (rule lmsr_price_pos)
  also have "\<dots> = (if hit side idx k then lmsr_price q a k else 0)" using k by simp
  also have "\<dots> \<le> side_price q a idx side"
    unfolding side_price_def using k assms(1)
    by (intro member_le_sum) (auto intro: less_imp_le lmsr_price_pos)
  finally show ?thesis .
qed

lemma shift_r_shift_r: "shift_r (shift_r q idx side d) idx side e = shift_r q idx side (d + e)"
  by (rule nth_equalityI) auto

lemma cost_shift_mono:
  assumes "live q a" and "idx < length q" and "side = SideN \<longrightarrow> 1 < length q" and "0 \<le> d" and "d \<le> d'"
  shows "lmsr_cost (shift_r q idx side d) a \<le> lmsr_cost (shift_r q idx side d') a"
proof -
  let ?q = "shift_r q idx side d"
  have l: "live ?q a" using assms by (intro shift_r_live)
  have "live (shift_r ?q idx side (d' - d)) a"
    using assms by (simp add: shift_r_shift_r shift_r_live)
  from cost_shift_ge [OF l this]
  have "side_price ?q a idx side * (d' - d) \<le> lmsr_cost (shift_r q idx side d') a - lmsr_cost ?q a"
    by (simp add: shift_r_shift_r)
  moreover have "0 \<le> side_price ?q a idx side * (d' - d)"
    using side_price_pos [OF l] assms by (intro mult_nonneg_nonneg) (auto intro: less_imp_le)
  ultimately show ?thesis by linarith
qed


subsection \<open>The engine computes the rule\<close>

lemma foldl_add_exact:
  "foldl (\<lambda>acc x. js_add exact acc (Fin (g x))) (Fin c) xs = Fin (c + (\<Sum>i<length xs. g (xs ! i)))"
  by (induction xs arbitrary: c) (simp_all add: sum.lessThan_Suc_shift del: sum.lessThan_Suc)

lemma foldl_js_add_exact: "foldl (js_add exact) (Fin c) (map Fin xs) = Fin (c + (\<Sum>i<length xs. xs ! i))"
  using foldl_add_exact [of "\<lambda>x. x" c xs] by (simp add: foldl_map)

lemma computeB_exact: "computeB exact (map Fin q) (Fin a) = Fin (lmsr_b q a)"
  by (simp add: computeB_def lmsr_b_def foldl_js_add_exact)

lemma cost_exact:
  assumes "live q a"
  shows "cost exact (map Fin q) (Fin a) = Fin (lmsr_cost q a)"
proof -
  have "lmsr_b q a \<noteq> 0" using live_b [OF assms] by simp
  then have "foldl (\<lambda>acc qi. js_add exact acc (Math_exp exact (js_div exact qi (Fin (lmsr_b q a)))))
      (Fin 0) (map Fin q) = Fin (lmsr_Z q a)"
    by (simp add: foldl_map foldl_add_exact lmsr_Z_def)
  with live_Z [OF assms] show ?thesis
    by (simp add: cost_def computeB_exact Let_def lmsr_cost_def)
qed

lemma reduce1_add_exact:
  "xs \<noteq> [] \<Longrightarrow> reduce1 (js_add exact) (map Fin xs) = Inr (Fin (\<Sum>i<length xs. xs ! i))"
  by (cases xs) (simp_all add: foldl_js_add_exact sum.lessThan_Suc_shift del: sum.lessThan_Suc)

lemma foldl_js_max: "\<exists>m. foldl js_max (Fin c) (map Fin xs) = Fin m"
  by (induction xs arbitrary: c) simp_all

lemma softmax_shift:
  assumes "live q a"
  shows "exp (q ! i / lmsr_b q a - m) / (\<Sum>j<length q. exp (q ! j / lmsr_b q a - m)) = lmsr_soft q a i"
proof -
  have "(\<Sum>j<length q. exp (q ! j / lmsr_b q a - m)) = lmsr_Z q a / exp m"
    by (simp add: exp_diff lmsr_Z_def sum_divide_distrib)
  with live_Z [OF assms] show ?thesis by (simp add: exp_diff lmsr_soft_def)
qed

lemma map_nth_list: "map f xs = map (\<lambda>i. f (xs ! i)) [0..<length xs]"
  by (rule nth_equalityI) auto

lemma softmaxB_exact:
  assumes "live q a"
  shows "softmaxB exact (map Fin q) (Fin a) = Inr (map (\<lambda>i. Fin (lmsr_soft q a i)) [0..<length q])"
proof -
  obtain c qs where q: "q = c # qs" using live_nonempty [OF assms] by (cases q) auto
  obtain m0 where m0: "reduce1 js_max (map Fin q) = Inr (Fin m0)"
    using foldl_js_max [of c qs] by (auto simp: q)
  define b where "b = lmsr_b q a"
  define m where "m = m0 / b"
  define g where "g x = exp (x / b - m)" for x
  have b: "b \<noteq> 0" using live_b [OF assms] by (simp add: b_def)
  have mx: "js_div exact (Fin m0) (Fin b) = Fin m" using b by (simp add: m_def)
  have ev: "map (\<lambda>qi. Math_exp exact (js_sub exact (js_div exact qi (Fin b)) (Fin m))) (map Fin q) =
      map Fin (map g q)"
    using b by (simp add: g_def)
  have red: "reduce1 (js_add exact) (map Fin (map g q)) = Inr (Fin (\<Sum>j<length q. g (q ! j)))"
    using reduce1_add_exact [of "map g q"] by (simp add: q [THEN arg_cong [where f = "\<lambda>x. x = []"]])
  have "0 < (\<Sum>j<length q. g (q ! j))"
    by (intro sum_pos) (auto simp: q g_def lessThan_empty_iff)
  then have Z: "(\<Sum>j<length q. g (q ! j)) \<noteq> 0" by simp
  have soft: "g (q ! i) / (\<Sum>j<length q. g (q ! j)) = lmsr_soft q a i" for i
    using softmax_shift [OF assms] by (simp add: g_def b_def)
  have "softmaxB exact (map Fin q) (Fin a) = Inr (map (\<lambda>v. js_div exact v (Fin (\<Sum>j<length q. g (q ! j)))) (map Fin (map g q)))"
    by (simp only: softmaxB_def computeB_exact Let_def m0 bindE_simps b_def [symmetric] mx ev red)
  also have "\<dots> = Inr (map (\<lambda>x. Fin (g x / (\<Sum>j<length q. g (q ! j)))) q)"
    using Z by simp
  also have "\<dots> = Inr (map (\<lambda>i. Fin (lmsr_soft q a i)) [0..<length q])"
    by (subst map_nth_list) (simp add: soft)
  finally show ?thesis .
qed

lemma prices_exact:
  assumes "live q a"
  shows "prices exact (map Fin q) (Fin a) = Inr (map (\<lambda>i. Fin (lmsr_price q a i)) [0..<length q])"
proof -
  let ?s = "map (lmsr_soft q a) [0..<length q]"
  have lg: "Math_log exact (Fin (lmsr_soft q a i)) = Fin (ln (lmsr_soft q a i))" for i
    using lmsr_soft_pos [OF assms, of i] by simp
  have "foldl (\<lambda>acc s. js_add exact acc (js_mul exact s (Math_log exact s))) (Fin 0) (map Fin ?s) =
      foldl (\<lambda>acc x. js_add exact acc (Fin (x * ln x))) (Fin 0) ?s"
    unfolding foldl_map by (intro foldl_cong) (auto simp: lg simp del: Math_log.simps)
  also have "\<dots> = Fin (- lmsr_entropy q a)"
    by (simp add: foldl_add_exact lmsr_entropy_def)
  finally show ?thesis
    using softmaxB_exact [OF assms]
    by (simp add: prices_def Let_def lmsr_price_def comp_def mult.commute)
qed

lemma shift_q_exact:
  assumes "idx < length q"
  shows "shift_q exact (map Fin q) (int idx) side (Fin d) = map Fin (shift_r q idx side d)"
proof (cases side)
  case SideY
  with assms show ?thesis
    by (auto simp: shift_q_def array_set_def hit_def nth_list_update intro!: nth_equalityI)
next
  case SideN
  then show ?thesis
    by (auto simp: shift_q_def hit_def nth_enumerate_eq intro!: nth_equalityI)
qed


subsection \<open>The prices are the gradient of the cost\<close>

lemma shift_r_total:
  "i < length q \<Longrightarrow> (\<Sum>j<length q. shift_r q i SideY t ! j) = (\<Sum>j<length q. q ! j) + t"
  by (simp add: sum.distrib hit_def)

lemma exponent_deriv:
  fixes S a x :: real
  assumes "a * S \<noteq> 0"
  shows "((\<lambda>t. (x + c * t) / (a * (S + t))) has_real_derivative (c - x * a / (a * S)) / (a * S)) (at 0)"
proof -
  have "((\<lambda>t. (x + c * t) / (a * (S + t))) has_real_derivative
      (c * (a * (S + 0)) - (x + c * 0) * a) / ((a * (S + 0)) * (a * (S + 0)))) (at 0)"
    using assms by (auto intro!: derivative_eq_intros)
  moreover have "(c * (a * (S + 0)) - (x + c * 0) * a) / ((a * (S + 0)) * (a * (S + 0))) =
      (c - x * a / (a * S)) / (a * S)"
    using assms by (simp add: field_simps)
  ultimately show ?thesis by simp
qed

lemma log_scaled_deriv:
  fixes G :: "real \<Rightarrow> real"
  assumes "(G has_real_derivative G') (at 0)" and "0 < G 0"
  shows "((\<lambda>t. a * (S + t) * ln (G t)) has_real_derivative a * ln (G 0) + a * S * (G' / G 0)) (at 0)"
  using assms by (auto intro!: derivative_eq_intros)

lemma lmsr_cost_shift_form:
  assumes "i < length q"
  shows "lmsr_cost (shift_r q i SideY t) a =
    a * ((\<Sum>j<length q. q ! j) + t) *
      ln (\<Sum>j<length q. exp ((q ! j + (if j = i then 1 else 0) * t) / (a * ((\<Sum>j<length q. q ! j) + t))))"
proof -
  have b: "lmsr_b (shift_r q i SideY t) a = a * ((\<Sum>j<length q. q ! j) + t)"
    unfolding lmsr_b_def length_shift_r shift_r_total [OF assms] ..
  have "(\<Sum>j<length q. exp (shift_r q i SideY t ! j / lmsr_b (shift_r q i SideY t) a)) =
      (\<Sum>j<length q. exp ((q ! j + (if j = i then 1 else 0) * t) / (a * ((\<Sum>j<length q. q ! j) + t))))"
    unfolding b by (intro sum.cong) (auto simp: hit_def)
  then show ?thesis unfolding lmsr_cost_def lmsr_Z_def length_shift_r by (simp only: b)
qed

lemma lmsr_cost_deriv:
  assumes "live q a" and "i < length q"
  shows "((\<lambda>t. lmsr_cost (shift_r q i SideY t) a) has_real_derivative lmsr_price q a i) (at 0)"
proof -
  define S b Z where "S = (\<Sum>j<length q. q ! j)" and "b = a * S" and "Z = lmsr_Z q a"
  define c :: "nat \<Rightarrow> real" where "c j = (if j = i then 1 else 0)" for j
  define E where "E j = exp (q ! j / b)" for j
  have b: "b = lmsr_b q a" by (simp add: b_def S_def lmsr_b_def)
  have bn: "a * S \<noteq> 0" using live_b [OF assms(1)] by (auto simp: b [symmetric] b_def)
  have Zs: "Z = (\<Sum>j<length q. E j)" and Zp: "0 < Z"
    using live_Z [OF assms(1)] by (simp_all add: Z_def E_def lmsr_Z_def b)
  have "((\<lambda>t. \<Sum>j<length q. exp ((q ! j + c j * t) / (a * (S + t)))) has_real_derivative
      (\<Sum>j<length q. E j * ((c j - q ! j * a / b) / b))) (at 0)"
  proof (rule DERIV_sum)
    fix j
    show "((\<lambda>t. exp ((q ! j + c j * t) / (a * (S + t)))) has_real_derivative
        E j * ((c j - q ! j * a / b) / b)) (at 0)"
      using DERIV_fun_exp [OF exponent_deriv [OF bn, of "q ! j" "c j"]] by (simp add: E_def b_def)
  qed
  note dZ = this
  have "((\<lambda>t. a * (S + t) * ln (\<Sum>j<length q. exp ((q ! j + c j * t) / (a * (S + t))))) has_real_derivative
      a * ln Z + b * ((\<Sum>j<length q. E j * ((c j - q ! j * a / b) / b)) / Z)) (at 0)"
    using log_scaled_deriv [OF dZ, of a S] Zp by (simp add: Zs E_def b_def)
  also have "(\<lambda>t. a * (S + t) * ln (\<Sum>j<length q. exp ((q ! j + c j * t) / (a * (S + t))))) =
      (\<lambda>t. lmsr_cost (shift_r q i SideY t) a)"
    by (rule ext) (simp only: lmsr_cost_shift_form [OF assms(2)] S_def c_def)
  also have "a * ln Z + b * ((\<Sum>j<length q. E j * ((c j - q ! j * a / b) / b)) / Z) = lmsr_price q a i"
  proof -
    have "b * ((\<Sum>j<length q. E j * ((c j - q ! j * a / b) / b)) / Z) =
        (\<Sum>j<length q. E j / Z * c j) - a * (\<Sum>j<length q. E j / Z * (q ! j / b))"
      using bn by (simp add: sum_divide_distrib sum_distrib_left right_diff_distrib diff_divide_distrib
          sum_subtractf b_def mult_ac)
    also have "(\<Sum>j<length q. E j / Z * c j) = (\<Sum>j<length q. if j = i then E i / Z else 0)"
      by (intro sum.cong) (auto simp: c_def)
    also have "\<dots> = E i / Z" using assms(2) by simp
    also have "(\<Sum>j<length q. E j / Z * (q ! j / b)) = ln Z - lmsr_entropy q a"
      using lmsr_entropy_eq [OF assms(1)] by (simp add: lmsr_soft_def E_def Z_def b)
    also have "E i / Z = lmsr_soft q a i" by (simp add: lmsr_soft_def E_def Z_def b)
    finally show ?thesis by (simp add: lmsr_price_def right_diff_distrib)
  qed
  finally show ?thesis .
qed


subsection \<open>Bounds and scaling\<close>

lemma lmsr_entropy_le:
  assumes "live q a"
  shows "lmsr_entropy q a \<le> ln (length q)"
proof -
  let ?n = "length q"
  have n: "0 < ?n" using assms by (rule live_nonempty)
  have "(\<Sum>i<?n. lmsr_soft q a i * ln (1 / ?n)) \<le> (\<Sum>i<?n. lmsr_soft q a i * ln (lmsr_soft q a i))"
    using n assms by (intro gibbs) (auto intro: lmsr_soft_pos simp: lmsr_soft_sum)
  moreover have "(\<Sum>i<?n. lmsr_soft q a i * ln (1 / ?n)) = ln (1 / ?n)"
    using assms by (simp add: lmsr_soft_sum flip: sum_distrib_right)
  ultimately show ?thesis using n by (simp add: lmsr_entropy_def ln_div)
qed

lemma lmsr_cost_ge:
  assumes "live q a" and "i < length q"
  shows "q ! i \<le> lmsr_cost q a"
proof -
  have "exp (q ! i / lmsr_b q a) \<le> lmsr_Z q a"
    unfolding lmsr_Z_def using assms(2) by (intro member_le_sum) auto
  then have "q ! i / lmsr_b q a \<le> ln (lmsr_Z q a)"
    using live_Z [OF assms(1)] by (simp add: ln_ge_iff)
  then show ?thesis
    using live_b [OF assms(1)] by (simp add: lmsr_cost_def divide_le_eq mult.commute)
qed

lemma lmsr_cost_le:
  assumes "live q a" and "\<And>i. i < length q \<Longrightarrow> q ! i \<le> m"
  shows "lmsr_cost q a \<le> m + lmsr_b q a * ln (length q)"
proof -
  let ?b = "lmsr_b q a" and ?n = "length q"
  have b: "0 < ?b" and n: "0 < ?n" using live_b [OF assms(1)] live_nonempty [OF assms(1)] by simp_all
  have "lmsr_Z q a \<le> (\<Sum>i<?n. exp (m / ?b))"
    unfolding lmsr_Z_def using assms(2) b by (intro sum_mono) (simp add: divide_right_mono)
  then have "lmsr_Z q a \<le> ?n * exp (m / ?b)" by simp
  then have "ln (lmsr_Z q a) \<le> ln (?n * exp (m / ?b))"
    using live_Z [OF assms(1)] n by (subst ln_le_cancel_iff) auto
  also have "\<dots> = ln ?n + m / ?b" using n by (simp add: ln_mult)
  finally have "?b * ln (lmsr_Z q a) \<le> ?b * (ln ?n + m / ?b)"
    using b by (intro mult_left_mono) auto
  with b show ?thesis by (simp add: lmsr_cost_def distrib_left)
qed

lemma lmsr_b_scale: "lmsr_b (map ((*) k) q) a = k * lmsr_b q a"
  by (simp add: lmsr_b_def sum_distrib_left mult_ac)

lemma lmsr_Z_scale: "0 < k \<Longrightarrow> lmsr_Z (map ((*) k) q) a = lmsr_Z q a"
  by (simp add: lmsr_Z_def lmsr_b_scale)

lemma lmsr_cost_scale: "0 < k \<Longrightarrow> lmsr_cost (map ((*) k) q) a = k * lmsr_cost q a"
  by (simp add: lmsr_cost_def lmsr_b_scale lmsr_Z_scale)

lemma lmsr_price_scale: "0 < k \<Longrightarrow> i < length q \<Longrightarrow> lmsr_price (map ((*) k) q) a i = lmsr_price q a i"
  by (simp add: lmsr_price_def lmsr_entropy_def lmsr_soft_def lmsr_b_scale lmsr_Z_scale)

lemma live_scale: "live q a \<Longrightarrow> 0 < k \<Longrightarrow> live (map ((*) k) q) a"
  by (simp add: live_def flip: sum_distrib_left)

lemma cost_complete_set:
  assumes "live q a" and "0 \<le> d"
  shows "d \<le> lmsr_cost (map ((+) d) q) a - lmsr_cost q a"
proof -
  have l: "live (map ((+) d) q) a"
    using assms by (auto simp: live_def sum.distrib intro: add_nonneg_pos)
  have "(\<Sum>i<length q. lmsr_price q a i * map ((+) d) q ! i) \<le> lmsr_cost (map ((+) d) q) a"
    by (rule cost_ge_price_dot [OF assms(1) l]) simp
  moreover have "(\<Sum>i<length q. lmsr_price q a i * map ((+) d) q ! i) =
      d * (\<Sum>i<length q. lmsr_price q a i) + lmsr_cost q a"
    by (simp add: cost_eq_price_dot [OF assms(1)] distrib_left sum.distrib sum_distrib_left mult_ac)
  moreover have "d * 1 \<le> d * (\<Sum>i<length q. lmsr_price q a i)"
    using assms lmsr_entropy_nonneg [OF assms(1)]
    by (intro mult_left_mono) (auto simp: lmsr_price_sum live_def)
  ultimately show ?thesis by linarith
qed


end
