(* ===== verification/Pricing.thy ===== *)
theory Pricing
  imports Lmsr
begin

section \<open>Quotes\<close>

text \<open>
  What the functions that the user interface calls promise: the payout found for a stake, the quote
  shown for a stake and the value offered for cashing a bet out. The properties are on exact
  arithmetic; \<open>decimal_exact\<close> adds to the documented interface of the decimal package that the
  conversion between \<^verbatim>\<open>Decimal\<close> and \<^verbatim>\<open>number\<close> loses nothing.
\<close>

subsection \<open>The search bracket of a payout\<close>

lemma side_price_Y: "idx < length q \<Longrightarrow> side_price q a idx SideY = lmsr_price q a idx"
  by (simp add: side_price_def hit_def)

lemma side_price_N:
  assumes "idx < length q"
  shows "side_price q a idx SideN = (\<Sum>j<length q. lmsr_price q a j) - lmsr_price q a idx"
proof -
  have "(\<Sum>j<length q. lmsr_price q a j) = side_price q a idx SideY + side_price q a idx SideN"
    unfolding side_price_def sum.distrib [symmetric] by (intro sum.cong) (auto simp: hit_def)
  with side_price_Y [OF assms] show ?thesis by simp
qed

lemma side_price_mono:
  assumes "live q a" and "0 < d"
  shows "side_price q a idx side \<le> side_price (shift_r q idx side d) a idx side"
proof -
  have l: "live (shift_r q idx side d) a" using assms by (simp add: shift_r_live)
  have "side_price q a idx side * d \<le> side_price (shift_r q idx side d) a idx side * d"
    using cost_shift_ge [OF assms(1) l] cost_shift_le [OF assms(1) l] by linarith
  with assms(2) show ?thesis by simp
qed

lemma spend_gap_exact:
  assumes "live q a" and "idx < length q" and "0 \<le> d"
  shows "spend_gap exact (map Fin q) (int idx) (Fin a) (Fin spend) side (Fin d) =
    Fin (lmsr_cost (shift_r q idx side d) a - lmsr_cost q a - spend)"
  using assms by (simp add: spend_gap_def shift_q_exact cost_exact shift_r_live)

lemma payoutForSpend_exact:
  assumes "live q a" and "idx < length q" and "side = SideN \<longrightarrow> 1 < length q"
  shows "payoutForSpend exact (map Fin q) (int idx) (Fin a) (Fin spend) side =
    map_option Inr (bisect exact (Fin spend) (Fin (spend / side_price q a idx side)) (lit exact (1 / 1000))
      (spend_gap exact (map Fin q) (int idx) (Fin a) (Fin spend) side))"
proof -
  have p: "0 < side_price q a idx side" using side_price_pos [OF assms] .
  let ?ps = "map (lmsr_price q a) [0..<length q]"
  have pr: "prices exact (map Fin q) (Fin a) = Inr (map Fin ?ps)"
    using prices_exact [OF assms(1)] by (simp add: comp_def)
  have i: "js_index (map Fin ?ps) (int idx) = Fin (lmsr_price q a idx)"
    using assms(2) by simp
  show ?thesis
  proof (cases side)
    case SideY
    with p side_price_Y [OF assms(2)] show ?thesis
      unfolding payoutForSpend_def pr bindE_simps SideY bet_side.case i by simp
  next
    case SideN
    have "reduce1 (js_add exact) (map Fin ?ps) = Inr (Fin (\<Sum>j<length q. lmsr_price q a j))"
      using assms(2) by (subst reduce1_add_exact) auto
    with SideN p side_price_N [OF assms(2)] show ?thesis
      unfolding payoutForSpend_def pr bindE_simps SideN bet_side.case i by simp
  qed
qed

text \<open>The hypotheses under which a stake has a payout in the bracket that the code searches.\<close>

definition quotable :: "real list \<Rightarrow> real \<Rightarrow> nat \<Rightarrow> bet_side \<Rightarrow> real \<Rightarrow> bool" where
  "quotable q a idx side spend \<longleftrightarrow>
     live q a \<and> idx < length q \<and> (side = SideN \<longrightarrow> 1 < length q) \<and>
     0 < spend \<and> spend \<le> 100000000000 * min 1 (side_price q a idx side) \<and>
     side_price (shift_r q idx side spend) a idx side \<le> 1"

definition buy_cost :: "real list \<Rightarrow> real \<Rightarrow> nat \<Rightarrow> bet_side \<Rightarrow> real \<Rightarrow> real" where
  "buy_cost q a idx side d = lmsr_cost (shift_r q idx side d) a - lmsr_cost q a"

lemma payout_optimal:
  assumes "quotable q a idx side spend"
  shows "\<exists>r. payoutForSpend exact (map Fin q) (int idx) (Fin a) (Fin spend) side = Some (Inr (Fin r)) \<and>
    spend \<le> r \<and> buy_cost q a idx side r \<le> spend \<and>
    (\<forall>r'\<ge>r + 1002 / 1000000. spend \<le> buy_cost q a idx side r')"
proof -
  let ?P = "side_price q a idx side" and ?f = "spend_gap exact (map Fin q) (int idx) (Fin a) (Fin spend) side"
  from assms have l: "live q a" and i: "idx < length q" and n: "side = SideN \<longrightarrow> 1 < length q"
    and s: "0 < spend" and sm: "spend \<le> 100000000000" and sp: "spend \<le> 100000000000 * ?P"
    and fair: "side_price (shift_r q idx side spend) a idx side \<le> 1"
    by (auto simp: quotable_def min_def split: if_splits)
  have p: "0 < ?P" using side_price_pos [OF l i n] .
  have p1: "?P \<le> 1" using side_price_mono [OF l s, of idx side] fair by linarith
  let ?hi = "spend / ?P"
  have hi: "spend \<le> ?hi" "\<bar>?hi\<bar> \<le> 100000000000"
    using p p1 s sp by (simp_all add: le_divide_eq divide_le_eq mult_left_le)
  have lo: "\<bar>spend\<bar> \<le> 100000000000" using s sm by simp
  obtain r where r: "bisect exact (Fin spend) (Fin ?hi) (lit exact (1 / 1000)) ?f = Some (Fin r)"
    and br: "bracketed ?f spend ?hi r"
    using exact_fp.bisect_bracketed [OF lo hi(2,1)] by blast
  have gap: "js_gt (?f (Fin d)) (Fin 0) \<longleftrightarrow> spend < buy_cost q a idx side d" if "0 \<le> d" for d
    using spend_gap_exact [OF l i that] by (simp add: buy_cost_def)
  have lo_ok: "buy_cost q a idx side spend \<le> spend"
  proof -
    have "side_price (shift_r q idx side spend) a idx side * spend \<le> 1 * spend"
      using fair s by (intro mult_right_mono) auto
    with cost_shift_le [OF l shift_r_live [OF l], of spend idx side] s show ?thesis
      unfolding buy_cost_def by linarith
  qed
  have hi_ok: "spend \<le> buy_cost q a idx side ?hi"
    using cost_shift_ge [OF l shift_r_live [OF l], of ?hi idx side] p s by (simp add: buy_cost_def)
  from br obtain r' where "spend \<le> r" and c1: "r = spend \<or> \<not> js_gt (?f (Fin r)) (Fin 0)"
    and r': "r \<le> r'" "r' - r \<le> 1002 / 1000000" "r' = ?hi \<or> js_gt (?f (Fin r')) (Fin 0)"
    by (auto simp: bracketed_def)
  have "buy_cost q a idx side r \<le> spend"
    using c1 gap [of r] \<open>spend \<le> r\<close> s lo_ok by auto
  moreover have "spend \<le> buy_cost q a idx side r'"
    using r' gap [of r'] \<open>spend \<le> r\<close> s hi_ok by auto
  moreover have "buy_cost q a idx side r' \<le> buy_cost q a idx side r''" if "r + 1002 / 1000000 \<le> r''" for r''
    using cost_shift_mono [OF l i n, of r' r''] r' that \<open>spend \<le> r\<close> s by (simp add: buy_cost_def)
  ultimately show ?thesis
    using r \<open>spend \<le> r\<close> payoutForSpend_exact [OF l i n, of spend] by fastforce
qed

subsection \<open>A concrete market\<close>

text \<open>Two outcomes of one share each, liquidity parameter 1/4, a stake of 1/2 on the first outcome.\<close>

lemma live_example: "live [1, 1] (1 / 4)"
  by (simp add: live_def)

lemma soft_example: "lmsr_soft [1, 1] (1 / 4) 0 = 1 / 2"
  by (simp add: lmsr_soft_def lmsr_Z_def lmsr_b_def)

lemma shift_example: "shift_r [1, 1] 0 SideY (1 / 2) = [3 / 2, 1]"
  by (simp add: shift_r_def hit_def)

lemma exp_le_3: "exp x \<le> 3" if "x \<le> 1" for x :: real
proof -
  have "exp x \<le> exp 1" using that by simp
  also have "\<dots> \<le> 3" by (rule exp_le)
  finally show ?thesis .
qed

lemma soft_shift_example: "lmsr_soft [3 / 2, 1] (1 / 4) 0 \<le> 3 / 4"
proof -
  have "exp (12 / 5 :: real) = exp (8 / 5) * exp (4 / 5)" by (simp flip: exp_add)
  also have "\<dots> \<le> exp (8 / 5) * 3" using exp_le_3 [of "4 / 5"] by (intro mult_left_mono) auto
  finally have "exp (12 / 5 :: real) \<le> 3 * exp (8 / 5)" by simp
  moreover have "0 < exp (12 / 5 :: real) + exp (8 / 5)" by (intro add_pos_pos) auto
  ultimately show ?thesis
    by (simp add: lmsr_soft_def lmsr_Z_def lmsr_b_def divide_le_eq)
qed

lemma quotable_example: "quotable [1, 1] (1 / 4) 0 SideY (1 / 2)"
proof -
  have l: "live [3 / 2, 1] (1 / 4)" by (simp add: live_def)
  have "lmsr_entropy [3 / 2, 1] (1 / 4) \<le> 1"
    using lmsr_entropy_le [OF l] ln_2_less_1 by simp
  with soft_shift_example have "lmsr_price [3 / 2, 1] (1 / 4) 0 \<le> 1"
    by (simp add: lmsr_price_def)
  then have "side_price (shift_r [1, 1] 0 SideY (1 / 2)) (1 / 4) 0 SideY \<le> 1"
    by (simp add: shift_example side_price_Y)
  moreover have "1 / 2 \<le> side_price [1, 1] (1 / 4) 0 SideY"
    using lmsr_entropy_nonneg [OF live_example] by (simp add: side_price_Y lmsr_price_def soft_example)
  ultimately show ?thesis
    using live_example by (simp add: quotable_def min_def)
qed

subsection \<open>Properties of the engine\<close>

text \<open>
  C1. On exact arithmetic \<open>cost\<close> and \<open>prices\<close> compute the liquidity-sensitive logarithmic market
  scoring rule: the shift by the largest exponent in \<open>softmaxB\<close> does not change the result, and no
  special value of the number type is produced.
\<close>

theorem engine_refines_rule:
  assumes "live q a"
  shows "cost exact (map Fin q) (Fin a) = Fin (lmsr_cost q a) \<and>
    softmaxB exact (map Fin q) (Fin a) = Inr (map (\<lambda>i. Fin (lmsr_soft q a i)) [0..<length q]) \<and>
    prices exact (map Fin q) (Fin a) = Inr (map (\<lambda>i. Fin (lmsr_price q a i)) [0..<length q])"
  using cost_exact [OF assms] softmaxB_exact [OF assms] prices_exact [OF assms] by simp

theorem engine_refines_rule_witness:
  "cost exact (map Fin [1, 1]) (Fin (1 / 4)) = Fin (lmsr_cost [1, 1] (1 / 4)) \<and>
    softmaxB exact (map Fin [1, 1]) (Fin (1 / 4)) = Inr (map (\<lambda>i. Fin (lmsr_soft [1, 1] (1 / 4) i)) [0..<2]) \<and>
    prices exact (map Fin [1, 1]) (Fin (1 / 4)) = Inr (map (\<lambda>i. Fin (lmsr_price [1, 1] (1 / 4) i)) [0..<2])"
  using engine_refines_rule [OF live_example] by (simp add: numeral_2_eq_2)

text \<open>
  C32. The price of an outcome is the partial derivative of the cost in that outcome's quantity: the
  number that \<open>prices\<close> returns at position \<open>i\<close> is the derivative of \<open>cost\<close> as the quantity \<open>i\<close> moves.
\<close>

theorem prices_are_gradient:
  assumes "live q a" and "i < length q"
  shows "\<exists>ps p. prices exact (map Fin q) (Fin a) = Inr ps \<and> ps ! i = Fin p \<and>
    ((\<lambda>t. real_of_num (cost exact (map Fin (shift_r q i SideY t)) (Fin a))) has_real_derivative p) (at 0)"
proof -
  have "((\<lambda>t. lmsr_cost (shift_r q i SideY t) a) has_real_derivative lmsr_price q a i) (at 0)"
    using assms by (rule lmsr_cost_deriv)
  moreover have "\<forall>\<^sub>F t in nhds 0. lmsr_cost (shift_r q i SideY t) a =
      real_of_num (cost exact (map Fin (shift_r q i SideY t)) (Fin a))"
  proof -
    let ?S = "\<Sum>j<length q. q ! j"
    have "\<forall>\<^sub>F t in nhds 0. - ?S < t"
      using assms(1) by (intro eventually_nhds_in_open [of "{- ?S <..}", simplified]) (simp_all add: live_def)
    then show ?thesis
    proof eventually_elim
      case (elim t)
      then have "live (shift_r q i SideY t) a"
        using assms shift_r_total [of i q t] by (simp add: live_def)
      then show ?case by (simp add: cost_exact real_of_num_def)
    qed
  qed
  ultimately have "((\<lambda>t. real_of_num (cost exact (map Fin (shift_r q i SideY t)) (Fin a)))
      has_real_derivative lmsr_price q a i) (at 0)"
    by (subst (asm) DERIV_cong_ev) auto
  then show ?thesis using prices_exact [OF assms(1)] assms(2) by auto
qed

theorem prices_are_gradient_witness:
  "\<exists>ps p. prices exact (map Fin [1, 1]) (Fin (1 / 4)) = Inr ps \<and> ps ! 0 = Fin p \<and>
    ((\<lambda>t. real_of_num (cost exact (map Fin (shift_r [1, 1] 0 SideY t)) (Fin (1 / 4)))) has_real_derivative p) (at 0)"
  using prices_are_gradient [OF live_example, of 0] by simp




text \<open>
  Every price is positive, and the prices add up to one plus the number of outcomes times the
  liquidity parameter times the entropy of the softmax, which lies between zero and the logarithm
  of the number of outcomes: the book is never under-round and its margin is bounded.
\<close>

theorem prices_overround:
  assumes "live q a"
  shows "\<exists>ps. prices exact (map Fin q) (Fin a) = Inr (map Fin ps) \<and> length ps = length q \<and>
    (\<forall>p\<in>set ps. 0 < p) \<and> 1 \<le> (\<Sum>i<length q. ps ! i) \<and>
    (\<Sum>i<length q. ps ! i) \<le> 1 + length q * (a * ln (length q))"
proof -
  let ?ps = "map (lmsr_price q a) [0..<length q]"
  have a: "0 < a" using assms by (simp add: live_def)
  have sum: "(\<Sum>i<length q. ?ps ! i) = 1 + length q * (a * lmsr_entropy q a)"
    using lmsr_price_sum [OF assms] by simp
  have "length q * (a * lmsr_entropy q a) \<le> length q * (a * ln (length q))"
    using a lmsr_entropy_le [OF assms] by (intro mult_left_mono) auto
  moreover have "0 \<le> length q * (a * lmsr_entropy q a)"
    using a lmsr_entropy_nonneg [OF assms] by simp
  moreover have "prices exact (map Fin q) (Fin a) = Inr (map Fin ?ps)"
    using prices_exact [OF assms] by (simp add: comp_def)
  ultimately show ?thesis
    using lmsr_price_pos [OF assms] sum by (intro exI [of _ ?ps]) auto
qed

theorem prices_overround_witness:
  "\<exists>ps. prices exact (map Fin [1, 1]) (Fin (1 / 4)) = Inr (map Fin ps) \<and> length ps = 2 \<and>
    (\<forall>p\<in>set ps. 0 < p) \<and> 1 \<le> (\<Sum>i<2. ps ! i) \<and> (\<Sum>i<2. ps ! i) \<le> 1 + 2 * (1 / 4 * ln 2)"
  using prices_overround [OF live_example] by (simp add: numeral_2_eq_2)

text \<open>
  C33. The cost is at least every quantity, so that what the market maker has collected covers the
  payout of whichever outcome wins, and exceeds the largest quantity by at most the liquidity times
  the logarithm of the number of outcomes.
\<close>

theorem cost_covers_payout:
  assumes "live q a" and "i < length q" and "\<And>j. j < length q \<Longrightarrow> q ! j \<le> m"
  shows "\<exists>c. cost exact (map Fin q) (Fin a) = Fin c \<and> q ! i \<le> c \<and>
    c \<le> m + a * (\<Sum>j<length q. q ! j) * ln (length q)"
  using lmsr_cost_ge [OF assms(1,2)] lmsr_cost_le [OF assms(1,3)] cost_exact [OF assms(1)]
  by (simp add: lmsr_b_def)

theorem cost_covers_payout_witness:
  "\<exists>c. cost exact (map Fin [1, 1]) (Fin (1 / 4)) = Fin c \<and> 1 \<le> c \<and> c \<le> 1 + 1 / 4 * 2 * ln 2"
proof -
  have "\<And>j. j < length [1, 1 :: real] \<Longrightarrow> [1, 1 :: real] ! j \<le> 1"
    by (auto simp: less_Suc_eq)
  from cost_covers_payout [OF live_example _ this, of 0] show ?thesis by simp
qed

text \<open>
  Scaling all quantities scales the cost and leaves the prices as they are: the depth of the
  market grows with its volume.
\<close>

theorem prices_scale_invariant:
  assumes "live q a" and "0 < k"
  shows "prices exact (map (\<lambda>x. Fin (k * x)) q) (Fin a) = prices exact (map Fin q) (Fin a) \<and>
    (\<exists>c. cost exact (map Fin q) (Fin a) = Fin c \<and> cost exact (map (\<lambda>x. Fin (k * x)) q) (Fin a) = Fin (k * c))"
proof -
  have l: "live (map ((*) k) q) a" using assms by (rule live_scale)
  have "map (\<lambda>x. Fin (k * x)) q = map Fin (map ((*) k) q)" by simp
  then show ?thesis
    using cost_exact [OF l] cost_exact [OF assms(1)] prices_exact [OF l] prices_exact [OF assms(1)] assms(2)
    by (auto simp: comp_def lmsr_cost_scale lmsr_price_scale)
qed

theorem prices_scale_invariant_witness:
  "prices exact (map (\<lambda>x. Fin (10 * x)) [1, 1]) (Fin (1 / 4)) = prices exact (map Fin [1, 1]) (Fin (1 / 4)) \<and>
    (\<exists>c. cost exact (map Fin [1, 1]) (Fin (1 / 4)) = Fin c \<and>
         cost exact (map (\<lambda>x. Fin (10 * x)) [1, 1]) (Fin (1 / 4)) = Fin (10 * c))"
  using prices_scale_invariant [OF live_example, of 10] by simp


end
