(* ===== verification/Quotes.thy ===== *)
theory Quotes
  imports Pricing
begin

section \<open>Quotes shown to the user\<close>

text \<open>
  The two functions the bet forms call, \<open>possiblePayoutProbForSpend\<close> and
  \<open>possiblePayoutDeltaForCashout\<close>, on a market whose values are \<^verbatim>\<open>Decimal\<close>: the payout that is
  offered for a stake, and the amount that is offered for giving a bet back.
\<close>

subsection \<open>The quantities of a market as reals\<close>

definition quantities :: "('d \<Rightarrow> real) \<Rightarrow> 'd market_view \<Rightarrow> real list" where
  "quantities val m = map (\<lambda>ob. val (quantity ob)) (outcomes m)"

definition market_fin :: "('d \<Rightarrow> bool) \<Rightarrow> 'd market_view \<Rightarrow> bool" where
  "market_fin fin m \<longleftrightarrow> (\<forall>ob\<in>set (outcomes m). fin (quantity ob)) \<and> fin (alpha m) \<and> fin (capPrice m)"

lemma length_quantities [simp]: "length (quantities val m) = length (outcomes m)"
  by (simp add: quantities_def)

definition outcome_index :: "'d market_view \<Rightarrow> int \<Rightarrow> int" where
  "outcome_index m oid = findIndex (\<lambda>ob. o_id ob = oid) (outcomes m)"

lemma shift_back: "shift_r (shift_r q idx side d) idx (opposite side) d = map ((+) d) q"
  by (rule nth_equalityI) (auto simp: hit_def opposite_def split: bet_side.splits)

lemma over_cap_Fin: "over_cap (map Fin ps) (Fin c) \<longleftrightarrow> (\<exists>p\<in>set ps. c < p)"
  by (simp add: over_cap_def list_ex_iff)

context decimal_exact
begin

lemma toNumber_quantities:
  "market_fin fin m \<Longrightarrow> map (\<lambda>ob. toNumber D (quantity ob)) (outcomes m) = map Fin (quantities val m)"
  by (simp add: market_fin_def quantities_def toNumber_exact)

lemma trunc_down:
  assumes "fin x" and "0 \<le> val x"
  shows "fin (truncatePrecision D x n ROUND_DOWN)"
    and "0 \<le> val (truncatePrecision D x n ROUND_DOWN)"
    and "val (truncatePrecision D x n ROUND_DOWN) \<le> val x"
    and "val x - 1 / 10 ^ n < val (truncatePrecision D x n ROUND_DOWN)"
  using places [OF assms(1)] round_dp_down [OF assms(2)] by (simp_all add: truncatePrecision_def)

lemma trunc_up:
  assumes "fin x" and "0 \<le> val x"
  shows "fin (truncatePrecision D x n ROUND_UP)" and "val x \<le> val (truncatePrecision D x n ROUND_UP)"
  using places [OF assms(1)] round_dp_up [OF assms(2)] by (simp_all add: truncatePrecision_def)

lemma proportion_bound:
  assumes "fin s" and "fin p" and "0 < val s" and "0 < val p"
  shows "val s * (1 - 1 / 10 ^ 11) \<le> val (truncatePrecision D (gainProportion D s p) n ROUND_UP) * val p"
proof -
  have d: "fin (gainProportion D s p)"
    "val (gainProportion D s p) = round_sig ROUND_DOWN 12 (val s / val p)"
    using div [of s p decimal_conf] assms by (simp_all add: gainProportion_def decimal_conf_def)
  have pos: "0 < val s / val p" using assms by simp
  have "val s / val p * (1 - 1 / 10 ^ 11) \<le> val (gainProportion D s p)"
    using round_sig_down_pos(2) [OF pos, of 12] d by simp
  also have "\<dots> \<le> val (truncatePrecision D (gainProportion D s p) n ROUND_UP)"
    using trunc_up(2) [OF d(1)] round_sig_down_pos(1) [OF pos, of 12] d(2) by simp
  finally show ?thesis using assms(4) by (simp add: field_simps)
qed

lemma quote_unfold:
  assumes m: "market_fin fin m" and s: "fin spend"
    and i: "outcome_index m oid = int idx"
    and q: "quotable (quantities val m) (val (alpha m)) idx side (val spend)"
  shows "\<exists>r. val spend \<le> r \<and> buy_cost (quantities val m) (val (alpha m)) idx side r \<le> val spend \<and>
    (\<forall>r'\<ge>r + 1002 / 1000000. val spend \<le> buy_cost (quantities val m) (val (alpha m)) idx side r') \<and>
    possiblePayoutProbForSpend exact D m oid spend side = Some (Inr
      (if \<exists>p\<in>set (map (lmsr_price (shift_r (quantities val m) idx side r) (val (alpha m))) [0..<length (outcomes m)]).
            val (capPrice m) < p
       then (False, dOfInt D 0, dOfInt D 0)
       else (True, truncatePrecision D (dNew D (Fin r)) 2 ROUND_DOWN,
         truncatePrecision D (gainProportion D spend (truncatePrecision D (dNew D (Fin r)) 2 ROUND_DOWN)) SCALE ROUND_UP)))"
proof -
  let ?q = "quantities val m" and ?a = "val (alpha m)"
  from q have l: "live ?q ?a" and ix: "idx < length (outcomes m)" and sp: "0 < val spend"
    by (auto simp: quotable_def)
  obtain r where pay: "payoutForSpend exact (map Fin ?q) (int idx) (Fin ?a) (Fin (val spend)) side = Some (Inr (Fin r))"
    and r: "val spend \<le> r" "buy_cost ?q ?a idx side r \<le> val spend"
      "\<forall>r'\<ge>r + 1002 / 1000000. val spend \<le> buy_cost ?q ?a idx side r'"
    using payout_optimal [OF q] by blast
  have lv: "live (shift_r ?q idx side r) ?a" using l r sp by (intro shift_r_live) auto
  have pr: "prices exact (shift_q exact (map Fin ?q) (int idx) side (Fin r)) (Fin ?a) =
      Inr (map Fin (map (lmsr_price (shift_r ?q idx side r) ?a) [0..<length (outcomes m)]))"
    using prices_exact [OF lv] ix by (simp add: shift_q_exact comp_def)
  have nums: "toNumber D (alpha m) = Fin ?a" "toNumber D (capPrice m) = Fin (val (capPrice m))"
    "toNumber D spend = Fin (val spend)"
    using m s by (simp_all add: market_fin_def toNumber_exact)
  have "possiblePayoutProbForSpend exact D m oid spend side = Some (Inr
      (if over_cap (map Fin (map (lmsr_price (shift_r ?q idx side r) ?a) [0..<length (outcomes m)])) (Fin (val (capPrice m)))
       then (False, dOfInt D 0, dOfInt D 0)
       else (True, truncatePrecision D (dNew D (Fin r)) 2 ROUND_DOWN,
         truncatePrecision D (gainProportion D spend (truncatePrecision D (dNew D (Fin r)) 2 ROUND_DOWN)) SCALE ROUND_UP)))"
    unfolding possiblePayoutProbForSpend_def toNumber_quantities [OF m] nums Let_def
      i [unfolded outcome_index_def] pay
    by (simp add: pr del: map_map)
  with r show ?thesis unfolding over_cap_Fin by blast
qed

lemma quote_sound_val:
  assumes m: "market_fin fin m" and s: "fin spend" "1 / 100 \<le> val spend"
    and i: "outcome_index m oid = int idx"
    and q: "quotable (quantities val m) (val (alpha m)) idx side (val spend)"
  shows "\<exists>ok payout prob. possiblePayoutProbForSpend exact D m oid spend side = Some (Inr (ok, payout, prob)) \<and>
    (ok \<longrightarrow> 0 < val payout \<and> val spend - 1 / 100 < val payout \<and>
      buy_cost (quantities val m) (val (alpha m)) idx side (val payout) \<le> val spend \<and>
      val spend * (1 - 1 / 10 ^ 11) \<le> val prob * val payout \<and>
      (\<exists>r\<ge>val payout. \<forall>k<length (outcomes m).
        lmsr_price (shift_r (quantities val m) idx side r) (val (alpha m)) k \<le> val (capPrice m))) \<and>
    (\<not> ok \<longrightarrow> val payout = 0 \<and> val prob = 0)"
proof -
  let ?q = "quantities val m" and ?a = "val (alpha m)"
  obtain r where r: "val spend \<le> r" "buy_cost ?q ?a idx side r \<le> val spend"
    and eq: "possiblePayoutProbForSpend exact D m oid spend side = Some (Inr
      (if \<exists>p\<in>set (map (lmsr_price (shift_r ?q idx side r) ?a) [0..<length (outcomes m)]). val (capPrice m) < p
       then (False, dOfInt D 0, dOfInt D 0)
       else (True, truncatePrecision D (dNew D (Fin r)) 2 ROUND_DOWN,
         truncatePrecision D (gainProportion D spend (truncatePrecision D (dNew D (Fin r)) 2 ROUND_DOWN)) SCALE ROUND_UP)))"
    using quote_unfold [OF m s(1) i q] by blast
  let ?p = "truncatePrecision D (dNew D (Fin r)) 2 ROUND_DOWN"
  have r0: "0 \<le> val (dNew D (Fin r))" using r(1) s(2) by (simp add: new_exact)
  note t = trunc_down [OF new_fin r0, of 2, unfolded new_exact]
  have p_pos: "0 < val ?p" "val spend - 1 / 100 < val ?p" using t(4) r(1) s(2) by simp_all
  have "buy_cost ?q ?a idx side (val ?p) \<le> buy_cost ?q ?a idx side r"
    using q t(2,3) by (simp add: buy_cost_def quotable_def cost_shift_mono)
  with r(2) have cost: "buy_cost ?q ?a idx side (val ?p) \<le> val spend" by linarith
  have prob: "val spend * (1 - 1 / 10 ^ 11) \<le> val (truncatePrecision D (gainProportion D spend ?p) SCALE ROUND_UP) * val ?p"
    using s t(1) p_pos by (intro proportion_bound) auto
  show ?thesis
  proof (cases "\<exists>p\<in>set (map (lmsr_price (shift_r ?q idx side r) ?a) [0..<length (outcomes m)]). val (capPrice m) < p")
    case True
    with eq show ?thesis by (auto simp: of_int)
  next
    case False
    then have cap: "\<forall>k<length (outcomes m). lmsr_price (shift_r ?q idx side r) ?a k \<le> val (capPrice m)"
      by (simp add: not_less)
    from eq False have "possiblePayoutProbForSpend exact D m oid spend side = Some (Inr (True, ?p,
        truncatePrecision D (gainProportion D spend ?p) SCALE ROUND_UP))"
      by (simp only: if_False)
    moreover have "\<exists>r\<ge>val ?p. \<forall>k<length (outcomes m). lmsr_price (shift_r ?q idx side r) ?a k \<le> val (capPrice m)"
      using cap t(3) by blast
    ultimately show ?thesis using p_pos cost prob by blast
  qed
qed

lemma cashout_value:
  assumes m: "market_fin fin m" and b: "fin (bet_payout bet)"
    and i: "outcome_index m (bet_outcomeId bet) = int idx" "idx < length q"
    and q: "quantities val m = shift_r q idx (bet_side bet) (val (bet_payout bet))"
    and l: "live q (val (alpha m))" and pos: "0 \<le> val (bet_payout bet)"
  shows "\<exists>ok. possiblePayoutDeltaForCashout exact D m bet =
    (let gain = truncatePrecision D (dNew D (Fin
        (val (bet_payout bet) - (lmsr_cost (map ((+) (val (bet_payout bet))) q) (val (alpha m))
           - lmsr_cost (quantities val m) (val (alpha m)))))) 2 ROUND_DOWN
     in Inr (ok, truncatePrecision D (dMinus D decimal_conf (dDiv D decimal_conf gain (pricePaid bet)) (dOfInt D 1)) SCALE ROUND_UP, gain))"
proof -
  let ?a = "val (alpha m)" and ?d = "val (bet_payout bet)" and ?q = "quantities val m"
  have idx: "idx < length ?q" using i(2) q by simp
  have lq: "live ?q ?a" using shift_r_live [OF l pos] q by simp
  have sh: "shift_q exact (map Fin ?q) (int idx) (opposite (bet_side bet)) (Fin ?d) = map Fin (map ((+) ?d) q)"
    using shift_q_exact [OF idx] q by (simp add: shift_back)
  have "live (shift_r ?q idx (opposite (bet_side bet)) ?d) ?a" by (rule shift_r_live [OF lq pos])
  then have lh: "live (map ((+) ?d) q) ?a" by (simp add: q shift_back)
  have nums: "toNumber D (alpha m) = Fin ?a" "toNumber D (capPrice m) = Fin (val (capPrice m))"
    "toNumber D (bet_payout bet) = Fin ?d"
    using m b by (simp_all add: market_fin_def toNumber_exact)
  show ?thesis
    unfolding possiblePayoutDeltaForCashout_def toNumber_quantities [OF m] nums Let_def
      i(1) [unfolded outcome_index_def] sh cost_exact [OF lh] cost_exact [OF lq] prices_exact [OF lh]
    by (simp add: Let_def)
qed

lemma cashout_possible:
  assumes m: "market_fin fin m" and b: "fin (bet_payout bet)"
    and i: "outcome_index m (bet_outcomeId bet) = int idx" "idx < length q"
    and q: "quantities val m = shift_r q idx (bet_side bet) (val (bet_payout bet))"
    and l: "live q (val (alpha m))" and pos: "0 \<le> val (bet_payout bet)"
    and cap: "\<And>k. k < length q \<Longrightarrow> lmsr_price (map ((+) (val (bet_payout bet))) q) (val (alpha m)) k \<le> val (capPrice m)"
  shows "\<exists>delta gain. possiblePayoutDeltaForCashout exact D m bet = Inr (True, delta, gain)"
proof -
  let ?a = "val (alpha m)" and ?d = "val (bet_payout bet)" and ?q = "quantities val m"
  have idx: "idx < length ?q" using i(2) q by simp
  have lq: "live ?q ?a" using shift_r_live [OF l pos] q by simp
  have sh: "shift_q exact (map Fin ?q) (int idx) (opposite (bet_side bet)) (Fin ?d) = map Fin (map ((+) ?d) q)"
    using shift_q_exact [OF idx] q by (simp add: shift_back)
  have "live (shift_r ?q idx (opposite (bet_side bet)) ?d) ?a" by (rule shift_r_live [OF lq pos])
  then have lh: "live (map ((+) ?d) q) ?a" by (simp add: q shift_back)
  have nums: "toNumber D (alpha m) = Fin ?a" "toNumber D (capPrice m) = Fin (val (capPrice m))"
    "toNumber D (bet_payout bet) = Fin ?d"
    using m b by (simp_all add: market_fin_def toNumber_exact)
  have "prices exact (map Fin (map ((+) ?d) q)) (Fin ?a) = Inr (map Fin (map (lmsr_price (map ((+) ?d) q) ?a) [0..<length q]))"
    using prices_exact [OF lh] by (simp add: comp_def)
  moreover have "\<not> over_cap (map Fin (map (lmsr_price (map ((+) ?d) q) ?a) [0..<length q])) (Fin (val (capPrice m)))"
    unfolding over_cap_Fin using cap by (auto simp: not_less)
  ultimately show ?thesis
    unfolding possiblePayoutDeltaForCashout_def toNumber_quantities [OF m] nums Let_def
      i(1) [unfolded outcome_index_def] sh
    by (simp del: map_map)
qed

lemma round_dp_down_le:
  assumes "x \<le> y" and "0 \<le> y"
  shows "round_dp ROUND_DOWN n x \<le> y"
proof (cases "0 \<le> x")
  case True
  with round_dp_down(2) [of x n] assms(1) show ?thesis by linarith
next
  case False
  then have "x * 10 ^ n < 0" by (simp add: mult_less_0_iff)
  then have "round_int ROUND_DOWN (x * 10 ^ n) \<le> 0"
    by (simp add: round_int_def round_mag_def)
  then have "round_dp ROUND_DOWN n x \<le> 0" by (simp add: round_dp_def divide_le_0_iff)
  with assms(2) show ?thesis by linarith
qed

lemma cashout_no_profit_val:
  assumes m: "market_fin fin m" and b: "fin (bet_payout bet)" "fin (pricePaid bet)"
    and i: "outcome_index m (bet_outcomeId bet) = int idx" "idx < length q" "bet_side bet = SideN \<longrightarrow> 1 < length q"
    and q: "quantities val m = shift_r q idx (bet_side bet) (val (bet_payout bet))"
    and l: "live q (val (alpha m))" and pos: "0 \<le> val (bet_payout bet)"
    and paid: "buy_cost q (val (alpha m)) idx (bet_side bet) (val (bet_payout bet)) \<le> val (pricePaid bet)"
  shows "\<exists>ok delta gain. possiblePayoutDeltaForCashout exact D m bet = Inr (ok, delta, gain) \<and>
    val gain \<le> val (pricePaid bet)"
proof -
  let ?a = "val (alpha m)" and ?d = "val (bet_payout bet)" and ?q = "quantities val m"
  let ?g = "?d - (lmsr_cost (map ((+) ?d) q) ?a - lmsr_cost ?q ?a)"
  let ?gain = "truncatePrecision D (dNew D (Fin ?g)) 2 ROUND_DOWN"
  have "?d \<le> lmsr_cost (map ((+) ?d) q) ?a - lmsr_cost q ?a" by (rule cost_complete_set [OF l pos])
  moreover have "lmsr_cost ?q ?a - lmsr_cost q ?a \<le> val (pricePaid bet)"
    using paid by (simp add: buy_cost_def q)
  ultimately have g: "?g \<le> val (pricePaid bet)" by linarith
  have "lmsr_cost (shift_r q idx (bet_side bet) 0) ?a \<le> lmsr_cost ?q ?a"
    unfolding q by (rule cost_shift_mono [OF l i(2,3) order_refl pos])
  then have "0 \<le> val (pricePaid bet)"
    using paid by (simp add: buy_cost_def q)
  with g have "val ?gain \<le> val (pricePaid bet)"
    using places [OF new_fin, of ?g 2 ROUND_DOWN]
    by (simp add: truncatePrecision_def new_exact round_dp_down_le)
  with cashout_value [OF m b(1) i(1,2) q l pos] show ?thesis by (auto simp: Let_def)
qed

end

subsection \<open>A concrete market\<close>

lemma demo_market_sel [simp]:
  "alpha (demo_market q) = 1 / 4" "capPrice (demo_market q) = 99 / 100"
  "length (outcomes (demo_market q)) = length q"
  by (simp_all add: demo_market_def)

lemma demo_quantities [simp]: "quantities (\<lambda>x. x) (demo_market q) = q"
  by (simp add: quantities_def demo_market_def demo_outcome_def comp_def map_nth)

lemma demo_index: "outcome_index (demo_market [x, y]) 0 = int 0"
  by (simp add: outcome_index_def findIndex_def demo_market_def demo_outcome_def)

lemma demo_fin: "market_fin (\<lambda>_. True) (demo_market q)"
  by (simp add: market_fin_def)

text \<open>A market with a cap that no price reaches: quotes and cash-outs are possible there.\<close>

definition open_market :: "real list \<Rightarrow> real market_view" where
  "open_market q = (demo_market q)\<lparr>capPrice := 2\<rparr>"

lemma open_market_sel [simp]:
  "alpha (open_market q) = 1 / 4" "capPrice (open_market q) = 2" "length (outcomes (open_market q)) = length q"
  "quantities (\<lambda>x. x) (open_market q) = q" "outcome_index (open_market [x, y]) 0 = int 0"
  "market_fin (\<lambda>_. True) (open_market q)"
  using demo_quantities [of q] demo_index [of x y]
  by (simp_all add: open_market_def quantities_def outcome_index_def market_fin_def)

lemma price_le_2:
  assumes "live q (1 / 4)" and "length q = 2" and "k < length q"
  shows "lmsr_price q (1 / 4) k \<le> 2"
proof -
  have "lmsr_soft q (1 / 4) k \<le> 1" by (rule lmsr_soft_le_1 [OF assms(1,3)])
  moreover have "lmsr_entropy q (1 / 4) \<le> 1"
    using lmsr_entropy_le [OF assms(1)] assms(2) ln_2_less_1 by simp
  ultimately show ?thesis by (simp add: lmsr_price_def)
qed

lemma quotable_open: "quotable [2, 2] (1 / 4) 0 SideY 1"
proof -
  have sp: "side_price (map ((*) 2) q) (1 / 4) 0 SideY = side_price q (1 / 4) 0 SideY" if "length q = 2" for q
    using that lmsr_price_scale [of 2 0 q "1 / 4"] by (simp add: side_price_Y)
  have "shift_r [2, 2] 0 SideY 1 = map ((*) 2) [3 / 2, 1]"
    by (auto intro!: nth_equalityI simp: less_Suc_eq hit_def)
  then have after: "side_price (shift_r [2, 2] 0 SideY 1) (1 / 4) 0 SideY \<le> 1"
    using sp [of "[3 / 2, 1]"] quotable_example by (simp add: quotable_def shift_example)
  have "1 / 2 \<le> side_price [1, 1] (1 / 4) 0 SideY"
    using lmsr_entropy_nonneg [OF live_example] by (simp add: side_price_Y lmsr_price_def soft_example)
  then have before: "1 / 2 \<le> side_price [2, 2] (1 / 4) 0 SideY"
    using sp [of "[1, 1]"] by simp
  show ?thesis
    using live_scale [OF live_example, of 2] before after by (simp add: quotable_def)
qed

lemma open_quote:
  "\<exists>payout prob. possiblePayoutProbForSpend exact real_lib (open_market [2, 2]) 0 1 SideY = Some (Inr (True, payout, prob))"
proof -
  obtain r where r: "1 \<le> r" and eq: "possiblePayoutProbForSpend exact real_lib (open_market [2, 2]) 0 1 SideY = Some (Inr
      (if \<exists>p\<in>set (map (lmsr_price (shift_r [2, 2] 0 SideY r) (1 / 4)) [0..<2]). 2 < p
       then (False, dOfInt real_lib 0, dOfInt real_lib 0)
       else (True, truncatePrecision real_lib (dNew real_lib (Fin r)) 2 ROUND_DOWN,
         truncatePrecision real_lib (gainProportion real_lib 1 (truncatePrecision real_lib (dNew real_lib (Fin r)) 2 ROUND_DOWN)) SCALE ROUND_UP)))"
    using decimal_exact.quote_unfold [OF real_lib_decimal open_market_sel(6) [of "[2, 2]"] TrueI open_market_sel(5), of SideY 1]
      quotable_open by (auto simp: numeral_2_eq_2)
  have "live (shift_r [2, 2] 0 SideY r) (1 / 4)"
    using quotable_open r by (intro shift_r_live) (auto simp: quotable_def)
  then have "\<not> (\<exists>p\<in>set (map (lmsr_price (shift_r [2, 2] 0 SideY r) (1 / 4)) [0..<2]). 2 < p)"
    using price_le_2 [of "shift_r [2, 2] 0 SideY r"] by (auto simp: not_less)
  with eq show ?thesis by (simp only: if_False) blast
qed

lemma open_cashout:
  "\<exists>delta gain. possiblePayoutDeltaForCashout exact real_lib (open_market [3 / 2, 1]) (demo_bet (1 / 2) (1 / 2)) =
     Inr (True, delta, gain)"
proof (rule decimal_exact.cashout_possible [OF real_lib_decimal open_market_sel(6), where idx = 0 and q = "[1, 1]"])
  have "live (map ((+) (1 / 2)) [1, 1 :: real]) (1 / 4)" by (simp add: live_def)
  then show "lmsr_price (map ((+) (bet_payout (demo_bet (1 / 2) (1 / 2)))) [1, 1]) (alpha (open_market [3 / 2, 1])) k
      \<le> capPrice (open_market [3 / 2, 1])" if "k < length [1, 1 :: real]" for k
    using price_le_2 [of "map ((+) (1 / 2)) [1, 1]" k] that by (simp add: demo_bet_def)
qed (use live_example shift_example open_market_sel(5) in \<open>simp_all add: demo_bet_def\<close>)

subsection \<open>Properties\<close>





end
