(* ===== verification/BetForms.thy ===== *)
theory BetForms
  imports View Quotes
begin

section \<open>Placing bets and cashing out\<close>

text \<open>
  The forms that spend and return money: \<^verbatim>\<open>src/frontend/seer/src/ui/bet/BetModal.tsx\<close>, the card of an
  active bet and its list in \<^verbatim>\<open>ui/markets/details/MarketBetSection.tsx\<close> and the entry of a bet in
  \<^verbatim>\<open>ui/bet/BetUser.tsx\<close>. The state of a component is a record of its hooks, with the flag
  \<^verbatim>\<open>isPending\<close> of its mutation; what it reads from the query cache and the stores is an
  argument. A render may throw, and the bet form may not return when the search loop of its quote
  does not.
\<close>

subsection \<open>The bet form\<close>

record 'd bet_modal =
  bm_idempotencyKey :: string
  bm_showSuccess :: bool
  bm_selectedSide :: bet_side
  bm_outcomeId :: int
  bm_priceChartShow :: bool
  bm_amount :: "'d option"
  bm_isPending :: bool

definition bet_modal_init :: "string \<Rightarrow> int \<Rightarrow> bet_side \<Rightarrow> 'd bet_modal" where
  "bet_modal_init key initialOutcomeId initialSide =
     \<lparr>bm_idempotencyKey = key, bm_showSuccess = False, bm_selectedSide = initialSide, bm_outcomeId = initialOutcomeId,
      bm_priceChartShow = True, bm_amount = None, bm_isPending = False\<rparr>"

text \<open>What the form reads: the market, the balance and whether somebody is logged in.\<close>

record 'd bet_env =
  be_market :: "'d market_view option"
  be_balance :: "'d balance option"
  be_user :: bool

text \<open>The values a render computes.\<close>

record 'd bet_render =
  br_market :: "'d market_view"
  br_outcome :: "'d outcome"
  br_possible :: bool
  br_payout :: 'd
  br_probability :: 'd
  br_hasInsufficientFunds :: bool
  br_betTooMuch :: bool

definition bet_quote ::
    "fpu \<Rightarrow> 'd dlib \<Rightarrow> 'd market_view \<Rightarrow> 'd bet_modal \<Rightarrow> (bool \<times> 'd \<times> 'd) js option" where
  "bet_quote F D m st =
     (case bm_amount st of
        Some a \<Rightarrow> if isZero D a then Some (Inr (False, dOfInt D 0, dOfInt D 0))
                  else possiblePayoutProbForSpend F D m (bm_outcomeId st) a (bm_selectedSide st)
      | None \<Rightarrow> Some (Inr (False, dOfInt D 0, dOfInt D 0)))"

definition bet_render :: "fpu \<Rightarrow> 'd dlib \<Rightarrow> 'd bet_env \<Rightarrow> 'd bet_modal \<Rightarrow> 'd bet_render option js option" where
  "bet_render F D env st =
     (case be_market env of
        None \<Rightarrow> Some (Inr None)
      | Some m \<Rightarrow>
          if outcomes m = [] then Some (Inl TypeError)
          else case find (\<lambda>ob. o_id ob = bm_outcomeId st) (outcomes m) of
            None \<Rightarrow> Some (Inr None)
          | Some ob \<Rightarrow>
              map_option (\<lambda>q. bindE q (\<lambda>(possible, payout, probability).
                if \<not> bm_showSuccess st \<and> isBinary m \<and> length (outcomes m) < 2 then Inl TypeError
                else Inr (Some
                  \<lparr>br_market = m, br_outcome = ob, br_possible = possible, br_payout = payout,
                   br_probability = probability,
                   br_hasInsufficientFunds =
                     (case (be_balance env, bm_amount st) of
                        (Some b, Some a) \<Rightarrow> lessThan D (bal_amount b) a | _ \<Rightarrow> False),
                   br_betTooMuch =
                     (case bm_amount st of Some a \<Rightarrow> \<not> isZero D a \<and> \<not> possible | None \<Rightarrow> False)\<rparr>)))
                (bet_quote F D m st))"

datatype modal_event =
    PickFirst
  | PickSecond
  | ToggleChart
  | StakeChanged string
  | PressBet
  | ViewBets

definition place_bet :: "'d market_view \<Rightarrow> bet_side \<Rightarrow> 'd \<Rightarrow> 'd outcome \<Rightarrow> 'd \<Rightarrow> string \<Rightarrow> 'd jv" where
  "place_bet m side payout ob a key = JObj
     [(''marketId'', JStr (m_id m)), (''side'', JStr (show_side side)), (''minWantedGain'', JDec payout),
      (''outcomeId'', jint (o_id ob)), (''betAmount'', JDec a), (''currency'', JStr ''USDT''),
      (''idempotencyKey'', JStr key)]"

definition handleClickBet :: "'d bet_env \<Rightarrow> 'd bet_render \<Rightarrow> 'd bet_modal \<Rightarrow> 'd effect list" where
  "handleClickBet env r st =
     (if \<not> be_user env then [OpenModal ModalAuth [(''selectedTab'', JStr ''register'')]]
      else case (be_balance env, bm_amount st) of
        (Some b, Some a) \<Rightarrow>
          if \<not> br_possible r \<or> br_hasInsufficientFunds r then []
          else [Blur, Mutate PostBet
                  (place_bet (br_market r) (bm_selectedSide st) (br_payout r) (br_outcome r) a (bm_idempotencyKey st))]
      | _ \<Rightarrow> [])"

fun modal_step :: "'d decs \<Rightarrow> 'd bet_env \<Rightarrow> 'd bet_render \<Rightarrow> modal_event \<Rightarrow> 'd bet_modal \<Rightarrow> ('d bet_modal \<times> 'd effect list) js" where
  "modal_step X env r PickFirst st =
     Inr (if isBinary (br_market r) then st\<lparr>bm_outcomeId := o_id (outcomes (br_market r) ! 0)\<rparr>
          else st\<lparr>bm_selectedSide := SideY\<rparr>, [])"
| "modal_step X env r PickSecond st =
     Inr (if isBinary (br_market r) then st\<lparr>bm_outcomeId := o_id (outcomes (br_market r) ! 1)\<rparr>
          else st\<lparr>bm_selectedSide := SideN\<rparr>, [])"
| "modal_step X env r ToggleChart st = Inr (st\<lparr>bm_priceChartShow := \<not> bm_priceChartShow st\<rparr>, [])"
| "modal_step X env r (StakeChanged v) st =
     (if v = [] then Inr (st\<lparr>bm_amount := None\<rparr>, [])
      else case dec_of_string X v of
        None \<Rightarrow> Inl (Thrown ''[DecimalError] Invalid argument'')
      | Some a \<Rightarrow> Inr (st\<lparr>bm_amount := Some a\<rparr>, []))"
| "modal_step X env r PressBet st =
     (let es = handleClickBet env r st
      in Inr (if requests es = [] then st else st\<lparr>bm_isPending := True\<rparr>, es))"
| "modal_step X env r ViewBets st = Inr (st, [CloseModal])"

text \<open>The callbacks of the mutation, the effect on the initial outcome, and the subscription on mount and on every connection.\<close>

definition bet_succeeded :: "'d bet_modal \<Rightarrow> 'd bet_modal \<times> 'd effect list" where
  "bet_succeeded st = (st\<lparr>bm_showSuccess := True, bm_isPending := False\<rparr>, [Invalidate [KStr ''userBets'']])"

definition bet_failed :: "'d bet_modal \<Rightarrow> 'd bet_modal" where
  "bet_failed st = st\<lparr>bm_isPending := False\<rparr>"

definition bet_initial_outcome :: "int \<Rightarrow> 'd bet_modal \<Rightarrow> 'd bet_modal" where
  "bet_initial_outcome i st = st\<lparr>bm_outcomeId := i\<rparr>"

definition bet_subscribe :: "string \<Rightarrow> 'd effect list" where
  "bet_subscribe marketId = [Emit ''get:market_state'' [(''marketId'', JStr marketId)]]"

definition bet_errors :: "'d bet_render \<Rightarrow> ('d, 'e) widget list" where
  "bet_errors r =
     shown (br_hasInsufficientFunds r) [Text ''Insufficient funds''] @
     shown (br_betTooMuch r) [Text ''Current bet amount too high for selected outcome'']"

definition bet_title :: "'d bet_render \<Rightarrow> 'd bet_modal \<Rightarrow> ('d, 'e) widget list" where
  "bet_title r st =
     (let m = br_market r; ob = br_outcome r
      in picture (imgKey m) @ [Text (m_name m)] @
         shown (\<not> isBinary m)
           [Text (if bm_selectedSide st = SideY then ''Bet Yes'' else ''Bet No''), Text (o_name ob)] @
         shown (isBinary m) [Text (''Bet '' @ o_name ob)])"

definition bet_choice :: "oddsFormat \<Rightarrow> 'd bet_render \<Rightarrow> ('d, modal_event) widget list" where
  "bet_choice fmt r =
     (let m = br_market r; ob = br_outcome r
      in [Press False PickFirst
            [Text (if isBinary m then o_name (outcomes m ! 0) else ''Yes''),
             OddsOf (if isBinary m then priceYes (outcomes m ! 0) else priceYes ob) fmt],
          Press False PickSecond
            [Text (if isBinary m then o_name (outcomes m ! 1) else ''No''),
             OddsOf (if isBinary m then priceYes (outcomes m ! 1) else priceNo ob) fmt]])"

definition chart_24h :: "'d outcome \<Rightarrow> 'd price_point list" where
  "chart_24h ob =
     (case priceCharts ob of
        None \<Rightarrow> []
      | Some cs \<Rightarrow> (case find (\<lambda>c. chart_timeframe c = TF_24h) cs of None \<Rightarrow> [] | Some c \<Rightarrow> chart_prices c))"

definition bet_form_view :: "oddsFormat \<Rightarrow> 'd bet_env \<Rightarrow> 'd bet_render \<Rightarrow> 'd bet_modal \<Rightarrow> ('d, modal_event) widget list" where
  "bet_form_view fmt env r st =
     bet_errors r @ bet_title r st @ bet_choice fmt r @
     [Press False ToggleChart [Text ''Chance - 24h'']] @
     shown (bm_priceChartShow st) [Chart (chart_24h (br_outcome r)) (bm_selectedSide st)] @
     [Text ''Amount'', Field ''Enter stake'' 0 StakeChanged,
      Text ''To Win :'', Amount (br_payout r), Text ''Best Odd :'', OddsOf (br_probability r) fmt,
      Button (bm_isPending st) (be_user env \<and> (\<not> br_possible r \<or> br_hasInsufficientFunds r)) PressBet
        [Text (if be_user env then ''Place Bet'' else ''Register to Bet'')]]"

definition bet_placed_view :: "('d, modal_event) widget list" where
  "bet_placed_view =
     [Text ''Your bet has been successfully placed.'', Link ''/mybets'' [Button False False ViewBets [Text ''View Bets'']]]"

definition bet_view :: "oddsFormat \<Rightarrow> 'd bet_env \<Rightarrow> 'd bet_render \<Rightarrow> 'd bet_modal \<Rightarrow> ('d, modal_event) widget list" where
  "bet_view fmt env r st =
     shown (\<not> bm_showSuccess st) (bet_form_view fmt env r st) @ shown (bm_showSuccess st) bet_placed_view"

subsection \<open>Cashing out\<close>

record cashout_form =
  cf_idempotencyKey :: string
  cf_cashoutClicked :: bool
  cf_isPending :: bool

definition cashout_init :: "string \<Rightarrow> cashout_form" where
  "cashout_init key = \<lparr>cf_idempotencyKey = key, cf_cashoutClicked = False, cf_isPending = False\<rparr>"

definition cashout_request :: "'d bet \<Rightarrow> 'd \<Rightarrow> string \<Rightarrow> 'd jv" where
  "cashout_request bet payout key = JObj
     [(''betId'', JStr (bet_id bet)), (''minWantedGain'', JDec payout), (''idempotencyKey'', JStr key)]"

definition handleCashout :: "'d bet \<Rightarrow> bool \<times> 'd \<times> 'd \<Rightarrow> cashout_form \<Rightarrow> 'd effect list" where
  "handleCashout bet q st =
     (case q of (possible, deltaProp, payout) \<Rightarrow>
        if \<not> cf_cashoutClicked st \<or> \<not> possible then []
        else [Mutate CashoutBet (cashout_request bet payout (cf_idempotencyKey st))])"

definition click_cashout :: "'d bet \<Rightarrow> bool \<times> 'd \<times> 'd \<Rightarrow> cashout_form \<Rightarrow> cashout_form \<times> 'd effect list" where
  "click_cashout bet q st =
     (if cf_cashoutClicked st then
        let es = handleCashout bet q st in (if requests es = [] then st else st\<lparr>cf_isPending := True\<rparr>, es)
      else (st\<lparr>cf_cashoutClicked := True\<rparr>, []))"

definition cashout_succeeded :: "cashout_form \<Rightarrow> cashout_form \<times> 'd effect list" where
  "cashout_succeeded st =
     (st\<lparr>cf_isPending := False\<rparr>, [Toast ''Bet cashed out successfully'' True, Invalidate [KStr ''userBets'']])"

definition cashout_failed :: "cashout_form \<Rightarrow> cashout_form" where
  "cashout_failed st = st\<lparr>cf_isPending := False\<rparr>"

text \<open>The card of an active bet on the page of its market: it checks that the market is active.\<close>

definition BetCard_click ::
    "int \<Rightarrow> 'd market_view \<Rightarrow> 'd bet \<Rightarrow> bool \<times> 'd \<times> 'd \<Rightarrow> cashout_form \<Rightarrow> cashout_form \<times> 'd effect list" where
  "BetCard_click now m bet q st = (if \<not> isMarketActive now m then (st, []) else click_cashout bet q st)"

definition outcome_badge :: "'d market_view \<Rightarrow> 'd bet \<Rightarrow> ('d, 'e) widget list" where
  "outcome_badge m bet =
     shown (\<not> isBinary m) [Text (bet_outcomeName bet)] @ shown (isBinary m) [Text (bet_outcomeName bet)]"

definition side_name :: "'d bet \<Rightarrow> string" where
  "side_name bet = (if bet_side bet = SideY then ''Yes'' else ''No'')"

definition delta_badge :: "'d dlib \<Rightarrow> 'd \<Rightarrow> ('d, 'e) widget list" where
  "delta_badge D deltaProp =
     [Text (if greaterThan D deltaProp (dOfInt D 0) then ''+'' else ''-''), OddsOf (dAbs D deltaProp) OddsPercent]"

definition BetCard_view ::
    "'d dlib \<Rightarrow> int \<Rightarrow> 'd market_view \<Rightarrow> 'd bet \<Rightarrow> bool \<times> 'd \<times> 'd \<Rightarrow> cashout_form \<Rightarrow> ('d, unit) widget list" where
  "BetCard_view D now m bet q st =
     (case q of (possible, deltaProp, payout) \<Rightarrow>
        outcome_badge m bet @ shown (\<not> isBinary m) [Text (side_name bet)] @
        [Text ''$'', Fixed2 (pricePaid bet), Text ''$'', Fixed2 (bet_payout bet), Text ''$'', Amount payout] @
        delta_badge D deltaProp @
        [Button (cf_isPending st) (\<not> isMarketActive now m \<or> \<not> possible) () [Text ''Cashout'']] @
        shown (\<not> isBinary m) [Text (side_name bet), Text (bet_outcomeName bet)] @
        shown (isBinary m) [Text (bet_outcomeName bet)] @
        [Text ''STAKE'', Text ''$'', Fixed2 (pricePaid bet), Text ''TO WIN'', Text ''$'', Fixed2 (bet_payout bet),
         Text ''CASHOUT FOR'', Text ''$'', Amount payout,
         Button (cf_isPending st) (\<not> isMarketActive now m \<or> \<not> possible) () [Text ''Cashout'']])"

text \<open>The list of active bets; it is shown to a user who has some, with a button for the next page.\<close>

definition active_search :: "'d market_view \<Rightarrow> bet_search" where
  "active_search m = \<lparr>bs_marketId = Some (m_id m), bs_status = Some (OnlyStatus BetActive), bs_pageSize = 5,
     bs_page = 1, bs_sort = ByPlacedAt, bs_ascending = False\<rparr>"

definition MarketBetSection ::
    "bool \<Rightarrow> 'd market_view \<Rightarrow> ('d bet list) list option \<Rightarrow> bool \<Rightarrow> bool \<Rightarrow> bool \<Rightarrow> ('d, unit) widget list" where
  "MarketBetSection user m pages isLoading hasNextPage isFetchingNextPage =
     (if \<not> user then []
      else case map_option concat pages of
        None \<Rightarrow> []
      | Some bets \<Rightarrow>
          shown (bets \<noteq> [])
            ([Text ''Active Bets'', Text ''OUTCOME''] @ shown (\<not> isBinary m) [Text ''SIDE''] @
             [Text ''STAKE'', Text ''TO WIN'', Text ''CASHOUT VALUE''] @
             shown isLoading [Text ''Loading bets...''] @ map (\<lambda>b. Part ''BetCard'' (JStr (bet_id b))) bets @
             shown hasNextPage
               [Press isFetchingNextPage () [Text (if isFetchingNextPage then ''Loading...'' else ''Load More'')]]))"

text \<open>An entry of the list of all bets: a bet that is over shows its result instead of the button.\<close>

definition isResolved :: "'d bet \<Rightarrow> bool" where
  "isResolved bet \<longleftrightarrow> bet_status bet = BetWon \<or> bet_status bet = BetLost \<or> bet_status bet = BetCashedOut"

definition result_badge :: "'d bet \<Rightarrow> ('d, 'e) widget list" where
  "result_badge bet =
     shown (bet_status bet = BetWon) [Text ''WIN''] @ shown (bet_status bet = BetLost) [Text ''LOSS''] @
     shown (bet_status bet = BetCashedOut) [Text ''CASHED''] @
     shown (bet_status bet = BetCashedOut)
       ([Text ''FOR '', Text '' $''] @ (case cashedOut bet of None \<Rightarrow> [] | Some c \<Rightarrow> [Fixed2 c]))"

definition bet_title_row :: "'d market_view \<Rightarrow> 'd bet \<Rightarrow> ('d, 'e) widget list" where
  "bet_title_row m bet =
     shown (\<not> isBinary m) [Text (bet_outcomeName bet), Text (side_name bet)] @
     shown (isBinary m) [Text (bet_outcomeName bet)]"

definition BetUser_click ::
    "'d bet \<Rightarrow> bool \<times> 'd \<times> 'd \<Rightarrow> cashout_form \<Rightarrow> cashout_form \<times> 'd effect list" where
  "BetUser_click bet q st = click_cashout bet q st"

definition BetUser_wide ::
    "'d dlib \<Rightarrow> 'd market_view \<Rightarrow> 'd bet \<Rightarrow> bool \<times> 'd \<times> 'd \<Rightarrow> cashout_form \<Rightarrow> ('d, unit) widget list" where
  "BetUser_wide D m bet q st =
     (case q of (possible, deltaProp, payout) \<Rightarrow>
        (case picture (imgKey m) of [] \<Rightarrow> [] | ps \<Rightarrow> [Link (''/market/'' @ m_id m) ps]) @
        [Link (''/market/'' @ m_id m) [Text (m_name m)]] @ bet_title_row m bet @
        [Text ''$'', Fixed2 (pricePaid bet), Text ''$'', Fixed2 (bet_payout bet)] @
        shown (\<not> isResolved bet) ([Text ''$'', Amount payout] @ delta_badge D deltaProp) @
        shown (\<not> isResolved bet) [Button (cf_isPending st) (cf_isPending st \<or> \<not> possible) () [Text ''Cashout'']] @
        shown (isResolved bet) (result_badge bet))"

definition BetUser_mobile ::
    "'d market_view \<Rightarrow> 'd bet \<Rightarrow> bool \<times> 'd \<times> 'd \<Rightarrow> cashout_form \<Rightarrow> ('d, unit) widget list" where
  "BetUser_mobile m bet q st =
     (case q of (possible, deltaProp, payout) \<Rightarrow>
        picture (imgKey m) @ [Text (m_name m)] @ bet_title_row m bet @
        [Text ''STAKE'', Text ''$'', Fixed2 (pricePaid bet), Text ''TO WIN'', Text ''$'', Fixed2 (bet_payout bet)] @
        shown (\<not> isResolved bet) [Text ''CASHOUT FOR'', Text ''$'', Amount payout] @
        shown (isResolved bet) (result_badge bet) @
        shown (\<not> isResolved bet) [Button (cf_isPending st) (cf_isPending st \<or> \<not> possible) () [Text ''Cashout'']])"

definition BetUser_view ::
    "'d dlib \<Rightarrow> 'd market_view \<Rightarrow> 'd bet \<Rightarrow> bool \<times> 'd \<times> 'd \<Rightarrow> cashout_form \<Rightarrow> ('d, unit) widget list" where
  "BetUser_view D m bet q st = BetUser_wide D m bet q st @ BetUser_mobile m bet q st"

subsection \<open>What can happen to a form\<close>

text \<open>
  The bet form: its user presses a button that is shown and enabled or types into the field, and the page may
  give it another initial outcome. What it reads may be different at every step.
\<close>

inductive bet_acts ::
    "fpu \<Rightarrow> 'd decs \<Rightarrow> oddsFormat \<Rightarrow> 'd bet_modal \<Rightarrow> (mutation \<times> 'd jv) list \<Rightarrow> 'd bet_modal \<Rightarrow> bool"
  for F X fmt where
  press: "bet_render F (dec_lib X) env st = Some (Inr (Some r)) \<Longrightarrow> e \<in> set (presses (bet_view fmt env r st)) \<Longrightarrow>
    modal_step X env r e st = Inr (st', es) \<Longrightarrow> bet_acts F X fmt st (requests es) st'"
| stake: "bet_render F (dec_lib X) env st = Some (Inr (Some r)) \<Longrightarrow> \<not> bm_showSuccess st \<Longrightarrow>
    modal_step X env r (StakeChanged v) st = Inr (st', es) \<Longrightarrow> bet_acts F X fmt st (requests es) st'"
| initial: "bet_acts F X fmt st [] (bet_initial_outcome i st)"

inductive bet_settles :: "'d bet_modal \<Rightarrow> 'd bet_modal \<Rightarrow> bool" where
  "bm_isPending st \<Longrightarrow> bet_settles st (fst (bet_succeeded st))"
| "bm_isPending st \<Longrightarrow> bet_settles st (bet_failed st)"

text \<open>The card may have been rendered some time before it is pressed, at the time \<open>now\<close>.\<close>

inductive card_acts ::
    "fpu \<Rightarrow> 'd dlib \<Rightarrow> 'd bet \<Rightarrow> int \<Rightarrow> cashout_form \<Rightarrow> (mutation \<times> 'd jv) list \<Rightarrow> cashout_form \<Rightarrow> bool"
  for F D bet now where
  "possiblePayoutDeltaForCashout F D m bet = Inr q \<Longrightarrow> () \<in> set (presses (BetCard_view D rendered m bet q st)) \<Longrightarrow>
    rendered \<le> now \<Longrightarrow> BetCard_click now m bet q st = (st', es) \<Longrightarrow> card_acts F D bet now st (requests es) st'"

inductive entry_acts ::
    "fpu \<Rightarrow> 'd dlib \<Rightarrow> 'd bet \<Rightarrow> cashout_form \<Rightarrow> (mutation \<times> 'd jv) list \<Rightarrow> cashout_form \<Rightarrow> bool"
  for F D bet where
  "possiblePayoutDeltaForCashout F D m bet = Inr q \<Longrightarrow> () \<in> set (presses (BetUser_view D m bet q st)) \<Longrightarrow>
    BetUser_click bet q st = (st', es) \<Longrightarrow> entry_acts F D bet st (requests es) st'"

inductive cashout_settles :: "cashout_form \<Rightarrow> cashout_form \<Rightarrow> bool" where
  "cf_isPending st \<Longrightarrow> cashout_settles st (fst (cashout_succeeded st :: cashout_form \<times> unit effect list))"
| "cf_isPending st \<Longrightarrow> cashout_settles st (cashout_failed st)"

definition request_key :: "mutation \<times> 'd jv \<Rightarrow> 'd jv" where
  "request_key q = obj_get ''idempotencyKey'' (snd q)"

subsection \<open>Requests of the forms\<close>

lemma handleClickBet_requests:
  assumes "(op, q) \<in> set (requests (handleClickBet env r st))"
  obtains a b where "be_user env" "be_balance env = Some b" "bm_amount st = Some a" "br_possible r"
    "\<not> br_hasInsufficientFunds r" "op = PostBet"
    "q = place_bet (br_market r) (bm_selectedSide st) (br_payout r) (br_outcome r) a (bm_idempotencyKey st)"
    "requests (handleClickBet env r st) = [(op, q)]"
  using assms by (auto simp: handleClickBet_def split: if_splits option.splits)

lemma bet_press_enabled:
  "PressBet \<in> set (presses (bet_view fmt env r st)) \<Longrightarrow> \<not> bm_showSuccess st \<and> \<not> bm_isPending st"
  by (auto simp: bet_view_def bet_form_view_def bet_placed_view_def bet_errors_def bet_title_def bet_choice_def Let_def split: if_splits)

lemma bet_success_view:
  "bm_showSuccess st \<Longrightarrow> e \<in> set (presses (bet_view fmt env r st)) \<Longrightarrow> e = ViewBets"
  by (simp add: bet_view_def bet_placed_view_def shown_def)

text \<open>A request of the bet form comes from its button, in a render that had everything it needs.\<close>

lemma bet_acts_request:
  assumes "bet_acts F X fmt st qs st'" and "(op, q) \<in> set qs"
  obtains env r where "bet_render F (dec_lib X) env st = Some (Inr (Some r))" "\<not> bm_showSuccess st" "\<not> bm_isPending st"
    "qs = requests (handleClickBet env r st)" "st' = st\<lparr>bm_isPending := True\<rparr>"
proof -
  from assms(1) show thesis
  proof cases
    case 1: (press env r e es)
    show thesis
    proof (cases e)
      case PressBet
      with 1(4) assms(2) 1(1) have "qs = requests (handleClickBet env r st)" "st' = st\<lparr>bm_isPending := True\<rparr>"
        by (auto simp: Let_def split: if_splits)
      with 1 PressBet bet_press_enabled [of fmt env r st] that show thesis by auto
    qed (use 1 assms(2) in \<open>auto split: if_splits option.splits\<close>)
  next
    case (stake env r v es)
    with assms(2) show thesis by (auto split: if_splits option.splits)
  qed (use assms(2) in simp)
qed

lemma bet_acts_quiet:
  assumes "bet_acts F X fmt st [] st'"
  shows "bm_isPending st' = bm_isPending st"
  using assms
proof cases
  case (press env r e es)
  then show ?thesis by (cases e) (auto simp: Let_def split: if_splits option.splits)
next
  case (stake env r v es)
  then show ?thesis by (auto split: if_splits option.splits)
qed (simp add: bet_initial_outcome_def)

lemma bet_acts_key:
  assumes "bet_acts F X fmt st qs st'"
  shows "bm_idempotencyKey st' = bm_idempotencyKey st"
  using assms
proof cases
  case (press env r e es)
  then show ?thesis by (cases e) (auto simp: Let_def split: if_splits option.splits)
next
  case (stake env r v es)
  then show ?thesis by (auto split: if_splits option.splits)
qed (simp add: bet_initial_outcome_def)

interpretation bet_form: request_form bm_isPending "\<lambda>st. JStr (bm_idempotencyKey st)" request_key "bet_acts F X fmt" bet_settles
  for F and X :: "'d decs" and fmt
proof
  fix st :: "'d bet_modal" and qs st'
  assume a: "bet_acts F X fmt st qs st'"
  show "qs = [] \<and> bm_isPending st' = bm_isPending st \<or> (\<exists>r. qs = [r]) \<and> \<not> bm_isPending st \<and> bm_isPending st'"
  proof (cases qs)
    case Nil
    with a bet_acts_quiet show ?thesis by blast
  next
    case (Cons q qs')
    then have "(fst q, snd q) \<in> set qs" by simp
    from bet_acts_request [OF a this] obtain env r where
      r: "\<not> bm_isPending st" "qs = requests (handleClickBet env r st)" "st' = st\<lparr>bm_isPending := True\<rparr>" by blast
    have "(fst q, snd q) \<in> set (requests (handleClickBet env r st))" using r(2) \<open>(fst q, snd q) \<in> set qs\<close> by simp
    then have "qs = [(fst q, snd q)]" by (rule handleClickBet_requests) (simp only: r(2))
    with r(1,3) show ?thesis by simp
  qed
  show "JStr (bm_idempotencyKey st') = JStr (bm_idempotencyKey st) \<and> (\<forall>r\<in>set qs. request_key r = JStr (bm_idempotencyKey st))"
  proof (intro conjI ballI)
    fix q assume "q \<in> set qs"
    then have q: "(fst q, snd q) \<in> set qs" by simp
    from bet_acts_request [OF a this] obtain env r where "qs = requests (handleClickBet env r st)" by blast
    with q have "(fst q, snd q) \<in> set (requests (handleClickBet env r st))" by simp
    then show "request_key q = JStr (bm_idempotencyKey st)"
      by (rule handleClickBet_requests) (simp add: request_key_def place_bet_def obj_get_def)
  qed (simp add: bet_acts_key [OF a])
next
  fix st st' :: "'d bet_modal"
  assume "bet_settles st st'"
  then show "bm_isPending st \<and> \<not> bm_isPending st' \<and> JStr (bm_idempotencyKey st') = JStr (bm_idempotencyKey st)"
    by cases (simp_all add: bet_succeeded_def bet_failed_def)
qed

text \<open>One press of a cash-out button, the same for both components.\<close>

lemma click_cashout_request:
  assumes "click_cashout bet q st = (st', es)" and "(op, v) \<in> set (requests es)"
  shows "cf_cashoutClicked st" and "fst q" and "op = CashoutBet"
    and "v = cashout_request bet (snd (snd q)) (cf_idempotencyKey st)" and "requests es = [(op, v)]"
    and "st' = st\<lparr>cf_isPending := True\<rparr>"
  using assms by (auto simp: click_cashout_def handleCashout_def Let_def split: if_splits prod.splits)

lemma click_cashout_quiet:
  "click_cashout bet q st = (st', es) \<Longrightarrow> requests es = [] \<Longrightarrow> cf_isPending st' = cf_isPending st"
  by (auto simp: click_cashout_def Let_def split: if_splits)

lemma click_cashout_key:
  "click_cashout bet q st = (st', es) \<Longrightarrow> cf_idempotencyKey st' = cf_idempotencyKey st"
  by (auto simp: click_cashout_def Let_def split: if_splits)

lemma click_cashout_contract:
  assumes "click_cashout bet q st = (st', es)" and "\<not> cf_isPending st"
  shows "requests es = [] \<and> cf_isPending st' = cf_isPending st \<or> (\<exists>r. requests es = [r]) \<and> \<not> cf_isPending st \<and> cf_isPending st'"
    and "JStr (cf_idempotencyKey st') = JStr (cf_idempotencyKey st) \<and>
      (\<forall>r\<in>set (requests es). request_key r = JStr (cf_idempotencyKey st))"
proof -
  show "requests es = [] \<and> cf_isPending st' = cf_isPending st \<or> (\<exists>r. requests es = [r]) \<and> \<not> cf_isPending st \<and> cf_isPending st'"
  proof (cases "requests es")
    case Nil
    with click_cashout_quiet [OF assms(1)] show ?thesis by simp
  next
    case (Cons x xs)
    then have "(fst x, snd x) \<in> set (requests es)" by simp
    from click_cashout_request(5,6) [OF assms(1) this] assms(2) show ?thesis by simp
  qed
  have "request_key x = JStr (cf_idempotencyKey st)" if "x \<in> set (requests es)" for x
    using click_cashout_request(4) [OF assms(1), of "fst x" "snd x"] that
    by (simp add: request_key_def cashout_request_def obj_get_def)
  with click_cashout_key [OF assms(1)]
  show "JStr (cf_idempotencyKey st') = JStr (cf_idempotencyKey st) \<and>
      (\<forall>r\<in>set (requests es). request_key r = JStr (cf_idempotencyKey st))" by simp
qed

lemma card_press_enabled:
  "() \<in> set (presses (BetCard_view D now m bet q st)) \<Longrightarrow> \<not> cf_isPending st \<and> isMarketActive now m \<and> fst q"
  by (auto simp: BetCard_view_def outcome_badge_def delta_badge_def split: if_splits prod.splits)

lemma entry_press_enabled:
  "() \<in> set (presses (BetUser_view D m bet q st)) \<Longrightarrow> \<not> cf_isPending st \<and> \<not> isResolved bet \<and> fst q"
  by (auto simp: BetUser_view_def BetUser_wide_def BetUser_mobile_def bet_title_row_def delta_badge_def result_badge_def picture_def
      split: if_splits prod.splits option.splits)

lemma cashout_settles_contract:
  assumes "cashout_settles st st'"
  shows "cf_isPending st \<and> \<not> cf_isPending st' \<and> (JStr (cf_idempotencyKey st') :: 'd jv) = JStr (cf_idempotencyKey st)"
  using assms by cases (simp_all add: cashout_succeeded_def cashout_failed_def)

lemma card_acts_click:
  assumes "card_acts F D bet now st qs st'"
  obtains es q m where "qs = requests es" "\<not> cf_isPending st" "es = [] \<and> st' = st \<or> click_cashout bet q st = (st', es)"
    "isMarketActive now m \<or> es = []" "possiblePayoutDeltaForCashout F D m bet = Inr q"
  using assms
proof cases
  case (1 m q rendered es)
  with that [of es q m] card_press_enabled [OF 1(3)] show thesis
    by (auto simp: BetCard_click_def split: if_splits)
qed

interpretation card: request_form cf_isPending "\<lambda>st. JStr (cf_idempotencyKey st)" request_key
  "\<lambda>st qs st'. \<exists>now. card_acts F D bet now st qs st'" cashout_settles
  for F D bet
proof
  fix st qs st'
  assume "\<exists>now. card_acts F D bet now st qs st'"
  then obtain now where "card_acts F D bet now st qs st'" ..
  then obtain es q where e: "qs = requests es" "\<not> cf_isPending st" "es = [] \<and> st' = st \<or> click_cashout bet q st = (st', es)"
    by (rule card_acts_click)
  from e show "qs = [] \<and> cf_isPending st' = cf_isPending st \<or> (\<exists>r. qs = [r]) \<and> \<not> cf_isPending st \<and> cf_isPending st'"
    using click_cashout_contract(1) [of bet q st st' es] by auto
  from e show "JStr (cf_idempotencyKey st') = JStr (cf_idempotencyKey st) \<and> (\<forall>r\<in>set qs. request_key r = JStr (cf_idempotencyKey st))"
    using click_cashout_contract(2) [of bet q st st' es] by auto
qed (rule cashout_settles_contract)

interpretation entry: request_form cf_isPending "\<lambda>st. JStr (cf_idempotencyKey st)" request_key "entry_acts F D bet" cashout_settles
  for F D bet
proof
  fix st qs st'
  assume "entry_acts F D bet st qs st'"
  then obtain es q where e: "qs = requests es" "\<not> cf_isPending st" "click_cashout bet q st = (st', es)"
    by cases (use entry_press_enabled BetUser_click_def in metis)
  from e show "qs = [] \<and> cf_isPending st' = cf_isPending st \<or> (\<exists>r. qs = [r]) \<and> \<not> cf_isPending st \<and> cf_isPending st'"
    using click_cashout_contract(1) [OF e(3,2)] by simp
  from e show "JStr (cf_idempotencyKey st') = JStr (cf_idempotencyKey st) \<and> (\<forall>r\<in>set qs. request_key r = JStr (cf_idempotencyKey st))"
    using click_cashout_contract(2) [OF e(3,2)] by simp
qed (rule cashout_settles_contract)

subsection \<open>Examples\<close>

definition demo_bet_env :: "real bet_env" where
  "demo_bet_env = \<lparr>be_market = Some (open_market [2, 2]),
     be_balance = Some \<lparr>bal_amount = 10, bal_currency = USDT, bal_version = 1\<rparr>, be_user = True\<rparr>"

definition demo_form :: "real bet_modal" where
  "demo_form = (bet_modal_init ''k'' 0 SideY)\<lparr>bm_amount := Some 1\<rparr>"

lemma open_outcomes [simp]:
  "outcomes (open_market [2, 2]) = [demo_outcome 0 2, demo_outcome 1 2]" "isBinary (open_market q)" "m_status (open_market q) = Active"
  "closeTime (open_market q) = None"
  by (simp_all add: open_market_def demo_market_def upt_rec)

lemma demo_stake: "bet_acts exact demo_decs fmt (bet_modal_init ''k'' 0 SideY) [] demo_form"
proof -
  let ?r = "\<lparr>br_market = open_market [2, 2], br_outcome = demo_outcome 0 2, br_possible = False, br_payout = 0,
    br_probability = 0, br_hasInsufficientFunds = False, br_betTooMuch = False\<rparr>"
  have r: "bet_render exact (dec_lib demo_decs) demo_bet_env (bet_modal_init ''k'' 0 SideY) = Some (Inr (Some ?r))"
    by (simp add: bet_render_def demo_bet_env_def bet_modal_init_def bet_quote_def demo_decs_def real_lib_def demo_outcome_def)
  have s: "modal_step demo_decs demo_bet_env ?r (StakeChanged ''1'') (bet_modal_init ''k'' 0 SideY) = Inr (demo_form, [])"
    by (simp add: demo_decs_def demo_form_def)
  have "bet_acts exact demo_decs fmt (bet_modal_init ''k'' 0 SideY) (requests []) demo_form"
    by (rule bet_acts.stake [OF r _ s]) (simp add: bet_modal_init_def)
  then show ?thesis by simp
qed

lemma demo_press:
  "\<exists>payout. bet_acts exact demo_decs fmt demo_form
     [(PostBet, place_bet (open_market [2, 2]) SideY payout (demo_outcome 0 2) 1 ''k'')] (demo_form\<lparr>bm_isPending := True\<rparr>)"
proof -
  obtain payout prob where q: "possiblePayoutProbForSpend exact real_lib (open_market [2, 2]) 0 1 SideY = Some (Inr (True, payout, prob))"
    using open_quote by blast
  let ?r = "\<lparr>br_market = open_market [2, 2], br_outcome = demo_outcome 0 2, br_possible = True, br_payout = payout,
    br_probability = prob, br_hasInsufficientFunds = False, br_betTooMuch = False\<rparr>"
  have lib: "dec_lib demo_decs = real_lib" by (simp add: demo_decs_def)
  have "\<not> isZero real_lib 1" "\<not> lessThan real_lib 10 1"
    by (simp_all add: isZero_def real_lib_def)
  with q have "bet_render exact (dec_lib demo_decs) demo_bet_env demo_form = Some (Inr (Some ?r))"
    by (simp add: bet_render_def demo_bet_env_def demo_form_def bet_modal_init_def bet_quote_def lib demo_outcome_def)
  moreover have "PressBet \<in> set (presses (bet_view fmt demo_bet_env ?r demo_form))"
    by (simp add: bet_view_def bet_form_view_def demo_form_def bet_modal_init_def)
  ultimately have "bet_acts exact demo_decs fmt demo_form (requests (handleClickBet demo_bet_env ?r demo_form))
      (demo_form\<lparr>bm_isPending := True\<rparr>)"
    by (rule bet_acts.press)
      (simp add: handleClickBet_def demo_bet_env_def demo_form_def bet_modal_init_def)
  then show ?thesis
    by (auto simp: handleClickBet_def demo_bet_env_def demo_form_def bet_modal_init_def)
qed

subsection \<open>Properties\<close>

lemma bet_render_possible:
  assumes "bet_render F D env st = Some (Inr (Some r))" and "br_possible r" and "bm_amount st = Some a"
  shows "be_market env = Some (br_market r)" and "br_outcome r \<in> set (outcomes (br_market r))"
    and "o_id (br_outcome r) = bm_outcomeId st" and "\<not> isZero D a"
    and "possiblePayoutProbForSpend F D (br_market r) (bm_outcomeId st) a (bm_selectedSide st) =
      Some (Inr (True, br_payout r, br_probability r))"
    and "be_balance env = Some b \<Longrightarrow> br_hasInsufficientFunds r = lessThan D (bal_amount b) a"
proof -
  obtain m where m: "be_market env = Some m" "outcomes m \<noteq> []"
    using assms(1) by (auto simp: bet_render_def split: option.splits if_splits)
  obtain ob where ob: "find (\<lambda>ob. o_id ob = bm_outcomeId st) (outcomes m) = Some ob"
    using assms(1) m by (auto simp: bet_render_def split: option.splits)
  obtain p pay prob where q: "bet_quote F D m st = Some (Inr (p, pay, prob))"
    using assms(1) m ob by (auto simp: bet_render_def bindE_eq_Inr)
  have r: "br_market r = m" "br_outcome r = ob" "br_possible r = p" "br_payout r = pay" "br_probability r = prob"
    "br_hasInsufficientFunds r = (case be_balance env of Some b \<Rightarrow> lessThan D (bal_amount b) a | None \<Rightarrow> False)"
    using assms(1,3) m ob q by (auto simp: bet_render_def split: if_splits option.splits)
  show "be_market env = Some (br_market r)" using m r by simp
  show "br_outcome r \<in> set (outcomes (br_market r))" "o_id (br_outcome r) = bm_outcomeId st"
    using ob r by (auto simp: find_Some_iff in_set_conv_nth)
  show "\<not> isZero D a"
    "possiblePayoutProbForSpend F D (br_market r) (bm_outcomeId st) a (bm_selectedSide st) =
      Some (Inr (True, br_payout r, br_probability r))"
    using q assms(2,3) r by (auto simp: bet_quote_def split: if_splits)
  show "br_hasInsufficientFunds r = lessThan D (bal_amount b) a" if "be_balance env = Some b"
    using that r by simp
qed





text \<open>
  C6. Throughout a session of any of the three forms, however the market, the balance and the answers
  interleave, at most one request is unanswered, and all requests carry the one key the form was created with, so
  that the server can recognise a repeated attempt. Once a bet was placed its form sends nothing more.
\<close>

theorem forms_one_request:
  "(session (bet_acts F X fmt) bet_settles (bet_modal_init key i side) st qs n \<longrightarrow>
      length qs = n + (if bm_isPending st then 1 else 0) \<and> list_all (\<lambda>q. request_key q = JStr key) qs \<and>
      (\<forall>rs st'. bm_showSuccess st \<and> bet_acts F X fmt st rs st' \<longrightarrow> rs = [] \<and> bm_showSuccess st')) \<and>
   (session (\<lambda>st qs st'. \<exists>now. card_acts F D bet now st qs st') cashout_settles (cashout_init key) cst cqs cn \<longrightarrow>
      length cqs = cn + (if cf_isPending cst then 1 else 0) \<and> list_all (\<lambda>q. request_key q = JStr key) cqs) \<and>
   (session (entry_acts F D bet) cashout_settles (cashout_init key) cst cqs cn \<longrightarrow>
      length cqs = cn + (if cf_isPending cst then 1 else 0) \<and> list_all (\<lambda>q. request_key q = JStr key) cqs)"
proof (intro conjI impI allI)
  assume s: "session (bet_acts F X fmt) bet_settles (bet_modal_init key i side) st qs n"
  note b = bet_form.session_requests [OF s, simplified bet_modal_init_def, simplified]
  from b show "length qs = n + (if bm_isPending st then 1 else 0)" by simp
  from b show "list_all (\<lambda>q. request_key q = JStr key) qs" by (simp add: list_all_iff)
next
  fix rs st' assume a: "bm_showSuccess st \<and> bet_acts F X fmt st rs st'"
  show "rs = []"
  proof (rule ccontr)
    assume "rs \<noteq> []"
    then obtain q where "(fst q, snd q) \<in> set rs" by (cases rs) auto
    with a bet_acts_request show False by metis
  qed
  from a have "bet_acts F X fmt st rs st'" "bm_showSuccess st" by simp_all
  then show "bm_showSuccess st'"
  proof cases
    case (press env r e es)
    with bet_success_view [of st e fmt env r] \<open>bm_showSuccess st\<close> show ?thesis by simp
  qed (simp_all add: bet_initial_outcome_def)
next
  assume s: "session (\<lambda>st qs st'. \<exists>now. card_acts F D bet now st qs st') cashout_settles (cashout_init key) cst cqs cn"
  note b = card.session_requests [OF s, simplified cashout_init_def, simplified]
  from b show "length cqs = cn + (if cf_isPending cst then 1 else 0)" by simp
  from b show "list_all (\<lambda>q. request_key q = JStr key) cqs" by (simp add: list_all_iff)
next
  assume s: "session (entry_acts F D bet) cashout_settles (cashout_init key) cst cqs cn"
  note b = entry.session_requests [OF s, simplified cashout_init_def, simplified]
  from b show "length cqs = cn + (if cf_isPending cst then 1 else 0)" by simp
  from b show "list_all (\<lambda>q. request_key q = JStr key) cqs" by (simp add: list_all_iff)
qed

theorem forms_one_request_witness:
  "\<exists>qs st. session (bet_acts exact demo_decs OddsDecimal) bet_settles (bet_modal_init ''k'' 0 SideY) st qs 0 \<and>
     bm_isPending st \<and> length qs = 1"
proof -
  obtain q where p: "bet_acts exact demo_decs OddsDecimal demo_form [(PostBet, q)] (demo_form\<lparr>bm_isPending := True\<rparr>)"
    using demo_press by blast
  let ?session = "session (bet_acts exact demo_decs OddsDecimal) bet_settles (bet_modal_init ''k'' 0 SideY)"
  have "?session (bet_modal_init ''k'' 0 SideY) [] 0" by (rule session.start)
  then have "?session demo_form ([] @ []) 0" using demo_stake by (rule session.act)
  then have s: "?session (demo_form\<lparr>bm_isPending := True\<rparr>) (([] @ []) @ [(PostBet, q)]) 0" using p by (rule session.act)
  have "length (([] @ []) @ [(PostBet, q)]) = 0 + (if bm_isPending (demo_form\<lparr>bm_isPending := True\<rparr>) then 1 else 0)"
    using forms_one_request [of exact demo_decs OddsDecimal "''k''" 0 SideY "demo_form\<lparr>bm_isPending := True\<rparr>"
        "([] @ []) @ [(PostBet, q)]" 0] s by blast
  with s show ?thesis by (intro exI conjI) (assumption, simp_all)
qed

end
