(* ===== verification/Socket.thy ===== *)
theory Socket
  imports Messages
begin

section \<open>The socket client\<close>

text \<open>
  The class \<^verbatim>\<open>WSClient\<close> of \<^verbatim>\<open>src/frontend/seer/src/socket/socket.ts\<close>: its fields as a record, its
  methods as functions on the client and on the part of the browser they drive (the sockets it has
  opened with their ready states, the timeouts that are pending, what was sent), and the events of the
  browser as a step relation. A handler is an element of an abstract type: a \<^verbatim>\<open>Map\<close> of \<^verbatim>\<open>Set\<close>s
  of handlers is an association list of lists in insertion order. JSON and the schema validation are
  the fields of a record \<open>wire\<close>. Delays are real numbers: the powers of \<open>3 / 2\<close> below the thirty-third are binary64 numbers, and
  the default delay reaches its maximum at the twelfth attempt.
\<close>

subsection \<open>Definitions\<close>

datatype readyState = CONNECTING | OPEN | CLOSING | CLOSED

datatype ws_schema = SBalanceUpdate | SMarketUpdate | SBetUpdate | SChatMessage | SOnlineUpdate | SEmptyPayload

record ws_options =
  opt_url :: string
  reconnectInitialDelay :: real
  reconnectMaxDelay :: real
  opt_reconnectAttempts :: nat
  debug :: bool

record 'h wsclient =
  ws :: "nat option"
  handlers :: "(string \<times> 'h list) list"
  connectHandlers :: "'h list"
  globalHandlers :: "'h list"
  reconnectAttempts :: nat
  reconnectTimer :: "nat option"
  schemas :: "(string \<times> ws_schema) list"
  options :: ws_options

text \<open>
  A socket is its number in the list of all sockets opened so far. A timeout is its number with
  its delay. \<open>outbox\<close> lists what was sent, with the socket it was sent on.
\<close>

record 'h net =
  client :: "'h wsclient"
  sockets :: "readyState list"
  timers :: "(nat \<times> real) list"
  nextTimer :: nat
  outbox :: "(nat \<times> string) list"

record ('j, 'p) wire =
  JSON_parse :: "string \<Rightarrow> 'j option"
  JSON_stringify :: "'j ws_message \<Rightarrow> string"
  parse_envelope :: "'j \<Rightarrow> 'j ws_message option"
  parse_payload :: "ws_schema \<Rightarrow> 'j option \<Rightarrow> 'p option"

definition set_add :: "'a \<Rightarrow> 'a list \<Rightarrow> 'a list" where
  "set_add x xs = (if x \<in> set xs then xs else xs @ [x])"

definition set_delete :: "'a \<Rightarrow> 'a list \<Rightarrow> 'a list" where
  "set_delete x xs = filter (\<lambda>y. y \<noteq> x) xs"

definition default_options :: "string \<Rightarrow> ws_options" where
  "default_options url = \<lparr>opt_url = url, reconnectInitialDelay = 500, reconnectMaxDelay = 30000,
     opt_reconnectAttempts = 0, debug = True\<rparr>"

definition registered_schemas :: "(string \<times> ws_schema) list" where
  "registered_schemas =
     [(''balance'', SBalanceUpdate), (''markets_update'', SMarketUpdate), (''bets'', SBetUpdate),
      (''chat'', SChatMessage), (''online'', SOnlineUpdate), (''ack'', SEmptyPayload), (''rate'', SEmptyPayload)]"

definition connectOnce :: "'h net \<Rightarrow> 'h net" where
  "connectOnce w = w\<lparr>client := (client w)\<lparr>ws := Some (length (sockets w))\<rparr>,
                     sockets := sockets w @ [CONNECTING]\<rparr>"

definition connect :: "'h net \<Rightarrow> 'h net" where
  "connect w = (if ws (client w) \<noteq> None then w else connectOnce w)"

definition new_client :: "ws_options \<Rightarrow> 'h net" where
  "new_client opts = connect
     \<lparr>client = \<lparr>ws = None, handlers = [], connectHandlers = [], globalHandlers = [], reconnectAttempts = 0,
         reconnectTimer = None, schemas = registered_schemas, options = opts\<rparr>,
      sockets = [], timers = [], nextTimer = 0, outbox = []\<rparr>"

definition backoff :: "ws_options \<Rightarrow> nat \<Rightarrow> real" where
  "backoff opts attempts = min (reconnectInitialDelay opts * (3 / 2) ^ (attempts - 1)) (reconnectMaxDelay opts)"

definition scheduleReconnect :: "'h net \<Rightarrow> 'h net" where
  "scheduleReconnect w =
     (let c = client w; n = reconnectAttempts c + 1; m = opt_reconnectAttempts (options c)
      in if m > 0 \<and> n > m then w\<lparr>client := c\<lparr>reconnectAttempts := n\<rparr>\<rparr>
         else w\<lparr>client := c\<lparr>reconnectAttempts := n, reconnectTimer := Some (nextTimer w)\<rparr>,
                timers := timers w @ [(nextTimer w, backoff (options c) n)], nextTimer := nextTimer w + 1\<rparr>)"

text \<open>The body of the timeout.\<close>

definition timer_body :: "'h net \<Rightarrow> 'h net" where
  "timer_body w = connectOnce (w\<lparr>client := (client w)\<lparr>reconnectTimer := None\<rparr>\<rparr>)"

definition handleOpen :: "('h \<Rightarrow> 'h net \<Rightarrow> 'h net) \<Rightarrow> 'h net \<Rightarrow> 'h net" where
  "handleOpen run w =
     (let w' = fold run (connectHandlers (client w)) w
      in w'\<lparr>client := (client w')\<lparr>reconnectAttempts := 0\<rparr>\<rparr>)"

definition handleClose :: "'h net \<Rightarrow> 'h net" where
  "handleClose w = scheduleReconnect (w\<lparr>client := (client w)\<lparr>ws := None\<rparr>\<rparr>)"

text \<open>
  The calls a line causes: the handlers of exactly its type, in the order of their registration, on
  the payload that the schema registered for the prefix of the type accepts.
\<close>

definition handle_line :: "('j, 'p) wire \<Rightarrow> 'h wsclient \<Rightarrow> string \<Rightarrow> ('h \<times> 'p) list" where
  "handle_line W c line =
     (case JSON_parse W line of None \<Rightarrow> []
      | Some parsed \<Rightarrow> (case parse_envelope W parsed of None \<Rightarrow> []
        | Some env \<Rightarrow>
            (case map_of (schemas c) (hd (split_on (CHR '':'') (ws_type env))) of None \<Rightarrow> []
             | Some schema \<Rightarrow> (case parse_payload W schema (ws_payload env) of None \<Rightarrow> []
               | Some p \<Rightarrow> (case map_of (handlers c) (ws_type env) of None \<Rightarrow> []
                 | Some hs \<Rightarrow> map (\<lambda>h. (h, p)) hs)))))"

definition message_lines :: "string \<Rightarrow> string list" where
  "message_lines text = filter (\<lambda>s. s \<noteq> []) (map js_trim (split_on (CHR 0x0A) text))"

definition handleMessage :: "('j, 'p) wire \<Rightarrow> 'h wsclient \<Rightarrow> string \<Rightarrow> ('h \<times> 'p) list" where
  "handleMessage W c text = concat (map (handle_line W c) (message_lines text))"

definition on :: "string \<Rightarrow> 'h \<Rightarrow> 'h wsclient \<Rightarrow> 'h wsclient" where
  "on type h c =
     (case map_of (handlers c) type of
        None \<Rightarrow> c\<lparr>handlers := handlers c @ [(type, [h])]\<rparr>
      | Some _ \<Rightarrow> c\<lparr>handlers := map (\<lambda>(t, hs). if t = type then (t, set_add h hs) else (t, hs)) (handlers c)\<rparr>)"

definition off :: "string \<Rightarrow> 'h \<Rightarrow> 'h wsclient \<Rightarrow> 'h wsclient" where
  "off type h c =
     c\<lparr>handlers := map (\<lambda>(t, hs). if t = type then (t, set_delete h hs) else (t, hs)) (handlers c)\<rparr>"

definition onConnect :: "'h \<Rightarrow> 'h wsclient \<Rightarrow> 'h wsclient" where
  "onConnect h c = c\<lparr>connectHandlers := set_add h (connectHandlers c)\<rparr>"

definition offConnect :: "'h \<Rightarrow> 'h wsclient \<Rightarrow> 'h wsclient" where
  "offConnect h c = c\<lparr>connectHandlers := set_delete h (connectHandlers c)\<rparr>"

definition onAny :: "'h \<Rightarrow> 'h wsclient \<Rightarrow> 'h wsclient" where
  "onAny h c = c\<lparr>globalHandlers := set_add h (globalHandlers c)\<rparr>"

definition emit :: "('j, 'p) wire \<Rightarrow> 'j ws_message \<Rightarrow> 'h net \<Rightarrow> 'h net" where
  "emit W msg w =
     (case ws (client w) of
        Some s \<Rightarrow> if s < length (sockets w) \<and> sockets w ! s = OPEN
                   then w\<lparr>outbox := outbox w @ [(s, JSON_stringify W msg)]\<rparr> else w
      | None \<Rightarrow> w)"

text \<open>\<^verbatim>\<open>close()\<close> of a socket that is not closing yet starts the closing handshake.\<close>

definition disonnect :: "'h net \<Rightarrow> 'h net" where
  "disonnect w =
     (case ws (client w) of
        None \<Rightarrow> w
      | Some s \<Rightarrow> if s < length (sockets w) \<and> (sockets w ! s = CONNECTING \<or> sockets w ! s = OPEN)
                   then w\<lparr>sockets := (sockets w)[s := CLOSING]\<rparr> else w)"

text \<open>The module variable \<^verbatim>\<open>client\<close> and \<^verbatim>\<open>getWSClient\<close>: the client is created at the first call.\<close>

definition getWSClient :: "string \<Rightarrow> 'h net option \<Rightarrow> 'h net" where
  "getWSClient url c = (case c of None \<Rightarrow> new_client (default_options url) | Some w \<Rightarrow> w)"

subsubsection \<open>The browser\<close>

text \<open>
  What can happen to a client: a socket opens, closes for any reason, or reports an error; a pending
  timeout fires; the application registers or removes handlers, sends, or disconnects.
\<close>

inductive net_step :: "('h \<Rightarrow> 'h net \<Rightarrow> 'h net) \<Rightarrow> ('j, 'p) wire \<Rightarrow> 'h net \<Rightarrow> 'h net \<Rightarrow> bool"
  for run :: "'h \<Rightarrow> 'h net \<Rightarrow> 'h net" and W :: "('j, 'p) wire" where
  opened: "s < length (sockets w) \<Longrightarrow> sockets w ! s = CONNECTING \<Longrightarrow>
    net_step run W w (handleOpen run (w\<lparr>sockets := (sockets w)[s := OPEN]\<rparr>))"
| closed: "s < length (sockets w) \<Longrightarrow> sockets w ! s \<noteq> CLOSED \<Longrightarrow>
    net_step run W w (handleClose (w\<lparr>sockets := (sockets w)[s := CLOSED]\<rparr>))"
| timeout: "(t, d) \<in> set (timers w) \<Longrightarrow>
    net_step run W w (timer_body (w\<lparr>timers := filter (\<lambda>(t', _). t' \<noteq> t) (timers w)\<rparr>))"
| sending: "net_step run W w (emit W msg w)"
| disconnecting: "net_step run W w (disonnect w)"
| registering: "f \<in> {on ty h, off ty h, onConnect h, offConnect h, onAny h} \<Longrightarrow>
    net_step run W w (w\<lparr>client := f (client w)\<rparr>)"

inductive reachable :: "('h \<Rightarrow> 'h net \<Rightarrow> 'h net) \<Rightarrow> ('j, 'p) wire \<Rightarrow> ws_options \<Rightarrow> 'h net \<Rightarrow> bool"
  for run :: "'h \<Rightarrow> 'h net \<Rightarrow> 'h net" and W :: "('j, 'p) wire" and opts :: ws_options where
  start: "reachable run W opts (new_client opts)"
| step: "reachable run W opts w \<Longrightarrow> net_step run W w w' \<Longrightarrow> reachable run W opts w'"

inductive_cases net_step_cases: "net_step run W w w'"

subsection \<open>The connection invariant\<close>

text \<open>
  The client has one socket that is not closed and no pending timeout, or only closed sockets and one
  pending timeout with the delay of the current attempt, or it has given up.
\<close>

definition conn_inv :: "ws_options \<Rightarrow> 'h net \<Rightarrow> bool" where
  "conn_inv opts w \<longleftrightarrow> options (client w) = opts \<and>
     (case ws (client w) of
        Some s \<Rightarrow> s < length (sockets w) \<and> sockets w ! s \<noteq> CLOSED \<and>
          (\<forall>j<length (sockets w). j \<noteq> s \<longrightarrow> sockets w ! j = CLOSED) \<and> timers w = []
      | None \<Rightarrow> (\<forall>j<length (sockets w). sockets w ! j = CLOSED) \<and>
          (let n = reconnectAttempts (client w); m = opt_reconnectAttempts opts
           in if m > 0 \<and> n > m then timers w = []
              else 0 < n \<and> (\<exists>t. timers w = [(t, backoff opts n)])))"

lemma conn_inv_connectOnce:
  "options (client w) = opts \<Longrightarrow> \<forall>j<length (sockets w). sockets w ! j = CLOSED \<Longrightarrow> timers w = [] \<Longrightarrow>
   conn_inv opts (connectOnce w)"
  by (auto simp: conn_inv_def connectOnce_def nth_append)

lemma conn_inv_new: "conn_inv opts (new_client opts)"
  unfolding new_client_def connect_def by (simp add: conn_inv_connectOnce)

lemma conn_inv_close:
  assumes "conn_inv opts w" and s: "s < length (sockets w)" "sockets w ! s \<noteq> CLOSED"
  shows "conn_inv opts (handleClose (w\<lparr>sockets := (sockets w)[s := CLOSED]\<rparr>))"
proof -
  from assms have "ws (client w) = Some s" "timers w = []"
    and "\<forall>j<length (sockets w). (sockets w)[s := CLOSED] ! j = CLOSED" and "options (client w) = opts"
    by (auto simp: conn_inv_def nth_list_update split: option.splits)
  then show ?thesis
    by (auto simp: conn_inv_def handleClose_def scheduleReconnect_def Let_def)
qed

lemma conn_inv_timeout:
  assumes "conn_inv opts w" and t: "(t, d) \<in> set (timers w)"
  shows "conn_inv opts (timer_body (w\<lparr>timers := filter (\<lambda>(t', _). t' \<noteq> t) (timers w)\<rparr>))"
proof -
  from assms obtain d where "timers w = [(t, d)]"
    and closed: "\<forall>j<length (sockets w). sockets w ! j = CLOSED" and "options (client w) = opts"
    by (auto simp: conn_inv_def Let_def split: option.splits if_splits)
  then show ?thesis unfolding timer_body_def by (intro conn_inv_connectOnce) simp_all
qed

lemma conn_inv_cong:
  assumes "conn_inv opts w" and "ws (client w') = ws (client w)" "options (client w') = options (client w)"
    "reconnectAttempts (client w') = reconnectAttempts (client w)" "sockets w' = sockets w" "timers w' = timers w"
  shows "conn_inv opts w'"
  using assms by (simp only: conn_inv_def)

lemma conn_inv_emit: "conn_inv opts w \<Longrightarrow> conn_inv opts (emit W msg w)"
  by (erule conn_inv_cong) (simp_all add: emit_def split: option.splits)

lemma conn_inv_disonnect: "conn_inv opts w \<Longrightarrow> conn_inv opts (disonnect w)"
  by (auto simp: conn_inv_def disonnect_def nth_list_update Let_def split: option.splits if_splits)

lemma conn_inv_register:
  "conn_inv opts w \<Longrightarrow> f \<in> {on ty h, off ty h, onConnect h, offConnect h, onAny h} \<Longrightarrow>
   conn_inv opts (w\<lparr>client := f (client w)\<rparr>)"
  by (erule conn_inv_cong)
    (auto simp: on_def off_def onConnect_def offConnect_def onAny_def split: option.splits)

text \<open>
  What the client relies on: a handler for new connections may send, but it does not touch the
  connection itself.
\<close>

locale quiet_handlers =
  fixes run :: "'h \<Rightarrow> 'h net \<Rightarrow> 'h net"
  assumes quiet: "client (run h w) = client w" "sockets (run h w) = sockets w" "timers (run h w) = timers w"
begin

lemma quiet_fold:
  "client (fold run hs w) = client w \<and> sockets (fold run hs w) = sockets w \<and> timers (fold run hs w) = timers w"
  by (induction hs arbitrary: w) (simp_all add: quiet)

lemma conn_inv_open:
  assumes "conn_inv opts w" and "s < length (sockets w)" "sockets w ! s = CONNECTING"
  shows "conn_inv opts (handleOpen run (w\<lparr>sockets := (sockets w)[s := OPEN]\<rparr>))"
  using assms
  by (auto simp: conn_inv_def handleOpen_def Let_def quiet_fold nth_list_update split: option.splits)

lemma conn_inv_step: "net_step run W w w' \<Longrightarrow> conn_inv opts w \<Longrightarrow> conn_inv opts w'"
  by (induction rule: net_step.induct)
    (rule conn_inv_open conn_inv_close conn_inv_timeout conn_inv_emit conn_inv_disonnect conn_inv_register; assumption)+

lemma conn_inv_reachable: "reachable run W opts w \<Longrightarrow> conn_inv opts w"
  by (induction rule: reachable.induct) (auto intro: conn_inv_new conn_inv_step)

end

subsection \<open>Delays\<close>

lemma backoff_mono: "0 \<le> reconnectInitialDelay opts \<Longrightarrow> m \<le> n \<Longrightarrow> backoff opts m \<le> backoff opts n"
  unfolding backoff_def by (intro min.mono mult_left_mono power_increasing) auto

lemma default_backoff:
  assumes "0 < n"
  shows "500 \<le> backoff (default_options u) n \<and> backoff (default_options u) n \<le> 30000"
proof -
  have "1 \<le> (3 / 2 :: real) ^ (n - 1)" by (rule one_le_power) simp
  then show ?thesis by (simp add: backoff_def default_options_def)
qed

lemma default_backoff_saturates: "12 \<le> n \<Longrightarrow> backoff (default_options u) n = 30000"
proof -
  assume "12 \<le> n"
  then have "backoff (default_options u) 12 \<le> backoff (default_options u) n"
    by (intro backoff_mono) (simp_all add: default_options_def)
  moreover have "backoff (default_options u) 12 = 30000"
    by (simp add: backoff_def default_options_def power_divide)
  ultimately show ?thesis using \<open>12 \<le> n\<close> default_backoff [of n u] by simp
qed

subsection \<open>Handlers\<close>

definition handlers_of :: "'h wsclient \<Rightarrow> string \<Rightarrow> 'h list" where
  "handlers_of c type = (case map_of (handlers c) type of None \<Rightarrow> [] | Some hs \<Rightarrow> hs)"

lemma map_of_map_entry:
  "map_of (map (\<lambda>(t, hs). if t = k then (t, f hs) else (t, hs)) xs) t =
   (if t = k then map_option f (map_of xs t) else map_of xs t)"
  by (induction xs) auto

lemma handlers_of_on [simp]:
  "handlers_of (on k h c) t = (if t = k then set_add h (handlers_of c t) else handlers_of c t)"
  by (auto simp: handlers_of_def on_def map_of_map_entry map_add_def set_add_def split: option.splits)

lemma handlers_of_off [simp]:
  "handlers_of (off k h c) t = (if t = k then set_delete h (handlers_of c t) else handlers_of c t)"
  by (auto simp: handlers_of_def off_def map_of_map_entry set_delete_def split: option.splits)

lemma calls_of:
  "(case map_of (handlers c) t of None \<Rightarrow> [] | Some hs \<Rightarrow> map (\<lambda>h. (h, p)) hs) =
   map (\<lambda>h. (h, p)) (handlers_of c t)"
  by (simp add: handlers_of_def split: option.splits)

lemma handle_line_call:
  "(h, p) \<in> set (handle_line W c line) \<Longrightarrow>
   \<exists>(env :: 'j ws_message) sch. map_of (schemas c) (hd (split_on (CHR '':'') (ws_type env))) = Some sch \<and>
     parse_payload W sch (ws_payload env) = Some p \<and> h \<in> set (handlers_of c (ws_type env))"
  for W :: "('j, 'p) wire"
proof -
  assume call: "(h, p) \<in> set (handle_line W c line)"
  then obtain j where j: "JSON_parse W line = Some j" by (cases "JSON_parse W line") (simp_all add: handle_line_def)
  with call obtain env where env: "parse_envelope W j = Some env"
    by (cases "parse_envelope W j") (simp_all add: handle_line_def)
  let ?sch = "map_of (schemas c) (hd (split_on (CHR '':'') (ws_type env)))"
  from call j env obtain sch where sch: "?sch = Some sch" by (cases ?sch) (simp_all add: handle_line_def)
  with call j env obtain q where "parse_payload W sch (ws_payload env) = Some q"
    by (cases "parse_payload W sch (ws_payload env)") (simp_all add: handle_line_def)
  with call j env sch show ?thesis
    by (intro exI [of _ env] exI [of _ sch]) (auto simp: handle_line_def calls_of)
qed

lemma handle_line_cong:
  assumes "schemas c = schemas c'" and "\<And>t. handlers_of c t = handlers_of c' t"
  shows "handle_line W c line = handle_line W c' line"
  unfolding handle_line_def calls_of assms ..

lemma on_keeps [simp]:
  "schemas (on k h c) = schemas c" "ws (on k h c) = ws c" "connectHandlers (on k h c) = connectHandlers c"
  by (simp_all add: on_def split: option.splits)

lemma off_keeps [simp]: "schemas (off k h c) = schemas c"
  by (simp add: off_def)

subsection \<open>A client with an open socket\<close>

text \<open>An example for the theorems below; its frames carry a type and nothing else.\<close>

definition demo_net :: "nat net" where
  "demo_net = (let w = new_client (default_options ''ws'') in handleOpen (\<lambda>h w. w) (w\<lparr>sockets := (sockets w)[0 := OPEN]\<rparr>))"

definition demo_wire :: "(string, ws_schema) wire" where
  "demo_wire = \<lparr>JSON_parse = Some, JSON_stringify = ws_type,
     parse_envelope = (\<lambda>j. Some \<lparr>ws_type = j, ws_payload = None\<rparr>), parse_payload = (\<lambda>s _. Some s)\<rparr>"

interpretation quiet_id: quiet_handlers "\<lambda>h w. w"
  by unfold_locales simp_all

lemma demo_reachable: "reachable (\<lambda>h w. w) demo_wire (default_options ''ws'') demo_net"
proof -
  have "net_step (\<lambda>h w. w) demo_wire (new_client (default_options ''ws'')) demo_net"
    unfolding demo_net_def Let_def
    by (rule opened) (simp_all add: new_client_def connect_def connectOnce_def)
  then show ?thesis by (rule step [OF start])
qed

subsection \<open>Properties\<close>

text \<open>
  C21. In every state the client can reach, at most one socket is not closed, it is the one the client
  holds, and no reconnection is pending while there is one. So a client never has two connections.
\<close>

theorem single_connection:
  assumes "quiet_handlers run" and "reachable run W opts w"
    and "s < length (sockets w)" and "sockets w ! s \<noteq> CLOSED"
  shows "ws (client w) = Some s \<and> timers w = [] \<and>
    (\<forall>j<length (sockets w). sockets w ! j \<noteq> CLOSED \<longrightarrow> j = s)"
  using quiet_handlers.conn_inv_reachable [OF assms(1,2)] assms(3,4)
  by (auto simp: conn_inv_def split: option.splits)

theorem single_connection_witness:
  "ws (client demo_net) = Some 0 \<and> timers demo_net = [] \<and> sockets demo_net ! 0 \<noteq> CLOSED"
proof -
  have s: "0 < length (sockets demo_net)" "sockets demo_net ! 0 \<noteq> CLOSED"
    by (simp_all add: demo_net_def new_client_def connect_def connectOnce_def handleOpen_def)
  with single_connection [OF quiet_id.quiet_handlers_axioms demo_reachable s] show ?thesis by blast
qed

text \<open>
  C22. A client that is not limited in its attempts is never stuck: in every reachable state a socket is
  being opened, open or being closed, or exactly one reconnection is pending, whose delay lies between
  half a second and thirty seconds under the default options.
\<close>

theorem never_stuck:
  assumes "quiet_handlers run" and "reachable run W (default_options u) w"
  shows "(\<exists>s<length (sockets w). ws (client w) = Some s \<and> sockets w ! s \<noteq> CLOSED) \<or>
    (\<exists>t d. timers w = [(t, d)] \<and> d = backoff (default_options u) (reconnectAttempts (client w)) \<and>
       500 \<le> d \<and> d \<le> 30000)"
  using quiet_handlers.conn_inv_reachable [OF assms] default_backoff [of "reconnectAttempts (client w)" u]
  by (auto simp: conn_inv_def Let_def default_options_def split: option.splits)

theorem never_stuck_witness:
  "(\<exists>s<length (sockets demo_net). ws (client demo_net) = Some s \<and> sockets demo_net ! s \<noteq> CLOSED) \<or>
   (\<exists>t d. timers demo_net = [(t, d)] \<and> d = backoff (default_options ''ws'') (reconnectAttempts (client demo_net)) \<and>
      500 \<le> d \<and> d \<le> 30000)"
  by (rule never_stuck [OF quiet_id.quiet_handlers_axioms demo_reachable])

text \<open>
  Messages that arrive in one frame separated by a line break cause the same calls in the same
  order as the messages in frames of their own, malformed ones included.
\<close>

theorem batching_transparent:
  "handleMessage W c (first @ CHR 0x0A # second) = handleMessage W c first @ handleMessage W c second"
  by (simp add: handleMessage_def message_lines_def split_on_concat)

text \<open>
  The function that \<^verbatim>\<open>on\<close> returns undoes the registration: for a handler that was not
  registered, every frame causes the same calls after registering and unregistering it as before.
\<close>

theorem unsubscribe_restores:
  assumes "h \<notin> set (handlers_of c ty)"
  shows "handleMessage W (off ty h (on ty h c)) text = handleMessage W c text"
proof -
  have "set_delete h (set_add h (handlers_of c ty)) = handlers_of c ty"
    using assms by (auto simp: set_delete_def set_add_def filter_id_conv)
  then have "handlers_of (off ty h (on ty h c)) t = handlers_of c t" for t by simp
  then have "handle_line W (off ty h (on ty h c)) = handle_line W c"
    by (intro ext handle_line_cong) simp_all
  then show ?thesis by (simp only: handleMessage_def)
qed

theorem unsubscribe_restores_witness:
  "(7 :: nat) \<notin> set (handlers_of (client demo_net) ''chat'') \<and>
   handleMessage demo_wire (off ''chat'' 7 (on ''chat'' 7 (client demo_net))) ''chat'' =
   handleMessage demo_wire (client demo_net) ''chat''"
proof -
  have fresh: "(7 :: nat) \<notin> set (handlers_of (client demo_net) ''chat'')"
    by (simp add: handlers_of_def demo_net_def new_client_def connect_def connectOnce_def handleOpen_def)
  with unsubscribe_restores [OF fresh, of demo_wire "''chat''"] show ?thesis by blast
qed

end
