(* ===== verification/WsProvider.thy ===== *)
theory WsProvider
  imports MarketPrices Socket Stores
begin

section \<open>Live updates\<close>

text \<open>
  The handlers that \<^verbatim>\<open>WsProvider\<close> (\<^verbatim>\<open>src/frontend/seer/src/app/WsProvider.tsx\<close>) registers with the
  socket client: market updates with their version guard, the recomputation of prices and the buckets
  of the price charts, balance updates with their version guard, the feeds, the chat and the number of
  users, and what is sent when a connection opens. The query cache is a package: a cache has an abstract
  type and the locale \<open>query_cache\<close> states what \<^verbatim>\<open>setQueryData\<close> promises. The time is an argument,
  in milliseconds.
\<close>

subsection \<open>Definitions\<close>

definition bucket_ms :: "timeframe \<Rightarrow> int" where
  "bucket_ms tf =
     (case tf of TF_24h \<Rightarrow> 5 * 60 * 1000 | TF_7d \<Rightarrow> 60 * 60 * 1000
      | TF_30d \<Rightarrow> 4 * 60 * 60 * 1000 | TF_all \<Rightarrow> 24 * 60 * 60 * 1000)"

definition bucketDate :: "timeframe \<Rightarrow> int \<Rightarrow> int" where
  "bucketDate tf now = now div bucket_ms tf * bucket_ms tf"

definition update_chart :: "int \<Rightarrow> 'd \<Rightarrow> 'd price_chart \<Rightarrow> 'd price_chart" where
  "update_chart now price chart =
     (let bucket = bucketDate (chart_timeframe chart) now; ps = chart_prices chart
      in chart\<lparr>chart_prices :=
           (if ps \<noteq> [] \<and> pp_date (last ps) = bucket
            then ps[length ps - 1 := (last ps)\<lparr>pp_price := price\<rparr>]
            else ps @ [\<lparr>pp_date = bucket, pp_timestamp = bucket, pp_price = price\<rparr>])\<rparr>)"

definition update_charts :: "int \<Rightarrow> 'd outcome \<Rightarrow> 'd outcome" where
  "update_charts now ob =
     (case priceCharts ob of None \<Rightarrow> ob
      | Some cs \<Rightarrow> ob\<lparr>priceCharts := Some (map (update_chart now (priceYesNormalized ob)) cs)\<rparr>)"

definition update_quantity :: "'d market_update \<Rightarrow> 'd outcome \<Rightarrow> 'd outcome" where
  "update_quantity u ob =
     (case find (\<lambda>x. ou_id x = o_id ob) (mu_outcomes u) of
        None \<Rightarrow> ob | Some x \<Rightarrow> ob\<lparr>quantity := ou_quantity x\<rparr>)"

definition market_updater ::
    "fpu \<Rightarrow> 'd dlib \<Rightarrow> int \<Rightarrow> 'd market_update \<Rightarrow> 'd market_view option \<Rightarrow> 'd market_view option js" where
  "market_updater F D now u oldMarket =
     (case oldMarket of None \<Rightarrow> Inr None
      | Some m \<Rightarrow>
          if m_version m \<ge> mu_marketVersion u then Inr (Some m)
          else bindE (pricesForMarket F D
                   (m\<lparr>outcomes := map (update_quantity u) (outcomes m), totalVolume := mu_totalVolume u\<rparr>))
                 (\<lambda>updated. Inr (Some (updated\<lparr>outcomes := map (update_charts now) (outcomes updated),
                                          m_version := mu_marketVersion u\<rparr>))))"

text \<open>
  The new balance is the update itself; a balance that is in the cache has the currency of its key,
  which is the currency of the update.
\<close>

definition balance_updater :: "'d balance_update \<Rightarrow> 'd balance option \<Rightarrow> 'd balance option" where
  "balance_updater u oldBalance =
     (case oldBalance of None \<Rightarrow> None
      | Some b \<Rightarrow>
          if bal_version b \<ge> bu_version u then Some b
          else Some \<lparr>bal_amount = bu_balance u, bal_currency = bal_currency b, bal_version = bu_version u\<rparr>)"

text \<open>The state the handlers work on; \<open>('c, 'k, 'v) qclient\<close> is one family of keys of the query cache.\<close>

record ('c, 'k, 'v) qclient =
  getQueryData :: "'c \<Rightarrow> 'k \<Rightarrow> 'v option"
  storeQueryData :: "'c \<Rightarrow> 'k \<Rightarrow> 'v option \<Rightarrow> 'c"

definition setQueryData ::
    "('c, 'k, 'v) qclient \<Rightarrow> 'k \<Rightarrow> ('v option \<Rightarrow> 'v option js) \<Rightarrow> 'c \<Rightarrow> 'c js" where
  "setQueryData Q k updater c =
     bindE (updater (getQueryData Q c k)) (\<lambda>v. Inr (storeQueryData Q c k v))"

record ('m, 'b, 'd) live_state =
  market_cache :: 'm
  balance_cache :: 'b
  bet_feed :: "'d bet_store"
  chats :: chat_store
  online :: online_store

datatype provider_handler = HMarkets | HBalance | HBetsLatest | HBetsHigh | HChat | HOnline | HSubscribe

definition provider_types :: "(string \<times> provider_handler) list" where
  "provider_types =
     [(''markets_update'', HMarkets), (''balance'', HBalance), (''bets:latest'', HBetsLatest),
      (''bets:high'', HBetsHigh), (''chat'', HChat), (''online'', HOnline)]"

fun run_handler ::
    "fpu \<Rightarrow> 'd dlib \<Rightarrow> ('m, string, 'd market_view) qclient \<Rightarrow> ('b, string, 'd balance) qclient \<Rightarrow> int \<Rightarrow>
     provider_handler \<Rightarrow> 'd payload \<Rightarrow> ('m, 'b, 'd) live_state \<Rightarrow> ('m, 'b, 'd) live_state js" where
  "run_handler F D QM QB now HMarkets (PMarket u) s =
     bindE (setQueryData QM (mu_marketID u) (market_updater F D now u) (market_cache s))
       (\<lambda>c. Inr (s\<lparr>market_cache := c\<rparr>))"
| "run_handler F D QM QB now HBalance (PBalance u) s =
     bindE (setQueryData QB (bu_currency u) (\<lambda>b. Inr (balance_updater u b)) (balance_cache s))
       (\<lambda>c. Inr (s\<lparr>balance_cache := c\<rparr>))"
| "run_handler F D QM QB now HBetsLatest (PBet b) s = Inr (s\<lparr>bet_feed := addLatestBet b (bet_feed s)\<rparr>)"
| "run_handler F D QM QB now HBetsHigh (PBet b) s = Inr (s\<lparr>bet_feed := addHighBet b (bet_feed s)\<rparr>)"
| "run_handler F D QM QB now HChat (PChat m) s = Inr (s\<lparr>chats := addChatMessage m (chats s)\<rparr>)"
| "run_handler F D QM QB now HOnline (POnline u) s = Inr (s\<lparr>online := updateOnlineCount u (online s)\<rparr>)"
| "run_handler F D QM QB now _ _ s = Inl TypeError"

text \<open>What is sent on a new connection; \<open>chat_slug\<close> is the JSON object \<^verbatim>\<open>{ chatSlug: "global" }\<close>.\<close>

definition subscriptions :: "'j \<Rightarrow> 'j ws_message list" where
  "subscriptions chat_slug =
     [\<lparr>ws_type = ''subscribe:markets_update'', ws_payload = None\<rparr>,
      \<lparr>ws_type = ''subscribe:online'', ws_payload = None\<rparr>,
      \<lparr>ws_type = ''subscribe:bets'', ws_payload = None\<rparr>,
      \<lparr>ws_type = ''subscribe:chat'', ws_payload = Some chat_slug\<rparr>]"

definition run_connect :: "('j, 'p) wire \<Rightarrow> 'j \<Rightarrow> provider_handler \<Rightarrow> provider_handler net \<Rightarrow> provider_handler net" where
  "run_connect W chat_slug h w =
     (if h = HSubscribe then fold (emit W) (subscriptions chat_slug) w else w)"

text \<open>The effect of the provider on the client.\<close>

definition register_handlers :: "provider_handler wsclient \<Rightarrow> provider_handler wsclient" where
  "register_handlers c = onConnect HSubscribe (fold (\<lambda>(t, h). on t h) provider_types c)"

subsection \<open>The query cache\<close>

text \<open>
  The documented behaviour: after data is stored under a key it is what is read under this key, other
  keys keep theirs, and storing nothing leaves the cache as it is.
\<close>

locale query_cache =
  fixes Q :: "('c, 'k, 'v) qclient"
  assumes get_store: "getQueryData Q (storeQueryData Q c k v) k' =
    (if k' = k then (case v of None \<Rightarrow> getQueryData Q c k | Some _ \<Rightarrow> v) else getQueryData Q c k')"
begin

lemma get_set_other: "setQueryData Q k f c = Inr c' \<Longrightarrow> k' \<noteq> k \<Longrightarrow> getQueryData Q c' k' = getQueryData Q c k'"
  by (auto simp: setQueryData_def bindE_eq_Inr get_store)

lemma get_set_same:
  "setQueryData Q k f c = Inr c' \<Longrightarrow> f (getQueryData Q c k) = Inr (Some v) \<Longrightarrow> getQueryData Q c' k = Some v"
  by (auto simp: setQueryData_def bindE_eq_Inr get_store)

lemma set_total: "f (getQueryData Q c k) = Inr (Some v) \<Longrightarrow>
    \<exists>c'. setQueryData Q k f c = Inr c' \<and> getQueryData Q c' k = Some v"
  by (auto simp: setQueryData_def get_store)

end

definition map_cache :: "('k \<rightharpoonup> 'v, 'k, 'v) qclient" where
  "map_cache = \<lparr>getQueryData = (\<lambda>c k. c k),
     storeQueryData = (\<lambda>c k v. case v of None \<Rightarrow> c | Some x \<Rightarrow> c(k \<mapsto> x))\<rparr>"

interpretation map_qc: query_cache map_cache
  by unfold_locales (auto simp: map_cache_def split: option.splits)

subsection \<open>One update\<close>

definition new_quantity :: "'d market_update \<Rightarrow> int \<Rightarrow> 'd option" where
  "new_quantity u i = map_option ou_quantity (find (\<lambda>x. ou_id x = i) (mu_outcomes u))"

definition covers :: "'d market_update \<Rightarrow> 'd market_view \<Rightarrow> bool" where
  "covers u m = list_all (\<lambda>ob. new_quantity u (o_id ob) \<noteq> None) (outcomes m)"

lemma covers_ids: "covers u m \<longleftrightarrow> (\<forall>i\<in>#ids m. new_quantity u i \<noteq> None)"
  by (auto simp: covers_def ids_def list_all_iff)

lemma update_charts_keeps [simp]:
  "o_id (update_charts now ob) = o_id ob" "quantity (update_charts now ob) = quantity ob"
  by (simp_all add: update_charts_def split: option.splits)

lemma update_quantity_id [simp]: "o_id (update_quantity u ob) = o_id ob"
  by (simp add: update_quantity_def split: option.splits)

text \<open>What an update makes of an outcome's quantity, which stays when the update does not name the outcome.\<close>

definition revised :: "'d market_update \<Rightarrow> int \<times> 'd \<Rightarrow> int \<times> 'd" where
  "revised u h = (fst h, case new_quantity u (fst h) of None \<Rightarrow> snd h | Some q \<Rightarrow> q)"

lemma update_quantity_revised: "(o_id ob, quantity (update_quantity u ob)) = revised u (o_id ob, quantity ob)"
  by (simp add: update_quantity_def revised_def new_quantity_def split: option.split)

text \<open>One update that is newer than the market.\<close>

lemma market_updater_applies:
  assumes "outcomes m \<noteq> []" and "m_version m < mu_marketVersion u"
  obtains m' where "market_updater F D now u (Some m) = Inr (Some m')"
    and "m_version m' = mu_marketVersion u" and "totalVolume m' = mu_totalVolume u" and "outcomes m' \<noteq> []"
    and "holdings m' = image_mset (revised u) (holdings m)"
proof -
  let ?m = "m\<lparr>outcomes := map (update_quantity u) (outcomes m), totalVolume := mu_totalVolume u\<rparr>"
  obtain n where n: "pricesForMarket F D ?m = Inr n" using pricesForMarket_total [of ?m F D] assms(1) by auto
  note keep = pricesForMarket_keeps [OF n]
  let ?m' = "n\<lparr>outcomes := map (update_charts now) (outcomes n), m_version := mu_marketVersion u\<rparr>"
  have hold: "holdings ?m' = holdings n"
    by (simp add: holdings_def image_mset.compositionality comp_def)
  have "holdings ?m = image_mset (revised u) (holdings m)"
    by (simp add: holdings_def image_mset.compositionality comp_def update_quantity_revised)
  moreover have "market_updater F D now u (Some m) = Inr (Some ?m')"
    using n assms(2) by (simp add: market_updater_def)
  ultimately show thesis using that [of ?m'] keep hold assms(1) by simp
qed

lemma market_updater_newer:
  assumes "outcomes m \<noteq> []" and "m_version m < mu_marketVersion u" and "covers u m"
  obtains m' where "market_updater F D now u (Some m) = Inr (Some m')"
    and "m_version m' = mu_marketVersion u" and "totalVolume m' = mu_totalVolume u" and "outcomes m' \<noteq> []"
    and "ids m' = ids m" and "holdings m' = image_mset (\<lambda>i. (i, the (new_quantity u i))) (ids m)"
proof -
  obtain m' where m': "market_updater F D now u (Some m) = Inr (Some m')"
    "m_version m' = mu_marketVersion u" "totalVolume m' = mu_totalVolume u" "outcomes m' \<noteq> []"
    "holdings m' = image_mset (revised u) (holdings m)"
    by (rule market_updater_applies [OF assms(1,2)])
  have "revised u h = (fst h, the (new_quantity u (fst h)))" if "h \<in># holdings m" for h
    using that assms(3) by (auto simp: holdings_def covers_def list_all_iff revised_def)
  then have hm: "holdings m' = image_mset (\<lambda>i. (i, the (new_quantity u i))) (ids m)"
    unfolding m'(5) holdings_ids by (auto simp: image_mset.compositionality comp_def intro!: image_mset_cong)
  moreover have "ids m' = ids m"
    unfolding holdings_ids [of m'] hm by (simp add: image_mset.compositionality comp_def)
  ultimately show thesis using that m' by blast
qed

lemma market_updater_older:
  "mu_marketVersion u \<le> m_version m \<Longrightarrow> market_updater F D now u (Some m) = Inr (Some m)"
  by (simp add: market_updater_def)

subsection \<open>Sequences of updates\<close>

text \<open>The market updates of one market, handled one after the other with the time of each.\<close>

fun handle_updates ::
    "fpu \<Rightarrow> 'd dlib \<Rightarrow> ('m, string, 'd market_view) qclient \<Rightarrow> ('b, string, 'd balance) qclient \<Rightarrow>
     (int \<times> 'd market_update) list \<Rightarrow> ('m, 'b, 'd) live_state \<Rightarrow> ('m, 'b, 'd) live_state js" where
  "handle_updates F D QM QB [] s = Inr s"
| "handle_updates F D QM QB ((now, u) # us) s =
     bindE (run_handler F D QM QB now HMarkets (PMarket u) s) (handle_updates F D QM QB us)"

text \<open>The newest version known, and the market that belongs to it.\<close>

definition newest :: "'d market_view \<Rightarrow> 'd market_update set \<Rightarrow> int" where
  "newest m us = Max (insert (m_version m) (mu_marketVersion ` us))"

definition settled :: "'d market_view \<Rightarrow> 'd market_update set \<Rightarrow> 'd market_view \<Rightarrow> bool" where
  "settled m us m' \<longleftrightarrow>
     m_version m' = newest m us \<and> ids m' = ids m \<and> outcomes m' \<noteq> [] \<and>
     (m_version m = newest m us \<longrightarrow> m' = m) \<and>
     (\<forall>u\<in>us. m_version m < newest m us \<and> mu_marketVersion u = newest m us \<longrightarrow>
        totalVolume m' = mu_totalVolume u \<and>
        holdings m' = image_mset (\<lambda>i. (i, the (new_quantity u i))) (ids m))"

lemma settled_start: "outcomes m \<noteq> [] \<Longrightarrow> settled m {} m"
  by (simp add: settled_def newest_def)

lemma newest_insert: "finite us \<Longrightarrow> newest m (insert u us) = max (mu_marketVersion u) (newest m us)"
  unfolding newest_def by (subst image_insert, subst insert_commute, subst Max_insert) auto

text \<open>Versions identify updates: two updates with one version are equal.\<close>

definition versioned :: "'d market_update set \<Rightarrow> bool" where
  "versioned us \<longleftrightarrow> inj_on mu_marketVersion us"

lemma settled_step:
  assumes st: "settled m us m'" and "finite us" and ver: "versioned (insert u us)" and cov: "covers u m"
  shows "\<exists>m''. market_updater F D now u (Some m') = Inr (Some m'') \<and> settled m (insert u us) m''"
proof (cases "mu_marketVersion u \<le> m_version m'")
  case True
  then have new: "newest m (insert u us) = newest m us"
    using st assms(2) by (simp add: newest_insert settled_def)
  have "totalVolume m' = mu_totalVolume u \<and> holdings m' = image_mset (\<lambda>i. (i, the (new_quantity u i))) (ids m)"
    if "m_version m < newest m us" "mu_marketVersion u = newest m us"
  proof -
    have "newest m us \<in> mu_marketVersion ` us"
      using that(1) Max_in [of "insert (m_version m) (mu_marketVersion ` us)"] assms(2)
      by (auto simp: newest_def)
    with that(2) ver have "u \<in> us" unfolding versioned_def inj_on_def by force
    with that st show ?thesis by (simp add: settled_def)
  qed
  with st new have "settled m (insert u us) m'" by (simp add: settled_def)
  with market_updater_older [OF True] show ?thesis by blast
next
  case False
  have st': "outcomes m' \<noteq> []" "ids m' = ids m" "m_version m' = newest m us" using st by (simp_all add: settled_def)
  from cov st'(2) have "covers u m'" by (simp add: covers_ids)
  with False st'(1) obtain m'' where m'': "market_updater F D now u (Some m') = Inr (Some m'')"
    "m_version m'' = mu_marketVersion u" "totalVolume m'' = mu_totalVolume u" "outcomes m'' \<noteq> []"
    "ids m'' = ids m'" "holdings m'' = image_mset (\<lambda>i. (i, the (new_quantity u i))) (ids m')"
    using market_updater_newer [of m' u F D now] by (metis not_le)
  have new: "newest m (insert u us) = mu_marketVersion u"
    using False st'(3) assms(2) by (simp add: newest_insert)
  have "m_version m \<le> newest m us" using assms(2) by (simp add: newest_def)
  then have gt: "m_version m < mu_marketVersion u" using False st'(3) by simp
  have same: "v = u" if "v \<in> insert u us" "mu_marketVersion v = mu_marketVersion u" for v
    using that ver unfolding versioned_def inj_on_def by blast
  have "settled m (insert u us) m''"
    unfolding settled_def new using m'' st'(2) gt same by auto
  with m'' show ?thesis by blast
qed

context query_cache
begin

lemma get_updated:
  "f (getQueryData Q c k) = Inr (Some v) \<Longrightarrow>
   setQueryData Q k f c = Inr (storeQueryData Q c k (Some v)) \<and> getQueryData Q (storeQueryData Q c k (Some v)) k = Some v"
  by (simp add: setQueryData_def get_store)

end

lemma handle_updates_settled:
  assumes "query_cache QM"
  shows "getQueryData QM (market_cache s) k = Some m' \<Longrightarrow> settled m done m' \<Longrightarrow> finite done \<Longrightarrow>
    versioned (done \<union> snd ` set us) \<Longrightarrow> \<forall>(now, u)\<in>set us. mu_marketID u = k \<and> covers u m \<Longrightarrow>
    \<exists>s' m''. handle_updates F D QM QB us s = Inr s' \<and> getQueryData QM (market_cache s') k = Some m'' \<and>
      settled m (done \<union> snd ` set us) m''"
proof (induction us arbitrary: s m' "done")
  case Nil
  then show ?case by simp
next
  case (Cons p us)
  obtain now u where p: "p = (now, u)" by (cases p)
  from Cons.prems p have "versioned (insert u done)"
    by (auto simp: versioned_def intro: inj_on_subset)
  then obtain m'' where m'': "market_updater F D now u (Some m') = Inr (Some m'')" "settled m (insert u done) m''"
    using settled_step [of m "done" m' u F D now] Cons.prems p by auto
  let ?s = "s\<lparr>market_cache := storeQueryData QM (market_cache s) k (Some m'')\<rparr>"
  have "run_handler F D QM QB now HMarkets (PMarket u) s = Inr ?s"
    and "getQueryData QM (market_cache ?s) k = Some m''"
    using query_cache.get_updated [OF assms, of "market_updater F D now u" "market_cache s" k m''] m''(1) Cons.prems p
    by auto
  with Cons.IH [of ?s m'' "insert u done"] Cons.prems m'' p show ?case by auto
qed

lemma settled_unique:
  assumes "settled m us m1" and "settled m us m2" and "finite us"
  shows "m_version m1 = m_version m2 \<and> totalVolume m1 = totalVolume m2 \<and> holdings m1 = holdings m2"
proof (cases "m_version m = newest m us")
  case True
  with assms show ?thesis by (simp add: settled_def)
next
  case False
  have "newest m us \<in> insert (m_version m) (mu_marketVersion ` us)"
    using assms(3) unfolding newest_def by (intro Max_in) auto
  with False obtain u where "u \<in> us" "mu_marketVersion u = newest m us" by auto
  moreover have "m_version m \<le> newest m us" using assms(3) by (simp add: newest_def)
  with False have "m_version m < newest m us" by simp
  ultimately show ?thesis using assms(1,2) by (simp add: settled_def)
qed

subsection \<open>Charts\<close>

lemma bucket_ms_pos [simp]: "0 < bucket_ms tf"
  by (cases tf) (simp_all add: bucket_ms_def)

lemma bucketDate_bounds: "bucketDate tf now \<le> now \<and> now < bucketDate tf now + bucket_ms tf"
proof -
  have "now = bucketDate tf now + now mod bucket_ms tf" by (simp add: bucketDate_def)
  moreover have "0 \<le> now mod bucket_ms tf" "now mod bucket_ms tf < bucket_ms tf" by simp_all
  ultimately show ?thesis by linarith
qed

lemma bucketDate_idem [simp]: "bucketDate tf (bucketDate tf now) = bucketDate tf now"
  using bucket_ms_pos [of tf] by (simp add: bucketDate_def)

definition chart_ok :: "int \<Rightarrow> 'd price_chart \<Rightarrow> bool" where
  "chart_ok bound c \<longleftrightarrow> sorted_wrt (<) (map pp_date (chart_prices c)) \<and>
     list_all (\<lambda>p. pp_date p \<le> bound) (chart_prices c)"

lemma update_chart_points:
  assumes "chart_ok (bucketDate (chart_timeframe c) now) c"
  defines "b \<equiv> bucketDate (chart_timeframe c) now"
  shows "\<exists>q. chart_prices (update_chart now price c) = filter (\<lambda>x. pp_date x < b) (chart_prices c) @ [q] \<and>
    pp_date q = b \<and> pp_price q = price"
proof (cases "chart_prices c" rule: rev_cases)
  case Nil
  then show ?thesis by (simp add: update_chart_def b_def Let_def)
next
  case (snoc qs l)
  with assms(1) have qs: "\<forall>x\<in>set qs. pp_date x < pp_date l" and l: "pp_date l \<le> b"
    by (auto simp: chart_ok_def sorted_wrt_append b_def)
  show ?thesis
  proof (cases "pp_date l = b")
    case True
    with qs have "filter (\<lambda>x. pp_date x < b) qs = qs" by (simp add: filter_id_conv)
    with True snoc show ?thesis by (simp add: update_chart_def b_def [symmetric] Let_def)
  next
    case False
    with qs l have "filter (\<lambda>x. pp_date x < b) (qs @ [l]) = qs @ [l]" by (auto simp: filter_id_conv)
    with False snoc show ?thesis by (simp add: update_chart_def b_def [symmetric] Let_def)
  qed
qed

subsection \<open>Wiring\<close>

lemma fold_emit:
  "client (fold (emit W) ms w) = client w" "sockets (fold (emit W) ms w) = sockets w"
  "timers (fold (emit W) ms w) = timers w"
  by (induction ms arbitrary: w) (simp_all add: emit_def split: option.splits)

interpretation provider: quiet_handlers "run_connect W j" for W j
  by unfold_locales (simp_all add: run_connect_def fold_emit)

lemma fold_emit_open:
  "ws (client w) = Some s \<Longrightarrow> s < length (sockets w) \<Longrightarrow> sockets w ! s = OPEN \<Longrightarrow>
   outbox (fold (emit W) ms w) = outbox w @ map (\<lambda>m. (s, JSON_stringify W m)) ms"
  by (induction ms arbitrary: w) (simp_all add: emit_def)

lemma handlers_of_provider:
  assumes "\<And>t. handlers_of c t = []"
  shows "handlers_of (register_handlers c) t = (case map_of provider_types t of None \<Rightarrow> [] | Some h \<Rightarrow> [h])"
proof -
  have con: "handlers_of (onConnect h c) t = handlers_of c t" for h and c :: "provider_handler wsclient"
    by (simp add: handlers_of_def onConnect_def)
  show ?thesis by (simp add: register_handlers_def con provider_types_def assms set_add_def)
qed

text \<open>The payload each handler expects, and validation that produces the payload its schema describes.\<close>

fun expects :: "provider_handler \<Rightarrow> 'd payload \<Rightarrow> bool" where
  "expects HMarkets (PMarket _) = True"
| "expects HBalance (PBalance _) = True"
| "expects HBetsLatest (PBet _) = True"
| "expects HBetsHigh (PBet _) = True"
| "expects HChat (PChat _) = True"
| "expects HOnline (POnline _) = True"
| "expects _ _ = False"

fun conforms :: "ws_schema \<Rightarrow> 'd payload \<Rightarrow> bool" where
  "conforms SMarketUpdate (PMarket _) = True"
| "conforms SBalanceUpdate (PBalance _) = True"
| "conforms SBetUpdate (PBet _) = True"
| "conforms SChatMessage (PChat _) = True"
| "conforms SOnlineUpdate (POnline _) = True"
| "conforms SEmptyPayload PEmpty = True"
| "conforms _ _ = False"

lemma calls_typed:
  fixes W :: "('j, 'd payload) wire"
  assumes wire: "\<And>sch j p. parse_payload W sch j = Some p \<Longrightarrow> conforms sch p"
    and reg: "schemas c = registered_schemas"
      "\<And>t. handlers_of c t = (case map_of provider_types t of None \<Rightarrow> [] | Some h \<Rightarrow> [h])"
    and call: "(h, p) \<in> set (handle_line W c line)"
  shows "expects h p"
proof -
  obtain env :: "'j ws_message" and sch where env: "map_of registered_schemas (hd (split_on (CHR '':'') (ws_type env))) = Some sch"
    "parse_payload W sch (ws_payload env) = Some p" "map_of provider_types (ws_type env) = Some h"
    using handle_line_call [OF call] unfolding reg by (auto split: option.split_asm)
  have "conforms sch p" by (rule wire [OF env(2)])
  with env(1,3) show ?thesis
    by (cases p) (auto simp: provider_types_def registered_schemas_def split: if_splits)
qed

subsection \<open>Examples\<close>

definition demo_update :: "int \<Rightarrow> real \<Rightarrow> real market_update" where
  "demo_update v x = \<lparr>mu_marketID = ''m'', mu_marketVersion = v, mu_totalVolume = x,
     mu_outcomes = [\<lparr>ou_id = 0, ou_quantity = x\<rparr>, \<lparr>ou_id = 1, ou_quantity = 1\<rparr>]\<rparr>"

definition demo_live :: "(string \<rightharpoonup> real market_view, string \<rightharpoonup> real balance, real) live_state" where
  "demo_live = \<lparr>market_cache = [''m'' \<mapsto> demo_market [1, 1]], balance_cache = Map.empty,
     bet_feed = bet_store_init, chats = Map.empty, online = \<lparr>onlineCount = 0\<rparr>\<rparr>"

definition demo_chart :: "real price_chart" where
  "demo_chart = \<lparr>chart_timeframe = TF_24h,
     chart_prices = [\<lparr>pp_date = 0, pp_timestamp = 0, pp_price = 1\<rparr>, \<lparr>pp_date = 300000, pp_timestamp = 300000, pp_price = 2\<rparr>]\<rparr>"

definition typed_wire :: "(string, real payload) wire" where
  "typed_wire = \<lparr>JSON_parse = Some, JSON_stringify = ws_type,
     parse_envelope = (\<lambda>j. Some \<lparr>ws_type = j, ws_payload = None\<rparr>),
     parse_payload = (\<lambda>sch _. if sch = SOnlineUpdate then Some (POnline \<lparr>usersOnlineCount = 3\<rparr>) else None)\<rparr>"

lemma demo_covers: "covers (demo_update v x) (demo_market [1, 1])"
  by (simp add: covers_def new_quantity_def demo_update_def demo_market_def demo_outcome_def)

lemma demo_versioned: "versioned {demo_update 2 5, demo_update 1 3}"
  by (simp add: versioned_def demo_update_def)

lemma demo_newest: "newest (demo_market [1, 1]) {demo_update 2 5, demo_update 1 3} = 2"
  by (simp add: newest_def demo_update_def demo_market_def)

subsection \<open>Properties\<close>

text \<open>
  C16. Live market updates converge: for a market in the cache and updates that each name all of its
  outcomes, with one update per version, every order of delivery, with any repetitions, leads to
  the same version, volume and quantities. No handler throws.
\<close>

theorem live_market_converges:
  assumes "query_cache QM" and "getQueryData QM (market_cache s) k = Some m" and "outcomes m \<noteq> []"
    and "versioned (snd ` set us)" and "\<forall>(now, u)\<in>set us. mu_marketID u = k \<and> covers u m"
    and "snd ` set us' = snd ` set us"
  shows "\<exists>s1 s2 m1 m2. handle_updates F D QM QB us s = Inr s1 \<and> handle_updates F D QM QB us' s = Inr s2 \<and>
    getQueryData QM (market_cache s1) k = Some m1 \<and> getQueryData QM (market_cache s2) k = Some m2 \<and>
    m_version m1 = newest m (snd ` set us) \<and> m_version m2 = m_version m1 \<and>
    totalVolume m2 = totalVolume m1 \<and> holdings m2 = holdings m1"
proof -
  have us': "\<forall>(now, u)\<in>set us'. mu_marketID u = k \<and> covers u m"
  proof (clarify, intro conjI)
    fix now u assume "(now, u) \<in> set us'"
    then have "u \<in> snd ` set us" unfolding assms(6) [symmetric] by force
    then show "mu_marketID u = k" "covers u m" using assms(5) by auto
  qed
  obtain s1 m1 where 1: "handle_updates F D QM QB us s = Inr s1" "getQueryData QM (market_cache s1) k = Some m1"
    "settled m (snd ` set us) m1"
    using handle_updates_settled [OF assms(1,2) settled_start [OF assms(3)], of us F D QB] assms(4,5) by auto
  obtain s2 m2 where 2: "handle_updates F D QM QB us' s = Inr s2" "getQueryData QM (market_cache s2) k = Some m2"
    "settled m (snd ` set us) m2"
    using handle_updates_settled [OF assms(1,2) settled_start [OF assms(3)], of us' F D QB] assms(4,6) us' by auto
  from settled_unique [OF 1(3) 2(3)] 1 2 show ?thesis by (fastforce simp: settled_def)
qed

theorem live_market_converges_witness:
  "\<exists>s1 s2 m1 m2.
    handle_updates exact real_lib map_cache map_cache [(0, demo_update 2 5), (1, demo_update 1 3)] demo_live = Inr s1 \<and>
    handle_updates exact real_lib map_cache map_cache [(0, demo_update 1 3), (1, demo_update 2 5)] demo_live = Inr s2 \<and>
    getQueryData map_cache (market_cache s1) ''m'' = Some m1 \<and> getQueryData map_cache (market_cache s2) ''m'' = Some m2 \<and>
    m_version m1 = 2 \<and> m_version m2 = m_version m1 \<and> totalVolume m2 = totalVolume m1 \<and> holdings m2 = holdings m1"
  using live_market_converges [OF map_qc.query_cache_axioms, of demo_live "''m''" "demo_market [1, 1]"
      "[(0, demo_update 2 5), (1, demo_update 1 3)]" "[(0, demo_update 1 3), (1, demo_update 2 5)]" exact real_lib map_cache]
    demo_covers demo_versioned demo_newest
  by (simp add: demo_live_def map_cache_def demo_market_def demo_update_def insert_commute)

text \<open>
  A chart stays a chart: when its dates increase and none lies after the current bucket, an update
  keeps all earlier points, ends in exactly one point for the current bucket with the new price, and the
  dates still increase. The bucket contains the current time.
\<close>

theorem chart_update_ok:
  assumes "chart_ok (bucketDate (chart_timeframe c) now) c"
  shows "chart_ok (bucketDate (chart_timeframe c) now) (update_chart now price c) \<and>
    (\<exists>q. chart_prices (update_chart now price c) =
       filter (\<lambda>x. pp_date x < bucketDate (chart_timeframe c) now) (chart_prices c) @ [q] \<and>
       pp_date q = bucketDate (chart_timeframe c) now \<and> pp_price q = price) \<and>
    bucketDate (chart_timeframe c) now \<le> now \<and> now < bucketDate (chart_timeframe c) now + bucket_ms (chart_timeframe c)"
proof -
  let ?b = "bucketDate (chart_timeframe c) now"
  obtain q where q: "chart_prices (update_chart now price c) = filter (\<lambda>x. pp_date x < ?b) (chart_prices c) @ [q]"
    "pp_date q = ?b" "pp_price q = price" using update_chart_points [OF assms] by blast
  have "sorted_wrt (<) (map pp_date (filter P (chart_prices c)))" for P
    using assms by (auto simp: chart_ok_def sorted_wrt_map intro: sorted_wrt_filter)
  with q have "chart_ok ?b (update_chart now price c)"
    by (auto simp: chart_ok_def sorted_wrt_append list_all_iff)
  with q bucketDate_bounds show ?thesis by blast
qed

theorem chart_update_ok_witness:
  "chart_ok (bucketDate (chart_timeframe demo_chart) 700000) (update_chart 700000 3 demo_chart) \<and>
   bucketDate (chart_timeframe demo_chart) 700000 = 600000"
proof -
  have b: "bucketDate (chart_timeframe demo_chart) 700000 = 600000"
    by (simp add: bucketDate_def bucket_ms_def demo_chart_def)
  have "chart_ok (bucketDate (chart_timeframe demo_chart) 700000) demo_chart"
    by (simp only: b) (simp add: chart_ok_def demo_chart_def)
  from chart_update_ok [OF this, of 3] b show ?thesis by blast
qed

text \<open>
  Balance updates converge: with one update per version, any order of delivery leads to the same
  balance, whose version is never below the one it started from.
\<close>

theorem balance_converges:
  assumes "inj_on bu_version (set us)" and "mset us' = mset us"
  shows "fold balance_updater us' b = fold balance_updater us b \<and>
    (\<forall>x y. b = Some x \<longrightarrow> fold balance_updater us b = Some y \<longrightarrow> bal_version x \<le> bal_version y)"
proof (intro conjI allI impI)
  have comm: "balance_updater u \<circ> balance_updater v = balance_updater v \<circ> balance_updater u"
    if "u \<in> set us" "v \<in> set us" for u v :: "'a balance_update"
  proof (cases "bu_version u = bu_version v")
    case True
    with assms(1) that have "u = v" by (simp add: inj_on_def)
    then show ?thesis by simp
  next
    case False
    then show ?thesis by (auto simp: fun_eq_iff balance_updater_def split: option.splits)
  qed
  have "set us' = set us" using assms(2) by (metis set_mset_mset)
  then show "fold balance_updater us' b = fold balance_updater us b"
    using comm assms(2) by (intro fold_multiset_equiv [THEN fun_cong]) auto
  fix x y
  show "b = Some x \<Longrightarrow> fold balance_updater us b = Some y \<Longrightarrow> bal_version x \<le> bal_version y"
  proof (induction us arbitrary: b x)
    case (Cons u us)
    obtain z where z: "balance_updater u b = Some z" "bal_version x \<le> bal_version z"
      using Cons.prems(1) by (cases "bu_version u \<le> bal_version x") (auto simp: balance_updater_def)
    with Cons show ?case by force
  qed simp
qed

theorem balance_converges_witness:
  "fold balance_updater [\<lparr>bu_currency = ''USDT'', bu_balance = 2, bu_version = 2\<rparr>, \<lparr>bu_currency = ''USDT'', bu_balance = 1, bu_version = 1\<rparr>]
     (Some \<lparr>bal_amount = 0 :: real, bal_currency = USDT, bal_version = 0\<rparr>) =
   Some \<lparr>bal_amount = 2, bal_currency = USDT, bal_version = 2\<rparr>"
  using balance_converges [of "[\<lparr>bu_currency = ''USDT'', bu_balance = 1 :: real, bu_version = 1\<rparr>, \<lparr>bu_currency = ''USDT'', bu_balance = 2, bu_version = 2\<rparr>]"
      "[\<lparr>bu_currency = ''USDT'', bu_balance = 2, bu_version = 2\<rparr>, \<lparr>bu_currency = ''USDT'', bu_balance = 1, bu_version = 1\<rparr>]"
      "Some \<lparr>bal_amount = 0, bal_currency = USDT, bal_version = 0\<rparr>"]
  by (simp add: balance_updater_def add_mset_commute)

text \<open>
  Every call the socket client makes to a handler of the provider carries the kind of payload
  that handler expects, when validation yields payloads of the validated schema: a handler registered
  for one type never sees a message of another.
\<close>

theorem dispatch_typed:
  assumes "\<And>sch j p. parse_payload W sch j = Some p \<Longrightarrow> conforms sch p"
    and "(h, p) \<in> set (handleMessage W (register_handlers (client (new_client opts))) text)"
  shows "expects h p"
proof -
  let ?c = "client (new_client opts) :: provider_handler wsclient"
  have none: "handlers_of ?c t = []" for t
    by (simp add: new_client_def connect_def connectOnce_def handlers_of_def)
  have "schemas (register_handlers c) = schemas c" for c
    by (simp add: register_handlers_def provider_types_def onConnect_def)
  then have "schemas (register_handlers ?c) = registered_schemas"
    by (simp add: new_client_def connect_def connectOnce_def)
  with calls_typed [of W, OF assms(1)] handlers_of_provider [OF none] assms(2) show ?thesis
    by (auto simp: handleMessage_def)
qed

theorem dispatch_typed_witness:
  "(HOnline, POnline \<lparr>usersOnlineCount = 3\<rparr>) \<in>
     set (handleMessage typed_wire (register_handlers (client (new_client (default_options ''ws'')))) ''online'') \<and>
   expects HOnline (POnline \<lparr>usersOnlineCount = 3\<rparr> :: real payload)"
proof -
  have call: "(HOnline, POnline \<lparr>usersOnlineCount = 3\<rparr>) \<in>
      set (handleMessage typed_wire (register_handlers (client (new_client (default_options ''ws'')))) ''online'')"
    by code_simp
  moreover have "expects HOnline (POnline \<lparr>usersOnlineCount = 3\<rparr> :: real payload)"
    by (rule dispatch_typed [OF _ call]) (auto simp: typed_wire_def split: if_splits)
  ultimately show ?thesis ..
qed

text \<open>
  Whenever the client's socket opens, the first time or after a reconnection, all four
  subscriptions are sent on it, and the counter of attempts is reset.
\<close>

theorem resubscribes:
  assumes "ws (client w) = Some s" and "s < length (sockets w)" and "connectHandlers (client w) = [HSubscribe]"
    and "w' = handleOpen (run_connect W j) (w\<lparr>sockets := (sockets w)[s := OPEN]\<rparr>)"
  shows "outbox w' = outbox w @ map (\<lambda>m. (s, JSON_stringify W m)) (subscriptions j) \<and>
    reconnectAttempts (client w') = 0 \<and> ws (client w') = Some s"
  using assms fold_emit_open [of "w\<lparr>sockets := (sockets w)[s := OPEN]\<rparr>" s W "subscriptions j"]
  by (simp add: handleOpen_def run_connect_def Let_def fold_emit)

theorem resubscribes_witness:
  "\<exists>w' :: provider_handler net. map snd (outbox w') =
     [''subscribe:markets_update'', ''subscribe:online'', ''subscribe:bets'', ''subscribe:chat''] \<and>
     reconnectAttempts (client w') = 0"
proof -
  define w :: "provider_handler net" where
    "w = (let w0 = new_client (default_options ''ws'') in w0\<lparr>client := register_handlers (client w0)\<rparr>)"
  have w: "ws (client w) = Some 0" "0 < length (sockets w)" "connectHandlers (client w) = [HSubscribe]" "outbox w = []"
    by (simp_all add: w_def Let_def new_client_def connect_def connectOnce_def register_handlers_def provider_types_def
        onConnect_def set_add_def)
  from resubscribes [OF w(1-3) refl, of typed_wire "[]"] w(4) show ?thesis
    by (intro exI conjI) (auto simp: subscriptions_def typed_wire_def)
qed

end
