(* ===== verification/Comments.thy ===== *)
theory Comments
  imports View WsProvider
begin

section \<open>Comments\<close>

text \<open>
  The comments of a market: \<^verbatim>\<open>src/frontend/seer/src/ui/comments/CommentThread.tsx\<close> with its component for one
  comment, \<^verbatim>\<open>ui/comments/CommentSection.tsx\<close> and \<^verbatim>\<open>lib/queries/usePostComment.tsx\<close>. A thread is an
  entry of the query cache under the key of its search: a list of pages. Likes are shown before
  the server has answered and taken back when it fails, by changing the comment object itself; a deleted
  comment is removed from its thread in the cache at once, and the pages from before are put back
  when the server fails. Both are functions of the state before, as in the sources.
\<close>

subsection \<open>Data\<close>

record comment =
  c_id :: int
  c_userId :: string
  c_username :: string
  c_marketId :: string
  nbReplies :: int
  nbLikes :: int
  isLiked :: bool
  isReported :: bool
  c_content :: string
  c_createdAt :: int
  c_parentId :: "int option"
  c_depth :: int

record comments_page =
  cp_comments :: "comment list"
  cp_metadata :: metadata

definition MAX_DEPTH :: int where
  "MAX_DEPTH = 5"

subsection \<open>Posting\<close>

text \<open>The callbacks of \<^verbatim>\<open>usePostComment\<close>; the action on success is the caller's.\<close>

definition post_succeeded :: "string \<Rightarrow> 'd effect list" where
  "post_succeeded marketId = [Invalidate [KStr ''comment'', KStr ''marketId'', KStr marketId]]"

definition post_failed :: "'d effect list" where
  "post_failed = [Toast ''Something went wrong'' False]"

definition post_comment :: "string \<Rightarrow> int option \<Rightarrow> string \<Rightarrow> 'd jv" where
  "post_comment marketId parentId content = JObj
     ([(''marketId'', JStr marketId)] @ (case parentId of None \<Rightarrow> [] | Some p \<Rightarrow> [(''parentId'', jint p)]) @
      [(''content'', JStr content)])"

record comment_section =
  cs_inputValue :: string
  cs_isPending :: bool

datatype section_event = TypeComment string | PostTop

fun section_step :: "string \<Rightarrow> section_event \<Rightarrow> comment_section \<Rightarrow> comment_section \<times> 'd effect list" where
  "section_step marketId (TypeComment v) st = (st\<lparr>cs_inputValue := v\<rparr>, [])"
| "section_step marketId PostTop st =
     (st\<lparr>cs_isPending := True\<rparr>, [Mutate PostComment (post_comment marketId None (cs_inputValue st))])"

definition section_posted :: "string \<Rightarrow> comment_section \<Rightarrow> comment_section \<times> 'd effect list" where
  "section_posted marketId st = (st\<lparr>cs_inputValue := [], cs_isPending := False\<rparr>, post_succeeded marketId)"

definition CommentSection :: "'d market_view \<Rightarrow> comment_section \<Rightarrow> ('d, section_event) widget list" where
  "CommentSection m st =
     (let inputValid = length (cs_inputValue st) \<ge> 3
      in [Field ''Add a comment'' 1000 TypeComment, Press (\<not> inputValid \<or> cs_isPending st) PostTop [Text ''Post''],
          Part ''CommentThread'' (JStr (m_id m))])"

subsection \<open>A thread\<close>

definition thread_search :: "string \<Rightarrow> int option \<Rightarrow> int \<Rightarrow> comment_search" where
  "thread_search marketId parentId n = \<lparr>cs_marketId = marketId, cs_parentId = parentId, cs_pageSize = n, cs_page = 1\<rparr>"

definition next_page :: "comments_page list \<Rightarrow> int option" where
  "next_page pages = (if pages = [] then Some 1 else getNextPageParamFromMetadata (cp_metadata (last pages)))"

definition CommentThread :: "comments_page list option \<Rightarrow> bool \<Rightarrow> bool \<Rightarrow> ('d, 'e) widget list" where
  "CommentThread pages isLoading isFetchingNextPage =
     shown isLoading [Loader] @
     (case pages of
        None \<Rightarrow> []
      | Some ps \<Rightarrow>
          map (\<lambda>c. Part ''CommentDisplay'' (jint (c_id c))) (concat (map cp_comments ps)) @
          shown (next_page ps \<noteq> None) ([Part ''InfiniteScrollContainer'' JNull] @ shown isFetchingNextPage [Loader]))"

subsection \<open>One comment\<close>

record comment_display =
  cd_comment :: comment
  cd_showReplies :: bool
  cd_showReplyInput :: bool
  cd_inputValue :: string
  cd_showDropdownReport :: bool
  cd_isLikePending :: bool
  cd_isDeletePending :: bool
  cd_isReportPending :: bool
  cd_isCommentPending :: bool

definition toggle_like :: "comment \<Rightarrow> comment" where
  "toggle_like c = (let liked = \<not> isLiked c in c\<lparr>isLiked := liked, nbLikes := nbLikes c + (if liked then 1 else -1)\<rparr>)"

definition like_mutation :: "comment \<Rightarrow> mutation" where
  "like_mutation c = (if isLiked c then DeleteLike else PostLike)"

definition interact :: "comment \<Rightarrow> 'd jv" where
  "interact c = JObj [(''commentId'', jint (c_id c))]"

datatype comment_event =
    DownOutside
  | EscapeKey
  | ClickReply
  | ClickDropdown
  | ClickReport
  | ClickDelete
  | ClickLike
  | ClickReplies
  | TypeReply string
  | ClickPost

fun comment_step :: "string option \<Rightarrow> comment_event \<Rightarrow> comment_display \<Rightarrow> comment_display \<times> 'd effect list" where
  "comment_step user DownOutside st = (st\<lparr>cd_showDropdownReport := False\<rparr>, [])"
| "comment_step user EscapeKey st = (st\<lparr>cd_showDropdownReport := False\<rparr>, [])"
| "comment_step user ClickReply st =
     (if user = None then (st, [OpenModal ModalAuth [(''selectedTab'', JStr ''login'')]])
      else (st\<lparr>cd_showReplyInput := \<not> cd_showReplyInput st\<rparr>, []))"
| "comment_step user ClickDropdown st =
     (if user = None then (st, [OpenModal ModalAuth [(''selectedTab'', JStr ''login'')]])
      else (st\<lparr>cd_showDropdownReport := \<not> cd_showDropdownReport st\<rparr>, []))"
| "comment_step user ClickReport st =
     (if isReported (cd_comment st) then (st, [Toast ''Comment already reported'' True])
      else (st\<lparr>cd_showDropdownReport := False, cd_isReportPending := True\<rparr>,
            [Mutate ReportComment (interact (cd_comment st))]))"
| "comment_step user ClickDelete st =
     (st\<lparr>cd_showDropdownReport := False, cd_isDeletePending := True\<rparr>, [Mutate DeleteComment (interact (cd_comment st))])"
| "comment_step user ClickLike st =
     (st\<lparr>cd_comment := toggle_like (cd_comment st), cd_isLikePending := True\<rparr>,
      [Mutate (like_mutation (cd_comment st)) (interact (cd_comment st))])"
| "comment_step user ClickReplies st = (st\<lparr>cd_showReplies := \<not> cd_showReplies st\<rparr>, [])"
| "comment_step user (TypeReply v) st = (st\<lparr>cd_inputValue := v\<rparr>, [])"
| "comment_step user ClickPost st =
     (st\<lparr>cd_isCommentPending := True\<rparr>,
      [Mutate PostComment (post_comment (c_marketId (cd_comment st)) (Some (c_id (cd_comment st))) (cd_inputValue st))])"

text \<open>The callbacks of the mutations.\<close>

definition like_succeeded :: "comment_display \<Rightarrow> comment_display" where
  "like_succeeded st = st\<lparr>cd_isLikePending := False\<rparr>"

definition like_failed :: "comment_display \<Rightarrow> comment_display \<times> 'd effect list" where
  "like_failed st =
     (st\<lparr>cd_comment := toggle_like (cd_comment st), cd_isLikePending := False\<rparr>, [Toast ''Something went wrong'' False])"

definition report_succeeded :: "comment_display \<Rightarrow> comment_display \<times> 'd effect list" where
  "report_succeeded st =
     (st\<lparr>cd_comment := (cd_comment st)\<lparr>isReported := True\<rparr>, cd_isReportPending := False\<rparr>, [Toast ''Comment reported'' True])"

definition report_failed :: "comment_display \<Rightarrow> comment_display \<times> 'd effect list" where
  "report_failed st = (st\<lparr>cd_isReportPending := False\<rparr>, [Toast ''Something went wrong'' False])"

definition reply_succeeded :: "comment_display \<Rightarrow> comment_display \<times> 'd effect list" where
  "reply_succeeded st =
     (st\<lparr>cd_inputValue := [], cd_showReplyInput := False, cd_showReplies := True, cd_isCommentPending := False\<rparr>,
      post_succeeded (c_marketId (cd_comment st)))"

text \<open>Deleting: the thread in the cache, before the request and when it failed.\<close>

definition threadQueryKey :: "comment \<Rightarrow> key_part list" where
  "threadQueryKey c = commentSearchKey (thread_search (c_marketId c) (c_parentId c) 0)"

definition without_comment :: "int \<Rightarrow> comments_page list \<Rightarrow> comments_page list" where
  "without_comment i pages =
     map (\<lambda>page. \<lparr>cp_comments = filter (\<lambda>c. c_id c \<noteq> i) (cp_comments page), cp_metadata = cp_metadata page\<rparr>) pages"

definition delete_onMutate ::
    "('c, key_part list, comments_page list) qclient \<Rightarrow> comment \<Rightarrow> int \<Rightarrow> 'c \<Rightarrow> 'c \<times> comments_page list option" where
  "delete_onMutate Q comment i cache =
     (let previousData = getQueryData Q cache (threadQueryKey comment)
      in (case previousData of
            None \<Rightarrow> cache
          | Some d \<Rightarrow> storeQueryData Q cache (threadQueryKey comment) (Some (without_comment i d)), previousData))"

definition delete_onError ::
    "('c, key_part list, comments_page list) qclient \<Rightarrow> comment \<Rightarrow> comments_page list option \<Rightarrow> 'c \<Rightarrow> 'c" where
  "delete_onError Q comment ctx cache =
     (case ctx of
        None \<Rightarrow> cache
      | Some d \<Rightarrow> storeQueryData Q cache (threadQueryKey comment) (Some d))"

definition delete_toast :: "'d effect list" where
  "delete_toast = [Toast ''Something went wrong'' False]"

definition delete_onSuccess :: "'d effect list" where
  "delete_onSuccess = [Toast ''Comment successfully deleted'' True]"

definition CommentDisplay :: "string option \<Rightarrow> int \<Rightarrow> comment_display \<Rightarrow> ('d, comment_event) widget list" where
  "CommentDisplay user now st =
     (let c = cd_comment st; isCommentWriter = (user = Some (c_userId c)); inputValid = length (cd_inputValue st) \<ge> 3
      in [Press False ClickDropdown []] @
         shown (cd_showDropdownReport st)
           ([Press (isCommentWriter \<or> cd_isReportPending st) ClickReport [Text ''Report'']] @
            shown isCommentWriter [Press (cd_isDeletePending st) ClickDelete [Text ''Delete'']]) @
         [Text (c_username c), Text (timeSince now (c_createdAt c)), Text (c_content c),
          Press (cd_isLikePending st) ClickLike [Text (show_int (nbLikes c))]] @
         shown (c_depth c < MAX_DEPTH) [Press False ClickReply [Text ''Reply'']] @
         shown (cd_showReplyInput st)
           [Field [] 1000 TypeReply, Press (\<not> inputValid \<or> cd_isCommentPending st) ClickPost [Text ''Post'']] @
         shown (nbReplies c > 0)
           [Press False ClickReplies
              [Text (if cd_showReplies st then ''Hide'' else ''Show''), Text (show_int (nbReplies c)),
               Text (if nbReplies c = 1 then ''reply'' else ''replies'')]] @
         shown (cd_showReplies st) [Part ''CommentThread'' (jint (c_id c))])"

subsection \<open>Likes\<close>

text \<open>
  A session of one comment with the server: whether the server has the like of this user, the request in
  flight, and what the component shows. Its user presses any button that is enabled, or types.
\<close>

inductive like_session ::
    "string option \<Rightarrow> comment_display \<Rightarrow> comment_display \<Rightarrow> mutation option \<Rightarrow> bool \<Rightarrow> bool"
  for user st0 where
  start: "like_session user st0 st0 None (isLiked (cd_comment st0))"
| like: "like_session user st0 st None b \<Longrightarrow> ClickLike \<in> set (presses (CommentDisplay user now st :: (unit, comment_event) widget list)) \<Longrightarrow>
    comment_step user ClickLike st = (st', [Mutate op (v :: unit jv)]) \<Longrightarrow> like_session user st0 st' (Some op) b"
| other: "like_session user st0 st p b \<Longrightarrow> e \<noteq> ClickLike \<Longrightarrow> comment_step user e st = (st', es :: unit effect list) \<Longrightarrow>
    like_session user st0 st' p b"
| answered: "like_session user st0 st (Some op) b \<Longrightarrow> like_session user st0 (like_succeeded st) None (op = PostLike)"
| refused: "like_session user st0 st (Some op) b \<Longrightarrow> like_failed st = (st', es :: unit effect list) \<Longrightarrow>
    like_session user st0 st' None b"

lemma toggle_twice: "toggle_like (toggle_like c) = c"
  by (cases c) (simp add: toggle_like_def Let_def)

lemma toggle_sel [simp]:
  "isLiked (toggle_like c) = (\<not> isLiked c)"
  "nbLikes (toggle_like c) = nbLikes c + (if isLiked c then -1 else 1)"
  "c_id (toggle_like c) = c_id c"
  by (simp_all add: toggle_like_def Let_def)

text \<open>What a step other than a like leaves alone.\<close>

lemma other_step:
  assumes "comment_step user e st = (st', es)" and "e \<noteq> ClickLike"
  shows "cd_comment st' = cd_comment st" and "cd_isLikePending st' = cd_isLikePending st"
  using assms by (cases e; auto split: if_splits)+


subsection \<open>Deleting\<close>

lemma without_comment_ids: "\<forall>page\<in>set (without_comment i ps). \<forall>c\<in>set (cp_comments page). c_id c \<noteq> i"
  by (auto simp: without_comment_def)

lemma without_comment_keeps:
  "concat (map cp_comments (without_comment i ps)) = filter (\<lambda>c. c_id c \<noteq> i) (concat (map cp_comments ps))"
  by (simp add: without_comment_def filter_concat comp_def)

lemma without_comment_pages: "next_page (without_comment i ps) = next_page ps"
  by (simp add: next_page_def without_comment_def last_map)

context query_cache
begin

lemma store_Some: "getQueryData Q (storeQueryData Q c k (Some v)) k' = (if k' = k then Some v else getQueryData Q c k')"
  by (simp add: get_store)

end

text \<open>
  C18. Deleting a comment removes exactly this comment from its thread, keeps the order of the others and the
  page to load next, and touches no other thread. If the server refuses, the thread is as it was, also when
  other threads have changed in between. But the pages are put back as a whole: if a second comment of the same thread was
  deleted in between, it is shown again although the server has deleted it.
\<close>

theorem delete_rollback:
  assumes "query_cache Q" and "getQueryData Q cache (threadQueryKey c) = Some pages"
    and "delete_onMutate Q c (c_id c) cache = (cache1, ctx)"
  shows "(\<exists>pages1. getQueryData Q cache1 (threadQueryKey c) = Some pages1 \<and>
            concat (map cp_comments pages1) = filter (\<lambda>x. c_id x \<noteq> c_id c) (concat (map cp_comments pages)) \<and>
            next_page pages1 = next_page pages) \<and>
    (\<forall>k. k \<noteq> threadQueryKey c \<longrightarrow> getQueryData Q cache1 k = getQueryData Q cache k) \<and>
    (\<forall>cache2. getQueryData Q (delete_onError Q c ctx cache2) (threadQueryKey c) = Some pages) \<and>
    (\<forall>c' cache2 ctx' d. threadQueryKey c' = threadQueryKey c \<and> d \<in> set (concat (map cp_comments pages)) \<and> c_id c' = c_id d \<and>
       delete_onMutate Q c' (c_id c') cache1 = (cache2, ctx') \<longrightarrow>
       (\<exists>pages3. getQueryData Q (delete_onError Q c ctx cache2) (threadQueryKey c) = Some pages3 \<and>
          d \<in> set (concat (map cp_comments pages3))))"
proof -
  note get = query_cache.store_Some [OF assms(1)]
  have c1: "ctx = Some pages" "cache1 = storeQueryData Q cache (threadQueryKey c) (Some (without_comment (c_id c) pages))"
    using assms(2,3) by (simp_all add: delete_onMutate_def)
  have restored: "getQueryData Q (delete_onError Q c ctx cache2) (threadQueryKey c) = Some pages" for cache2
    by (simp add: delete_onError_def c1 get)
  have "getQueryData Q cache1 (threadQueryKey c) = Some (without_comment (c_id c) pages)" by (simp add: c1 get)
  with restored show ?thesis
    using without_comment_keeps [of "c_id c" pages] without_comment_pages [of "c_id c" pages]
    by (auto simp: c1 get)
qed

subsection \<open>Examples\<close>

definition demo_comment :: "int \<Rightarrow> comment" where
  "demo_comment i = \<lparr>c_id = i, c_userId = ''u'', c_username = ''ann'', c_marketId = ''m'', nbReplies = 0, nbLikes = 3,
     isLiked = False, isReported = False, c_content = ''hello'', c_createdAt = 0, c_parentId = None, c_depth = 0\<rparr>"

definition demo_display :: comment_display where
  "demo_display = \<lparr>cd_comment = demo_comment 1, cd_showReplies = False, cd_showReplyInput = False, cd_inputValue = [],
     cd_showDropdownReport = False, cd_isLikePending = False, cd_isDeletePending = False, cd_isReportPending = False,
     cd_isCommentPending = False\<rparr>"


theorem delete_rollback_witness:
  "\<exists>cache1 ctx. delete_onMutate map_cache (demo_comment 1) 1
       [threadQueryKey (demo_comment 1) \<mapsto> [\<lparr>cp_comments = [demo_comment 1, demo_comment 2],
          cp_metadata = \<lparr>currentPage = 1, pageSize = 5, firstPage = 1, lastPage = 1, totalRecords = 2\<rparr>\<rparr>]] = (cache1, ctx) \<and>
     (\<exists>pages1. cache1 (threadQueryKey (demo_comment 1)) = Some pages1 \<and>
        concat (map cp_comments pages1) = [demo_comment 2])"
proof -
  let ?p = "[\<lparr>cp_comments = [demo_comment 1, demo_comment 2],
          cp_metadata = \<lparr>currentPage = 1, pageSize = 5, firstPage = 1, lastPage = 1, totalRecords = 2\<rparr>\<rparr>]"
  let ?c = "[threadQueryKey (demo_comment 1) \<mapsto> ?p]"
  obtain cache1 ctx where d: "delete_onMutate map_cache (demo_comment 1) (c_id (demo_comment 1)) ?c = (cache1, ctx)"
    by fastforce
  have g: "getQueryData map_cache ?c (threadQueryKey (demo_comment 1)) = Some ?p" by (simp add: map_cache_def)
  from delete_rollback [OF map_qc.query_cache_axioms g d] obtain pages1 where
    "getQueryData map_cache cache1 (threadQueryKey (demo_comment 1)) = Some pages1"
    "concat (map cp_comments pages1) = filter (\<lambda>x. c_id x \<noteq> 1) (concat (map cp_comments ?p))"
    by (auto simp: demo_comment_def)
  with d show ?thesis by (auto simp: map_cache_def demo_comment_def)
qed

end
