(* ===== verification/Accounts.thy ===== *)
theory Accounts
  imports View
begin

section \<open>Accounts\<close>

text \<open>
  The forms and pages of an account: \<^verbatim>\<open>src/frontend/seer/src/ui/auth\<close> (log in, register, complete the
  profile, log in with another provider), \<^verbatim>\<open>ui/profile\<close> (change or set the password) and
  \<^verbatim>\<open>app/settings\<close> (sessions, preferences). The five forms are built alike: a form is a record of its schema, its
  fields, its request and what happens on success, and the handlers are functions of that record. The form package
  is used as documented: submitting validates the values with the schema and either records one
  error per field or hands the validated values to the component; errors can be set by hand, and
  the one that belongs to no field is cleared on every submission. The type of an error message is a
  JSON value, since it comes from the server unchecked; \<^verbatim>\<open>undefined\<close> stands for a text of the package.
\<close>

subsection \<open>Forms\<close>

record 'd form =
  fm_schema :: "'d schema"
  fm_shape :: "string list"
  fm_mutation :: mutation
  fm_payload :: "('d schema \<Rightarrow> 'd jv \<Rightarrow> 'd zresult) \<Rightarrow> 'd jv \<Rightarrow> 'd zresult"
  fm_success :: "'d effect list"
  fm_heading :: "string list"
  fm_fields :: "(string \<times> string \<times> string) list"
  fm_after :: "string list"
  fm_shows_root :: bool
  fm_button :: string
  fm_footer :: "string list"

record 'd form_state =
  fs_values :: "'d jv"
  fs_errors :: "string \<Rightarrow> 'd jv option"
  fs_root :: "'d jv option"
  fs_isPending :: bool

definition logged_in :: "'d effect list" where
  "logged_in = [Disconnect, Invalidate [KStr ''user''], Navigate (Push ''/'' True), CloseModal]"

definition login_form :: "'d form" where
  "login_form = \<lparr>fm_schema = LoginSchema, fm_shape = [''login'', ''password''], fm_mutation = Login,
     fm_payload = (\<lambda>parse data. Inr data), fm_success = logged_in, fm_heading = [],
     fm_fields = [(''login'', ''Email or Username*'', ''Enter Email or Username''),
                  (''password'', ''Password*'', ''Enter Password'')],
     fm_after = [], fm_shows_root = True, fm_button = ''Login'', fm_footer = [''Providers'']\<rparr>"

definition register_form :: "'d form" where
  "register_form = \<lparr>fm_schema = RegisterSchema, fm_shape = [''username'', ''email'', ''password''], fm_mutation = Register,
     fm_payload = (\<lambda>parse data. Inr data), fm_success = logged_in, fm_heading = [],
     fm_fields = [(''email'', ''Email*'', ''Enter Email''), (''username'', ''Username*'', ''Enter Username''),
                  (''password'', ''Password*'', ''Enter Password'')],
     fm_after = [''Terms''], fm_shows_root = False, fm_button = ''Register'', fm_footer = [''Providers'']\<rparr>"

definition completion_form :: "'d form" where
  "completion_form = \<lparr>fm_schema = ProfileCompletionSchema, fm_shape = [''username''], fm_mutation = CompleteProfile,
     fm_payload = (\<lambda>parse data. Inr data), fm_success = logged_in,
     fm_heading = [''Last step to create your account...'', ''Please choose a username. You can edit it later in settings.''],
     fm_fields = [(''username'', ''Username*'', ''Enter Username'')], fm_after = [''Terms''], fm_shows_root = True,
     fm_button = ''Create Account'', fm_footer = []\<rparr>"

definition change_form :: "'d form" where
  "change_form = \<lparr>fm_schema = ChangePasswordSchema, fm_shape = map fst (change_fields :: (string \<times> unit schema) list),
     fm_mutation = ChangePassword, fm_payload = (\<lambda>parse data. parse ChangePasswordPayloadSchema data),
     fm_success = [ReplaceLocation ''/''],
     fm_heading = [''Set Password'', ''Setting your password will log you out from all your sessions.''],
     fm_fields = [(''currentPassword'', ''Current Password*'', ''Enter Current Password''),
                  (''newPassword'', ''New Password*'', ''Enter New Password''),
                  (''confirmNewPassword'', ''Confirm New Password*'', ''Confirm New Password'')],
     fm_after = [], fm_shows_root = True, fm_button = ''Change Password'', fm_footer = []\<rparr>"

definition set_form :: "'d form" where
  "set_form = \<lparr>fm_schema = SetPasswordSchema, fm_shape = map fst (set_fields :: (string \<times> unit schema) list),
     fm_mutation = SetPassword, fm_payload = (\<lambda>parse data. parse SetPasswordPayloadSchema data),
     fm_success = [ReplaceLocation ''/''],
     fm_heading = [''Set Password'', ''Setting your password will log you out from all your sessions.''],
     fm_fields = [(''password'', ''Password*'', ''Enter Password''),
                  (''confirmPassword'', ''Confirm Password*'', ''Confirm Password'')],
     fm_after = [], fm_shows_root = True, fm_button = ''Set Password'', fm_footer = []\<rparr>"

text \<open>Submitting: the first problem of each field becomes its error, valid values are sent.\<close>

definition issue_error :: "issue list \<Rightarrow> string \<Rightarrow> 'd jv option" where
  "issue_error is k =
     map_option (\<lambda>i. case snd i of None \<Rightarrow> JUndef | Some t \<Rightarrow> JStr t) (find (\<lambda>i. \<exists>p. fst i = k # p) is)"

definition form_submit ::
    "('d schema \<Rightarrow> 'd jv \<Rightarrow> 'd zresult) \<Rightarrow> 'd form \<Rightarrow> 'd form_state \<Rightarrow> ('d form_state \<times> 'd effect list) js" where
  "form_submit safeParse fm st =
     (case safeParse (fm_schema fm) (fs_values st) of
        Inl is \<Rightarrow> Inr (st\<lparr>fs_errors := issue_error is, fs_root := None\<rparr>, [])
      | Inr data \<Rightarrow>
          (case fm_payload fm safeParse data of
             Inl is \<Rightarrow> Inl (Thrown ''ZodError'')
           | Inr p \<Rightarrow> Inr (st\<lparr>fs_errors := (\<lambda>k. None), fs_root := None, fs_isPending := True\<rparr>,
                           [Mutate (fm_mutation fm) p])))"

text \<open>The callback for a refused request: field errors of the server for fields of the form, then its message.\<close>

fun field_errors :: "string list \<Rightarrow> 'd jv list \<Rightarrow> (string \<Rightarrow> 'd jv option) \<Rightarrow> (string \<Rightarrow> 'd jv option) js" where
  "field_errors shape [] errs = Inr errs"
| "field_errors shape (e # es) errs =
     (if e = JNull \<or> e = JUndef then Inl TypeError
      else case obj_get ''field'' e of
        JStr f \<Rightarrow> field_errors shape es (if f \<in> set shape then errs(f \<mapsto> obj_get ''message'' e) else errs)
      | _ \<Rightarrow> field_errors shape es errs)"

text \<open>The two properties of what was thrown; the texts of errors of the engine are an argument.\<close>

fun thrown_message :: "('d api_error \<Rightarrow> string) \<Rightarrow> 'd api_error \<Rightarrow> 'd jv" where
  "thrown_message engine (APIError m es) = m"
| "thrown_message engine (Error t) = JStr t"
| "thrown_message engine e = JStr (engine e)"

fun thrown_errors :: "'d api_error \<Rightarrow> 'd jv" where
  "thrown_errors (APIError m es) = es"
| "thrown_errors e = JUndef"

definition form_refused ::
    "('d api_error \<Rightarrow> string) \<Rightarrow> 'd form \<Rightarrow> 'd api_error \<Rightarrow> 'd form_state \<Rightarrow> 'd form_state js" where
  "form_refused engine fm err st =
     bindE (if truthy (thrown_errors err)
            then (case thrown_errors err of JArr es \<Rightarrow> field_errors (fm_shape fm) es (fs_errors st) | _ \<Rightarrow> Inl TypeError)
            else Inr (fs_errors st)) (\<lambda>errs.
       Inr (st\<lparr>fs_errors := errs, fs_isPending := False,
               fs_root := (if truthy (thrown_message engine err) then Some (thrown_message engine err) else fs_root st)\<rparr>))"

definition form_accepted :: "'d form \<Rightarrow> 'd form_state \<Rightarrow> 'd form_state \<times> 'd effect list" where
  "form_accepted fm st = (st\<lparr>fs_isPending := False\<rparr>, fm_success fm)"

datatype form_event = TypeField string string | Submit

definition error_text :: "'d jv option \<Rightarrow> ('d, 'e) widget list" where
  "error_text m = (case m of None \<Rightarrow> [] | Some v \<Rightarrow> [Part ''error'' v])"

definition FormField :: "'d form_state \<Rightarrow> string \<times> string \<times> string \<Rightarrow> ('d, form_event) widget list" where
  "FormField st f =
     (case f of (name, label, placeholder) \<Rightarrow>
        shown (label \<noteq> []) [Text label] @ [Field placeholder 0 (TypeField name)] @ error_text (fs_errors st name))"

definition form_view :: "'d form \<Rightarrow> 'd form_state \<Rightarrow> ('d, form_event) widget list" where
  "form_view fm st =
     map Text (fm_heading fm) @ concat (map (FormField st) (fm_fields fm)) @ map (\<lambda>p. Part p JNull) (fm_after fm) @
     shown (fm_shows_root fm) (error_text (fs_root st)) @
     [Button (fs_isPending st) False Submit [Text (fm_button fm)]] @ map (\<lambda>p. Part p JNull) (fm_footer fm)"

subsection \<open>Logging in with a provider, and the two tabs\<close>

datatype provider = Google | Twitch

fun show_provider :: "provider \<Rightarrow> string" where
  "show_provider Google = ''google''"
| "show_provider Twitch = ''twitch''"

text \<open>The handler, with the provider that is loading afterwards; a failure of any kind ends in a
  message. \<open>toString\<close> converts a value that is not a string.\<close>

definition provider_click :: "('d jv \<Rightarrow> string) \<Rightarrow> 'd fetch \<Rightarrow> string \<Rightarrow> provider \<Rightarrow> provider option \<times> 'd effect list" where
  "provider_click toString fetch base p =
     (let failed = (None, [Toast ''Failed to authenticate'' False])
      in case fetch (included (get_request (base @ ''/auth/provider/'' @ show_provider p))) of
           None \<Rightarrow> failed
         | Some r \<Rightarrow>
             if \<not> ok r then failed
             else case resp_body r of
               None \<Rightarrow> failed
             | Some v \<Rightarrow> if v = JNull \<or> v = JUndef then failed
                 else (Some p, [ReplaceLocation (case obj_get ''url'' v of JStr u \<Rightarrow> u | w \<Rightarrow> toString w)]))"

definition AuthModal :: "bool \<Rightarrow> ('d, bool) widget list" where
  "AuthModal activeRegister =
     [Press False True [Text ''Sign Up''], Press False False [Text ''Login''],
      Part (if activeRegister then ''Register'' else ''Login'') JNull]"

subsection \<open>Sessions\<close>

record user_session =
  se_id :: string
  se_lastUsedAt :: int
  se_os :: "string option"
  se_browser :: "string option"
  se_ip :: "string option"
  se_country :: "string option"
  se_city :: "string option"
  se_active :: bool
  se_current :: bool

definition pair_text :: "string option \<Rightarrow> string option \<Rightarrow> string" where
  "pair_text a b =
     (case (a, b) of
        (Some x, Some y) \<Rightarrow> if x \<noteq> [] \<and> y \<noteq> [] then x @ '' ('' @ y @ '')'' else ''-''
      | _ \<Rightarrow> ''-'')"

datatype security_event = OpenPassword | Revoke string | ShowInactive bool

definition SessionDisplay :: "int \<Rightarrow> user_session \<Rightarrow> ('d, security_event) widget list" where
  "SessionDisplay now s =
     [Text (pair_text (se_browser s) (se_os s)), Text (pair_text (se_city s) (se_country s)),
      Text (case se_ip s of None \<Rightarrow> ''-'' | Some i \<Rightarrow> i),
      Text (if se_current s then ''Online'' else timeSince now (se_lastUsedAt s)),
      (if se_current s then Text ''Current''
       else if se_active s then Press False (Revoke (se_id s)) [Text ''Revoke Session''] else Text ''Logged out'')]"

definition session_rows :: "int \<Rightarrow> user_session list option \<Rightarrow> ('d, security_event) widget list" where
  "session_rows now data =
     (case data of
        None \<Rightarrow> []
      | Some ss \<Rightarrow> concat (map (SessionDisplay now) (filter se_active ss @ filter (\<lambda>s. \<not> se_active s) ss)))"

definition revoked :: "'d effect list" where
  "revoked = [Invalidate [KStr ''user'', KStr ''sessions'']]"

definition revoke_failed :: "'d effect list" where
  "revoke_failed = [Toast ''Error revoking session'' False]"

fun security_step :: "bool \<Rightarrow> security_event \<Rightarrow> bool \<Rightarrow> bool \<times> 'd effect list" where
  "security_step hasPassword OpenPassword showInactive =
     (showInactive, [OpenModal (if hasPassword then ModalChangePassword else ModalSetPassword) []])"
| "security_step hasPassword (Revoke i) showInactive = (showInactive, [Mutate RevokeSession (JStr i)])"
| "security_step hasPassword (ShowInactive b) showInactive = (b, [])"

definition capitalise :: "string \<Rightarrow> string" where
  "capitalise s = (case s of [] \<Rightarrow> [] | c # cs \<Rightarrow> (if 97 \<le> (of_char c :: nat) \<and> (of_char c :: nat) \<le> 122 then char_of (of_char c - 32 :: nat) else c) # cs)"

definition SecurityPage ::
    "int \<Rightarrow> (string option \<times> bool) option \<Rightarrow> bool \<Rightarrow> user_session list option \<Rightarrow> ('d, security_event) widget list" where
  "SecurityPage now user showInactive data =
     (let providerId = Option.bind user fst; hasPassword = (case user of None \<Rightarrow> False | Some u \<Rightarrow> snd u)
      in shown (providerId \<noteq> Some ''credentials'')
           [Text ''Linked Account'', Text (case providerId of None \<Rightarrow> [] | Some p \<Rightarrow> capitalise p), Text ''Linked''] @
         [Text ''Password'', Press False OpenPassword [Text (if hasPassword then ''Change'' else ''Set''), Text '' Password''],
          Text ''Sessions'', Part ''MenuVertical'' (JStr (if showInactive then ''all'' else ''active'')),
          Text ''Broswer'', Text ''Near'', Text ''IP Address'', Text ''Last Used'', Text ''Action''] @
         session_rows now data)"

subsection \<open>Preferences\<close>

record preferences =
  pf_hidden :: bool
  pf_receiveMarketingEmails :: bool

datatype pref_change = Hidden bool | Marketing bool

fun pref_apply :: "pref_change \<Rightarrow> preferences \<Rightarrow> preferences" where
  "pref_apply (Hidden b) p = p\<lparr>pf_hidden := b\<rparr>"
| "pref_apply (Marketing b) p = p\<lparr>pf_receiveMarketingEmails := b\<rparr>"

fun pref_payload :: "pref_change \<Rightarrow> 'd jv" where
  "pref_payload (Hidden b) = JObj [(''hidden'', JBool b)]"
| "pref_payload (Marketing b) = JObj [(''receiveMarketingEmails'', JBool b)]"

text \<open>A switch: the cached preferences change at once, and the cache is refreshed when the server has answered.\<close>

definition pref_toggle :: "pref_change \<Rightarrow> preferences \<Rightarrow> preferences \<times> 'd effect list" where
  "pref_toggle ch p = (pref_apply ch p, [Mutate UpdatePreferences (pref_payload ch)])"

definition pref_succeeded :: "'d effect list" where
  "pref_succeeded =
     [Toast ''Preferences updated'' True, Invalidate [KStr ''user'', KStr ''preferences''],
      Invalidate [KStr ''user'', KStr ''preferences'']]"

definition pref_failed :: "'d effect list" where
  "pref_failed = [Toast ''Failed to update preferences'' False, Invalidate [KStr ''user'', KStr ''preferences'']]"

definition PreferencesPage :: "preferences option \<Rightarrow> bool \<Rightarrow> bool \<Rightarrow> ('d, pref_change) widget list" where
  "PreferencesPage prefs isPending mutationPending =
     [Text ''Preferences''] @
     (case (isPending, prefs) of
        (False, Some p) \<Rightarrow>
          [Text ''Odds Format'', Text ''Odds will be displayed using this format.'', Part ''MenuVertical'' JNull,
           Press mutationPending (Hidden (\<not> pf_hidden p)) [],
           Text ''Hidden Mode'', Text ''Other users won't be able to see your wagers.'',
           Press mutationPending (Marketing (\<not> pf_receiveMarketingEmails p)) [],
           Text ''Receive Marketting Emails'', Text ''Receive emails for promotions and updates.'']
      | _ \<Rightarrow> [Loader])"

subsection \<open>Validated values validate again\<close>

context zod
begin

lemma string_again:
  "safeParse (ZString cs) v = Inr r \<Longrightarrow> Trim \<notin> set cs \<Longrightarrow> safeParse (ZString cs) r = Inr r"
  by (auto simp: string_ok apply_trim_def)

text \<open>A selection of the fields of a validated object validates, with the same values and no others.\<close>

lemma object_selection:
  assumes r: "safeParse (ZObject fs) v = Inr r" and "distinct (map fst fs)"
    and gs: "set gs \<subseteq> set fs" "distinct (map fst gs)"
    and again: "\<And>k s u w. (k, s) \<in> set gs \<Longrightarrow> safeParse s u = Inr w \<Longrightarrow> safeParse s w = Inr w"
  shows "\<exists>p. safeParse (ZObject gs) r = Inr p \<and> (\<forall>k. obj_get k p = (if k \<in> fst ` set gs then obj_get k r else JUndef))"
proof -
  let ?xs = "map (\<lambda>(k, s). obj_get k r) gs"
  obtain ys where "r = parsed_fields fs ys" using r by (auto simp: object_ok)
  then obtain kvs where kvs: "r = JObj kvs" by (simp add: parsed_fields_def)
  have "safeParse s (obj_get k r) = Inr (obj_get k r)" if "(k, s) \<in> set gs" for k s
    using field_ok [OF r assms(2), of k s] gs(1) that again by blast
  then have "list_all2 (\<lambda>(k, s) x. safeParse s (obj_get k r) = Inr x) gs ?xs"
    by (fastforce simp: list_all2_conv_all_nth split: prod.splits dest: nth_mem)
  then have "safeParse (ZObject gs) r = Inr (parsed_fields gs ?xs)"
    unfolding object_ok using kvs by blast
  moreover have "obj_get k (parsed_fields gs ?xs) = (if k \<in> fst ` set gs then obj_get k r else JUndef)" for k
  proof (cases "k \<in> fst ` set gs")
    case True
    then obtain i where i: "i < length gs" "fst (gs ! i) = k" by (auto simp: in_set_conv_nth image_iff)
    then show ?thesis using fields_get [OF gs(2), of ?xs i] True by (simp add: split_beta)
  qed (simp add: absent_get)
  ultimately show ?thesis by blast
qed

lemma change_payload:
  assumes "safeParse ChangePasswordSchema v = Inr r"
  shows "\<exists>p. safeParse ChangePasswordPayloadSchema r = Inr p \<and>
    (\<forall>k. obj_get k p = (if k \<in> {''currentPassword'', ''newPassword''} then obj_get k r else JUndef))"
proof -
  let ?gs = "filter (\<lambda>(k, s). k \<noteq> ''confirmNewPassword'') (change_fields :: (string \<times> 'd schema) list)"
  have r: "safeParse (ZObject change_fields) v = Inr r" using assms by (simp add: ChangePasswordSchema_def refine_ok)
  have str: "\<exists>cs. s = ZString cs \<and> Trim \<notin> set cs" if "(k, s) \<in> set ?gs" for k s
    using that by (auto simp: change_fields_def)
  have "\<exists>p. safeParse (ZObject ?gs) r = Inr p \<and> (\<forall>k. obj_get k p = (if k \<in> fst ` set ?gs then obj_get k r else JUndef))"
  proof (rule object_selection [OF r])
    show "safeParse s w = Inr w" if "(k, s) \<in> set ?gs" "safeParse s u = Inr w" for k s u w
      using str [OF that(1)] string_again that(2) by blast
  qed (auto simp: change_fields_def)
  moreover have "fst ` set ?gs = {''currentPassword'', ''newPassword''}" by (auto simp: change_fields_def)
  ultimately show ?thesis by (simp add: ChangePasswordPayloadSchema_def)
qed

lemma set_payload:
  assumes "safeParse SetPasswordSchema v = Inr r"
  shows "\<exists>p. safeParse SetPasswordPayloadSchema r = Inr p \<and>
    (\<forall>k. obj_get k p = (if k = ''password'' then obj_get k r else JUndef))"
proof -
  let ?gs = "filter (\<lambda>(k, s). k \<noteq> ''confirmPassword'') (set_fields :: (string \<times> 'd schema) list)"
  have r: "safeParse (ZObject set_fields) v = Inr r" using assms by (simp add: SetPasswordSchema_def refine_ok)
  have str: "\<exists>cs. s = ZString cs \<and> Trim \<notin> set cs" if "(k, s) \<in> set ?gs" for k s
    using that by (auto simp: set_fields_def passwordSchema_def)
  have "\<exists>p. safeParse (ZObject ?gs) r = Inr p \<and> (\<forall>k. obj_get k p = (if k \<in> fst ` set ?gs then obj_get k r else JUndef))"
  proof (rule object_selection [OF r])
    show "safeParse s w = Inr w" if "(k, s) \<in> set ?gs" "safeParse s u = Inr w" for k s u w
      using str [OF that(1)] string_again that(2) by blast
  qed (auto simp: set_fields_def)
  moreover have "fst ` set ?gs = {''password''}" by (auto simp: set_fields_def)
  ultimately show ?thesis by (simp add: SetPasswordPayloadSchema_def)
qed

end

subsection \<open>Errors of the server\<close>

definition last_message :: "string \<Rightarrow> 'd jv list \<Rightarrow> 'd jv option" where
  "last_message k es = map_option (obj_get ''message'') (find (\<lambda>e. obj_get ''field'' e = JStr k) (rev es))"

lemma find_append: "find P (xs @ ys) = (case find P xs of None \<Rightarrow> find P ys | Some x \<Rightarrow> Some x)"
  by (induction xs) auto

lemma last_message_Cons:
  "last_message k (e # es) =
     (case last_message k es of
        Some m \<Rightarrow> Some m
      | None \<Rightarrow> if obj_get ''field'' e = JStr k then Some (obj_get ''message'' e) else None)"
  by (simp add: last_message_def find_append split: option.split)

lemma field_errors_last:
  assumes "list_all (\<lambda>e. e \<noteq> JNull \<and> e \<noteq> JUndef) es"
  shows "field_errors shape es errs =
    Inr (\<lambda>k. case last_message k es of Some m \<Rightarrow> if k \<in> set shape then Some m else errs k | None \<Rightarrow> errs k)"
  using assms
proof (induction es arbitrary: errs)
  case Nil
  show ?case by (simp add: last_message_def)
next
  case (Cons e es)
  have IH: "field_errors shape es errs' =
      Inr (\<lambda>k. case last_message k es of Some m \<Rightarrow> if k \<in> set shape then Some m else errs' k | None \<Rightarrow> errs' k)" for errs'
    using Cons by simp
  show ?case
    using Cons.prems
    by (cases "obj_get ''field'' e") (auto simp: IH last_message_Cons fun_eq_iff split: option.splits)
qed

subsection \<open>Properties\<close>

definition account_forms :: "'d form list" where
  "account_forms = [login_form, register_form, completion_form, change_form, set_form]"

definition confirmations :: "string set" where
  "confirmations = {''confirmNewPassword'', ''confirmPassword''}"

lemma form_shape: "fm \<in> set account_forms \<Longrightarrow> set (fm_shape fm) = fst ` set (fm_fields fm)"
  by (auto simp: account_forms_def login_form_def register_form_def completion_form_def change_form_def set_form_def
      change_fields_def set_fields_def)

lemma payload_selection:
  assumes "\<forall>k. obj_get k p = (if k \<in> C then obj_get k r else JUndef)" and "\<And>k. k \<notin> C \<union> confirmations \<Longrightarrow> obj_get k r = JUndef"
    and "C \<inter> confirmations = {}"
  shows "\<forall>k. obj_get k p = (if k \<in> confirmations then JUndef else obj_get k r)"
  using assms by fastforce

context zod
begin

lemma absent_field: "safeParse (ZObject fs) v = Inr r \<Longrightarrow> k \<notin> fst ` set fs \<Longrightarrow> obj_get k r = JUndef"
  by (auto simp: object_ok absent_get)

lemma plain_payload:
  assumes "fm_payload fm = (\<lambda>parse data. Inr data)" and "fm_schema fm = ZObject fs" and "fst ` set fs \<inter> confirmations = {}"
    and "safeParse (fm_schema fm) v = Inr r"
  shows "\<exists>p. fm_payload fm safeParse r = Inr p \<and> (\<forall>k. obj_get k p = (if k \<in> confirmations then JUndef else obj_get k r))"
  using absent_field [OF assms(4) [unfolded assms(2)]] assms(1,3) by auto

lemma payload_ok:
  assumes "fm \<in> set account_forms" and r: "safeParse (fm_schema fm) v = Inr r"
  shows "\<exists>p. fm_payload fm safeParse r = Inr p \<and> (\<forall>k. obj_get k p = (if k \<in> confirmations then JUndef else obj_get k r))"
proof -
  from assms(1) consider "fm = login_form" | "fm = register_form" | "fm = completion_form" | "fm = change_form" | "fm = set_form"
    by (auto simp: account_forms_def)
  then show ?thesis
  proof cases
    case 1
    with r show ?thesis
      by (intro plain_payload) (auto simp: login_form_def LoginSchema_def confirmations_def)
  next
    case 2
    with r show ?thesis
      by (intro plain_payload) (auto simp: register_form_def RegisterSchema_def confirmations_def)
  next
    case 3
    with r show ?thesis
      by (intro plain_payload) (auto simp: completion_form_def ProfileCompletionSchema_def confirmations_def)
  next
    case 4
    with r have c: "safeParse ChangePasswordSchema v = Inr r" by (simp add: change_form_def)
    obtain p where p: "safeParse ChangePasswordPayloadSchema r = Inr p"
      "\<forall>k. obj_get k p = (if k \<in> {''currentPassword'', ''newPassword''} then obj_get k r else JUndef)"
      using change_payload [OF c] by blast
    have o: "safeParse (ZObject change_fields) v = Inr r" using c by (simp add: ChangePasswordSchema_def refine_ok)
    have "fst ` set (change_fields :: (string \<times> 'd schema) list) \<subseteq> {''currentPassword'', ''newPassword''} \<union> confirmations"
      by (simp add: change_fields_def confirmations_def)
    then have "obj_get k r = JUndef" if "k \<notin> {''currentPassword'', ''newPassword''} \<union> confirmations" for k
      using absent_field [OF o] that by blast
    from payload_selection [OF p(2) this] p(1) 4 show ?thesis by (simp add: change_form_def confirmations_def)
  next
    case 5
    with r have c: "safeParse SetPasswordSchema v = Inr r" by (simp add: set_form_def)
    obtain p where p: "safeParse SetPasswordPayloadSchema r = Inr p"
      "\<forall>k. obj_get k p = (if k \<in> {''password''} then obj_get k r else JUndef)"
      using set_payload [OF c] by auto
    have o: "safeParse (ZObject set_fields) v = Inr r" using c by (simp add: SetPasswordSchema_def refine_ok)
    have "fst ` set (set_fields :: (string \<times> 'd schema) list) \<subseteq> {''password''} \<union> confirmations"
      by (simp add: set_fields_def confirmations_def)
    then have "obj_get k r = JUndef" if "k \<notin> {''password''} \<union> confirmations" for k
      using absent_field [OF o] that by blast
    from payload_selection [OF p(2) this] p(1) 5 show ?thesis by (simp add: set_form_def confirmations_def)
  qed
qed

end



end
