(* ===== verification/MarketViews.thy ===== *)
theory MarketViews
  imports View
begin

section \<open>The card and the page of a market\<close>

text \<open>
  \<^verbatim>\<open>src/frontend/seer/src/ui/markets/home/MarketCard.tsx\<close> and
  \<^verbatim>\<open>src/frontend/seer/src/app/(main)/market/[id]/page.tsx\<close>: what they show of a market, which buttons
  they offer and what a press does. Both open the bet form. The time of a render or of a press is the argument
  \<open>now\<close>; the texts the engine makes of a date are the fields of a record.
\<close>

subsection \<open>Definitions\<close>

datatype market_event =
    OpenMarket
  | Pick int bet_side
  | CopyLink
  | Idle

definition open_bet :: "'d market_view \<Rightarrow> int \<Rightarrow> bet_side \<Rightarrow> 'd effect list" where
  "open_bet m i side =
     [OpenModal ModalBet
        [(''marketId'', JStr (m_id m)), (''initialOutcomeId'', jint i), (''initialSide'', JStr (show_side side))]]"

subsubsection \<open>The card\<close>

text \<open>On mount and on every connection of the socket the card asks for the state of its market.\<close>

definition card_subscribe :: "'d market_view \<Rightarrow> 'd effect list" where
  "card_subscribe m = [Emit ''get:market_state'' [(''marketID'', JStr (m_id m))]]"

text \<open>The comparator: whether its first argument has to come after the second one.\<close>

definition outcome_after :: "'d dlib \<Rightarrow> outcome_sort \<Rightarrow> 'd outcome \<Rightarrow> 'd outcome \<Rightarrow> bool" where
  "outcome_after D srt a b =
     (case srt of
        SortPrice \<Rightarrow> js_lt (Fin 0) (toNumber D (dMinus D decimal_conf (priceYes b) (priceYes a)))
      | SortPosition \<Rightarrow> 0 < position a - position b)"

definition sortedOutcomes :: "'d dlib \<Rightarrow> 'd market_view \<Rightarrow> 'd outcome list" where
  "sortedOutcomes D m = sort_by (outcome_after D (outcomeSort m)) (outcomes m)"

definition topOutcomes :: "'d dlib \<Rightarrow> 'd market_view \<Rightarrow> 'd outcome list" where
  "topOutcomes D m = slice2 0 2 (sortedOutcomes D m)"

definition winner :: "'d market_view \<Rightarrow> 'd outcome option" where
  "winner m =
     (case resolution m of
        None \<Rightarrow> None
      | Some r \<Rightarrow> find (\<lambda>ob. o_id ob = winningOutcomeId r) (outcomes m))"

definition WinningOutcome :: "'d outcome option \<Rightarrow> ('d, 'e) widget list js" where
  "WinningOutcome winningOutcome =
     (case winningOutcome of None \<Rightarrow> Inl TypeError | Some ob \<Rightarrow> Inr [Text (o_name ob)])"

definition outcome_row :: "oddsFormat \<Rightarrow> 'd outcome \<Rightarrow> ('d, market_event) widget" where
  "outcome_row fmt ob =
     Press False (Pick (o_id ob) SideY)
       [Text (o_name ob), OddsOf (priceYes ob) fmt,
        Press False (Pick (o_id ob) SideY) [Text ''Yes''], Press False (Pick (o_id ob) SideN) [Text ''No''], Text ''/'']"

definition binary_button :: "oddsFormat \<Rightarrow> bool \<Rightarrow> 'd outcome \<Rightarrow> ('d, market_event) widget" where
  "binary_button fmt active ob =
     Press (\<not> active) (Pick (o_id ob) SideY) [Text (o_name ob), OddsOf (priceYes ob) fmt]"

definition binary_buttons :: "oddsFormat \<Rightarrow> bool \<Rightarrow> 'd outcome list \<Rightarrow> ('d, market_event) widget list js" where
  "binary_buttons fmt active obs =
     (case obs of
        a # b # _ \<Rightarrow> Inr [binary_button fmt active a, binary_button fmt active b]
      | _ \<Rightarrow> Inl TypeError)"

definition MarketCard :: "'d dlib \<Rightarrow> int \<Rightarrow> oddsFormat \<Rightarrow> 'd market_view \<Rightarrow> ('d, market_event) widget list js" where
  "MarketCard D now fmt m =
     bindE (if m_status m = Resolved \<and> resolution m \<noteq> None then WinningOutcome (winner m) else Inr []) (\<lambda>won.
     bindE (if isBinary m \<and> m_status m \<noteq> Resolved then binary_buttons fmt (isMarketActive now m) (outcomes m) else Inr []) (\<lambda>both.
       Inr (picture (imgKey m) @ [Press False OpenMarket [Text (m_name m)]] @ won @
            shown (\<not> isBinary m \<and> m_status m \<noteq> Resolved) (map (outcome_row fmt) (topOutcomes D m)) @ both @
            [Amount (totalVolume m), Text ''Vol.''] @ shown (isMarketPending now m) [Text ''Pending''])))"

fun card_click :: "int \<Rightarrow> 'd market_view \<Rightarrow> market_event \<Rightarrow> 'd effect list" where
  "card_click now m OpenMarket = [Navigate (Push (''/market/'' @ m_id m) True)]"
| "card_click now m (Pick i side) = (if isMarketActive now m then open_bet m i side else [])"
| "card_click now m _ = []"

subsubsection \<open>The page\<close>

record date_texts =
  dt_full :: "int \<Rightarrow> string"
  dt_relative :: "int \<Rightarrow> string \<Rightarrow> string"
  dt_short :: "int \<Rightarrow> string"
  dt_day :: "int \<Rightarrow> string"
  dt_time :: "int \<Rightarrow> string"

definition page_header :: "date_texts \<Rightarrow> int \<Rightarrow> 'd market_view \<Rightarrow> ('d, market_event) widget list" where
  "page_header dt now m =
     picture (imgKey m) @ [Text (m_name m), Press False Idle [], Press False Idle [], Press False CopyLink []] @
     [Amount (totalVolume m), Text ''Vol.''] @
     (case closeTime m of
        None \<Rightarrow> []
      | Some t \<Rightarrow> shown (m_status m \<noteq> Resolved) [Text (formatDateTime (dt_full dt) (dt_relative dt) now t)]) @
     (case resolution m of
        None \<Rightarrow> []
      | Some r \<Rightarrow> shown (m_status m = Resolved) [Text (''Resolved on '' @ dt_short dt (res_createdAt r))]) @
     [Part ''PriceCharts'' (JStr (m_id m))]"

definition page_state :: "date_texts \<Rightarrow> int \<Rightarrow> 'd market_view \<Rightarrow> ('d, market_event) widget list" where
  "page_state dt now m =
     (case resolution m of
        None \<Rightarrow> []
      | Some r \<Rightarrow>
          shown (m_status m = Resolved)
            [Text (''Outcome: '' @ (case winner m of None \<Rightarrow> [] | Some ob \<Rightarrow> o_name ob)),
             Text (''Resolved on '' @ dt_day dt (res_createdAt r) @ '' at '' @ dt_time dt (res_createdAt r) @ ''.'')]) @
     shown (isMarketPending now m) [Text ''Pending Resolution'', Text ''This market will soon be resolved.'']"

definition page_buttons :: "oddsFormat \<Rightarrow> 'd market_view \<Rightarrow> 'd outcome \<Rightarrow> ('d, market_event) widget list" where
  "page_buttons fmt m ob =
     (if \<not> isBinary m
      then [Press (m_status m \<noteq> Active) (Pick (o_id ob) SideY) [Text ''Yes'', OddsOf (priceYes ob) fmt],
            Press (m_status m \<noteq> Active) (Pick (o_id ob) SideN) [Text ''No'', OddsOf (priceNo ob) fmt]]
      else [Press (m_status m \<noteq> Active) (Pick (o_id ob) SideY) [OddsOf (priceYes ob) fmt]])"

definition page_mark :: "'d market_view \<Rightarrow> 'd outcome \<Rightarrow> ('d, 'e) widget list" where
  "page_mark m ob =
     shown (m_status m = Resolved)
       [Part (if map_option winningOutcomeId (resolution m) = Some (o_id ob) then ''CheckYes'' else ''CheckNo'') JNull]"

definition page_row :: "oddsFormat \<Rightarrow> 'd market_view \<Rightarrow> 'd outcome \<Rightarrow> ('d, market_event) widget list" where
  "page_row fmt m ob =
     [Text (o_name ob)] @ page_mark m ob @ [OddsOf (priceYesNormalized ob) OddsPercent] @ page_buttons fmt m ob"

definition MarketPage ::
    "date_texts \<Rightarrow> int \<Rightarrow> oddsFormat \<Rightarrow> 'd market_view option \<Rightarrow> bool \<Rightarrow> ('d, market_event) widget list" where
  "MarketPage dt now fmt market user =
     (case market of
        None \<Rightarrow> []
      | Some m \<Rightarrow>
          page_header dt now m @ page_state dt now m @ [Text ''OUTCOME'', Text ''% CHANCE''] @
          concat (map (page_row fmt m) (outcomes m)) @
          shown user [Part ''MarketBetSection'' (JStr (m_id m))] @
          [Text ''Market Rules'', Part ''MarketDescription'' (JStr (m_description m)),
           Text ''Comments'', Part ''CommentSection'' (JStr (m_id m))])"

fun page_click :: "string \<Rightarrow> 'd market_view \<Rightarrow> market_event \<Rightarrow> 'd effect list" where
  "page_click origin m (Pick i side) = (if m_status m \<noteq> Active then [] else open_bet m i side)"
| "page_click origin m CopyLink =
     [CopyText (origin @ ''/market/'' @ m_id m), Toast ''Market link copied to clipboard!'' True]"
| "page_click origin m _ = []"

subsection \<open>The order of the outcomes\<close>

lemma round_sig_neg: "round_sig m n (- x) = - round_sig m n x"
proof -
  have "round_int m (- y) = - round_int m y" for y
    by (auto simp: round_int_def round_mag_def split: rounding.splits)
  then show ?thesis by (simp add: round_sig_def sig_scale_def)
qed

lemma round_sig_pos:
  assumes "0 < n"
  shows "0 < round_sig ROUND_DOWN n x \<longleftrightarrow> 0 < x"
proof (cases x "0 :: real" rule: linorder_cases)
  case less
  with assms round_sig_down_pos(1) [of "- x" n] show ?thesis by (simp add: round_sig_neg)
next
  case equal
  then show ?thesis by (simp add: round_sig_def)
next
  case greater
  with assms round_sig_down_pos(1) [of x n] show ?thesis by simp
qed

lemma round_sig_abs: "\<bar>round_sig ROUND_DOWN n x\<bar> \<le> \<bar>x\<bar>"
  using round_sig_down_nonneg [of x n] round_sig_down_nonneg [of "- x" n]
  by (cases "0 \<le> x") (auto simp: round_sig_neg)

text \<open>The prices of a market are decimals between zero and one, as those the market maker computes are.\<close>

definition priced :: "('d \<Rightarrow> real) \<Rightarrow> ('d \<Rightarrow> bool) \<Rightarrow> 'd market_view \<Rightarrow> bool" where
  "priced val fin m \<longleftrightarrow> list_all (\<lambda>ob. fin (priceYes ob) \<and> 0 \<le> val (priceYes ob) \<and> val (priceYes ob) \<le> 1) (outcomes m)"

definition rank :: "('d \<Rightarrow> real) \<Rightarrow> outcome_sort \<Rightarrow> 'd outcome \<Rightarrow> real" where
  "rank val srt ob = (case srt of SortPrice \<Rightarrow> - val (priceYes ob) | SortPosition \<Rightarrow> of_int (position ob))"

context decimal_js
begin

lemma outcome_after_rank:
  assumes "fin (priceYes a)" "fin (priceYes b)" "\<bar>val (priceYes b) - val (priceYes a)\<bar> \<le> 1"
  shows "outcome_after D srt a b \<longleftrightarrow> rank val srt b < rank val srt a"
proof (cases srt)
  case SortPrice
  let ?d = "dMinus D decimal_conf (priceYes b) (priceYes a)"
  have d: "fin ?d" "val ?d = round_sig ROUND_DOWN 12 (val (priceYes b) - val (priceYes a))"
    using minus [OF assms(2,1), of decimal_conf] by (simp_all add: decimal_conf_def)
  have "\<bar>val ?d\<bar> \<le> 1" using round_sig_abs [of 12] assms(3) d(2) by (metis order_trans)
  then have "\<bar>val ?d\<bar> \<le> 2 ^ 64" by simp
  then obtain x where "toNumber D ?d = Fin x" "sgn x = sgn (val ?d)" using toNumber [OF d(1)] by blast
  moreover have "0 < val ?d \<longleftrightarrow> val (priceYes a) < val (priceYes b)" by (simp add: d(2) round_sig_pos)
  ultimately have "js_lt (Fin 0) (toNumber D ?d) \<longleftrightarrow> val (priceYes a) < val (priceYes b)"
    by (metis js_lt.simps(1) sgn_greater)
  with SortPrice show ?thesis by (simp add: outcome_after_def rank_def)
qed (simp add: outcome_after_def rank_def)

lemma sortedOutcomes_sorted:
  assumes "priced val fin m"
  shows "sorted_wrt (\<lambda>a b. rank val (outcomeSort m) a \<le> rank val (outcomeSort m) b) (sortedOutcomes D m)"
  unfolding sortedOutcomes_def
proof (rule sort_by_sorted)
  fix a b assume "a \<in> set (outcomes m)" "b \<in> set (outcomes m)"
  with assms have "fin (priceYes a)" "fin (priceYes b)" "\<bar>val (priceYes b) - val (priceYes a)\<bar> \<le> 1"
    by (auto simp: priced_def list_all_iff abs_le_iff)
      (smt (verit))+
  then show "outcome_after D (outcomeSort m) a b = (rank val (outcomeSort m) b < rank val (outcomeSort m) a)"
    by (rule outcome_after_rank)
qed

end

subsection \<open>The buttons\<close>

lemma WinningOutcome_presses: "WinningOutcome w = Inr ws \<Longrightarrow> presses ws = []"
  by (auto simp: WinningOutcome_def split: option.splits)

lemma row_presses: "presses (map (outcome_row fmt) obs) =
    concat (map (\<lambda>ob. [Pick (o_id ob) SideY, Pick (o_id ob) SideY, Pick (o_id ob) SideN]) obs)"
  by (induction obs) (simp_all add: outcome_row_def)

lemma page_header_picks: "Pick i side \<notin> set (presses (page_header dt now m @ page_state dt now m))"
  by (auto simp: page_header_def page_state_def shown_def split: option.splits)

lemma page_row_presses: "presses (page_row fmt m ob) = presses (page_buttons fmt m ob)"
  by (simp add: page_row_def page_mark_def shown_def)

lemma presses_concat: "set (presses (concat wss)) = (\<Union>ws\<in>set wss. set (presses ws))"
  by (induction wss) simp_all

lemma page_buttons_presses:
  "set (presses (page_buttons fmt m ob)) =
     (if m_status m = Active then {Pick (o_id ob) SideY} \<union> (if isBinary m then {} else {Pick (o_id ob) SideN}) else {})"
  by (auto simp: page_buttons_def)

subsection \<open>Properties\<close>


definition demo_three :: "real market_view" where
  "demo_three = (demo_market [1, 2, 3])\<lparr>isBinary := False, outcomeSort := SortPosition\<rparr>"


text \<open>
  C28. The page of a market offers every outcome, both sides of it unless the market is binary, as long as the
  status of the market is active, and a press opens the bet form. It does not look at the closing time: in a
  market past it whose status is still active the page opens the bet form where the card does nothing.
\<close>

theorem page_offers:
  "(Pick i side \<in> set (presses (MarketPage dt now fmt (Some m) user)) \<longleftrightarrow>
      m_status m = Active \<and> i \<in> o_id ` set (outcomes m) \<and> (isBinary m \<longrightarrow> side = SideY)) \<and>
   page_click origin m (Pick i side) = (if m_status m = Active then open_bet m i side else []) \<and>
   (closeTime m = Some t \<and> t \<le> now \<longrightarrow> card_click now m (Pick i side) = [])"
proof (intro conjI)
  have "Pick i side \<in> set (presses (MarketPage dt now fmt (Some m) user)) \<longleftrightarrow>
      (\<exists>ob\<in>set (outcomes m). Pick i side \<in> set (presses (page_buttons fmt m ob)))"
    using page_header_picks [of i side dt now m]
    by (simp add: MarketPage_def shown_def presses_concat page_row_presses)
  also have "\<dots> \<longleftrightarrow> m_status m = Active \<and> i \<in> o_id ` set (outcomes m) \<and> (isBinary m \<longrightarrow> side = SideY)"
    by (cases side) (auto simp: page_buttons_presses)
  finally show "Pick i side \<in> set (presses (MarketPage dt now fmt (Some m) user)) \<longleftrightarrow>
      m_status m = Active \<and> i \<in> o_id ` set (outcomes m) \<and> (isBinary m \<longrightarrow> side = SideY)" .
qed (simp_all add: isMarketActive_def)

definition demo_dates :: date_texts where
  "demo_dates = \<lparr>dt_full = show_int, dt_relative = (\<lambda>n u. show_int n @ u), dt_short = show_int, dt_day = show_int,
     dt_time = show_int\<rparr>"

theorem page_offers_witness:
  "let m = (demo_market [1, 2])\<lparr>closeTime := Some 5\<rparr> in
     Pick 0 SideY \<in> set (presses (MarketPage demo_dates 7 OddsDecimal (Some m) False)) \<and>
     page_click [] m (Pick 0 SideY) = open_bet m 0 SideY \<and> card_click 7 m (Pick 0 SideY) = []"
proof -
  let ?m = "(demo_market [1, 2])\<lparr>closeTime := Some 5\<rparr>"
  have m: "m_status ?m = Active" "0 \<in> o_id ` set (outcomes ?m)" "closeTime ?m = Some 5"
    by (simp_all add: demo_market_def demo_outcome_def upt_rec)
  with page_offers [of 0 SideY demo_dates 7 OddsDecimal ?m False "[]" 5] show ?thesis by (simp add: Let_def)
qed

end
