(* ===== verification/Browse.thy ===== *)
theory Browse
  imports View
begin

section \<open>Finding markets and bets\<close>

text \<open>
  The pages that list markets and bets and the search field: \<^verbatim>\<open>src/frontend/seer/src/ui/SearchBar.tsx\<close>,
  \<^verbatim>\<open>app/(main)/search\<close>, \<^verbatim>\<open>app/(main)/(markets)\<close>, \<^verbatim>\<open>app/(main)/mybets/page.tsx\<close>,
  \<^verbatim>\<open>ui/markets/home/MarketsDisplay.tsx\<close> and \<^verbatim>\<open>lib/queries/useBetsQuery.ts\<close>. The two market pages check the
  parameters of the address and validate a search; the lists load their pages one after the other. The
  package behind the lists is used as documented: the first page has the initial parameter, the next one the
  parameter computed from the last page that was loaded, and there is none when that is undefined.
\<close>

subsection \<open>The search field\<close>

record search_bar =
  sb_inputValue :: string
  sb_open :: bool
  sb_query :: string
  sb_debounced :: "string option"

definition search_bar_init :: search_bar where
  "search_bar_init = \<lparr>sb_inputValue = [], sb_open = False, sb_query = [], sb_debounced = None\<rparr>"

text \<open>The events: typing, 300 ms without typing, a search, focus, a press outside or Escape, and clearing.\<close>

datatype search_event = SbType string | SbElapsed | SbSearch | SbFocus | SbOutside | SbClear

fun search_step :: "string \<Rightarrow> params \<Rightarrow> search_event \<Rightarrow> search_bar \<Rightarrow> search_bar \<times> 'd effect list" where
  "search_step pathname sp (SbType v) st = (st\<lparr>sb_inputValue := v, sb_debounced := Some v\<rparr>, [])"
| "search_step pathname sp SbElapsed st =
     (case sb_debounced st of
        None \<Rightarrow> (st, []) | Some v \<Rightarrow> (st\<lparr>sb_query := v, sb_debounced := None\<rparr>, []))"
| "search_step pathname sp SbSearch st =
     (st\<lparr>sb_open := False\<rparr>,
      [Navigate (setParams pathname sp [(''q'', UStr (sb_inputValue st))]
         \<lparr>opt_replace = True, opt_scroll = None, newPathname = Some ''/search'', overwriteCurrent = True\<rparr>), Blur])"
| "search_step pathname sp SbFocus st = (st\<lparr>sb_open := True\<rparr>, [])"
| "search_step pathname sp SbOutside st = (st\<lparr>sb_open := False\<rparr>, [])"
| "search_step pathname sp SbClear st = (st\<lparr>sb_inputValue := [], sb_query := []\<rparr>, [])"

text \<open>The search behind the suggestions, which is only made when the query has three characters.\<close>

definition bar_search :: "search_bar \<Rightarrow> market_search option" where
  "bar_search st =
     (if 3 \<le> length (sb_query st)
      then Some \<lparr>ms_query = Some (sb_query st), ms_categorySlug = None, ms_status = None, ms_sort = Trending,
                 ms_pageSize = 5, ms_page = 1\<rparr>
      else None)"

text \<open>
  The operator \<^verbatim>\<open>>\<close> on two \<^verbatim>\<open>Decimal\<close>s compares the strings that \<^verbatim>\<open>valueOf\<close> makes of them, by the
  codes of their characters.
\<close>

fun string_less :: "string \<Rightarrow> string \<Rightarrow> bool" where
  "string_less s [] = False"
| "string_less [] (d # ds) = True"
| "string_less (c # cs) (d # ds) =
     ((of_char c :: nat) < of_char d \<or> c = d \<and> string_less cs ds)"

definition topOutcome :: "('d \<Rightarrow> string) \<Rightarrow> 'd market_view \<Rightarrow> 'd outcome js" where
  "topOutcome valueOf m =
     reduce1 (\<lambda>o1 o2. if string_less (valueOf (priceYes o2)) (valueOf (priceYes o1)) then o1 else o2) (outcomes m)"

datatype bar_press = PressSearch | PressClear | PressMarket string | BarInput string

definition SearchResultMarket :: "('d \<Rightarrow> string) \<Rightarrow> oddsFormat \<Rightarrow> 'd market_view \<Rightarrow> ('d, bar_press) widget js" where
  "SearchResultMarket valueOf fmt m =
     bindE (topOutcome valueOf m) (\<lambda>ob.
       Inr (Press False (PressMarket (m_id m))
         (picture (imgKey m) @ [Text (m_name m), OddsOf (priceYes ob) fmt, Text (o_name ob)])))"

fun all_ok :: "('e + 'a) list \<Rightarrow> 'e + 'a list" where
  "all_ok [] = Inr []"
| "all_ok (r # rs) = bindE r (\<lambda>x. bindE (all_ok rs) (\<lambda>xs. Inr (x # xs)))"

definition SearchBar ::
    "('d \<Rightarrow> string) \<Rightarrow> oddsFormat \<Rightarrow> 'd market_view list option \<Rightarrow> search_bar \<Rightarrow> ('d, bar_press) widget list js" where
  "SearchBar valueOf fmt markets st =
     bindE (case markets of
              None \<Rightarrow> Inr []
            | Some ms \<Rightarrow> if ms \<noteq> [] \<and> sb_open st then all_ok (map (SearchResultMarket valueOf fmt) ms) else Inr []) (\<lambda>results.
       Inr ([Press False PressSearch [], Field ''Search for markets'' 50 BarInput] @
            shown (sb_inputValue st \<noteq> []) [Press False PressClear []] @ results))"

subsection \<open>The market pages\<close>

record page_params =
  sp_q :: "string option"
  sp_category :: "string option"
  sp_sort :: "string option"
  sp_status :: "string option"

datatype 'd page_result =
    Redirect string
  | Blank
  | Markets "'d jv" "'d jv option"

definition js_opt :: "string option \<Rightarrow> 'd jv" where
  "js_opt s = (case s of None \<Rightarrow> JUndef | Some t \<Rightarrow> JStr t)"

definition empty_or :: "(string \<Rightarrow> bool) \<Rightarrow> string option \<Rightarrow> bool" where
  "empty_or P s = (case s of None \<Rightarrow> True | Some t \<Rightarrow> t = [] \<or> P t)"

definition find_category :: "'d jv \<Rightarrow> 'd jv \<Rightarrow> 'd jv option" where
  "find_category cats slug = (case cats of JArr cs \<Rightarrow> find (\<lambda>c. obj_get ''slug'' c = slug) cs | _ \<Rightarrow> None)"

definition options_valid :: "page_params \<Rightarrow> bool" where
  "options_valid sp \<longleftrightarrow>
     empty_or (\<lambda>s. s \<in> set (map fst sortOptions)) (sp_sort sp) \<and> empty_or (\<lambda>s. s \<in> set (map fst statusOptions)) (sp_status sp)"

definition SearchPage ::
    "'d fetch \<Rightarrow> string \<Rightarrow> ('d schema \<Rightarrow> 'd jv \<Rightarrow> 'd zresult) \<Rightarrow> page_params \<Rightarrow> 'd api_error + 'd page_result" where
  "SearchPage fetch base safeParse sp =
     bindE (getFeaturedCategories fetch base safeParse) (\<lambda>cats.
       if \<not> empty_or (\<lambda>s. find_category cats (JStr s) \<noteq> None) (sp_category sp) \<or> \<not> options_valid sp then Inr (Redirect ''/'')
       else Inr (case safeParse MarketSearchSchema
                        (JObj [(''query'', js_opt (sp_q sp)), (''categorySlug'', js_opt (sp_category sp)),
                               (''sort'', js_opt (sp_sort sp)), (''status'', js_opt (sp_status sp)),
                               (''pageSize'', jint 6), (''page'', jint 1)]) of
                   Inl is \<Rightarrow> Blank
                 | Inr search \<Rightarrow> Markets search None))"

definition HomePage ::
    "'d fetch \<Rightarrow> string \<Rightarrow> ('d schema \<Rightarrow> 'd jv \<Rightarrow> 'd zresult) \<Rightarrow> page_params \<Rightarrow> 'd api_error + 'd page_result" where
  "HomePage fetch base safeParse sp =
     bindE (getFeaturedCategories fetch base safeParse) (\<lambda>cats.
     bindE (case (sp_category sp, cats) of
              (Some s, _) \<Rightarrow> Inr (JStr s)
            | (None, JArr (c # _)) \<Rightarrow> Inr (obj_get ''slug'' c)
            | _ \<Rightarrow> Inl (Raised TypeError)) (\<lambda>slug.
       case find_category cats slug of
         None \<Rightarrow> Inr (Redirect ''/'')
       | Some category \<Rightarrow>
           if \<not> options_valid sp then Inr (Redirect ''/'')
           else Inr (case safeParse MarketSearchSchema
                            (JObj [(''categorySlug'', slug), (''sort'', js_opt (sp_sort sp)), (''query'', js_opt (sp_q sp)),
                                   (''status'', js_opt (sp_status sp)), (''pageSize'', jint 8), (''page'', jint 1)]) of
                       Inl is \<Rightarrow> Blank
                     | Inr search \<Rightarrow> Markets search (Some category))))"

subsection \<open>Lists that load page by page\<close>

type_synonym 'a pages = "('a list \<times> metadata) list"

definition next_param :: "'a pages \<Rightarrow> int option" where
  "next_param pages = (if pages = [] then Some 1 else getNextPageParamFromMetadata (snd (last pages)))"

definition fetch_next :: "(int \<Rightarrow> 'e + 'a list \<times> metadata) \<Rightarrow> 'a pages \<Rightarrow> 'e + 'a pages" where
  "fetch_next fetch_page pages =
     (case next_param pages of
        None \<Rightarrow> Inr pages
      | Some p \<Rightarrow> bindE (fetch_page p) (\<lambda>r. Inr (pages @ [r])))"

fun load_pages :: "(int \<Rightarrow> 'e + 'a list \<times> metadata) \<Rightarrow> nat \<Rightarrow> 'a pages \<Rightarrow> 'e + 'a pages" where
  "load_pages fetch_page 0 pages = Inr pages"
| "load_pages fetch_page (Suc n) pages = bindE (fetch_next fetch_page pages) (load_pages fetch_page n)"

definition hasNextPage :: "'a pages \<Rightarrow> bool" where
  "hasNextPage pages \<longleftrightarrow> pages \<noteq> [] \<and> next_param pages \<noteq> None"

definition market_page ::
    "'d fetch \<Rightarrow> string \<Rightarrow> fpu \<Rightarrow> 'd decs \<Rightarrow> ('d schema \<Rightarrow> 'd jv \<Rightarrow> 'd zresult) \<Rightarrow> market_search \<Rightarrow> int \<Rightarrow>
     'd api_error + 'd market_view list \<times> metadata" where
  "market_page fetch base F X safeParse search pageParam = searchMarket fetch base F X safeParse (search\<lparr>ms_page := pageParam\<rparr>)"

definition bets_page ::
    "'d fetch \<Rightarrow> string \<Rightarrow> 'd decs \<Rightarrow> ('d schema \<Rightarrow> 'd jv \<Rightarrow> 'd zresult) \<Rightarrow> bet_search \<Rightarrow> int \<Rightarrow>
     'd api_error + 'd jv" where
  "bets_page fetch base X safeParse search pageParam = getUserBets fetch base X safeParse (search\<lparr>bs_page := pageParam\<rparr>)"

text \<open>The state of a list query that a view reads; data is absent until the first page has arrived.\<close>

record 'a list_query =
  lq_pages :: "'a pages option"
  lq_isLoading :: bool
  lq_isError :: bool
  lq_isFetchingNextPage :: bool

definition lq_items :: "'a list_query \<Rightarrow> 'a list option" where
  "lq_items q = map_option (\<lambda>ps. concat (map fst ps)) (lq_pages q)"

definition lq_hasNext :: "'a list_query \<Rightarrow> bool" where
  "lq_hasNext q = (case lq_pages q of None \<Rightarrow> False | Some ps \<Rightarrow> hasNextPage ps)"

datatype list_event = LoadMore | PickTab bool

definition MarketsDisplay ::
    "'d market_view list option \<Rightarrow> bool \<Rightarrow> bool \<Rightarrow> bool \<Rightarrow> bool \<Rightarrow> ('d, list_event) widget list" where
  "MarketsDisplay markets isLoading isError isFetchingNextPage hasNext =
     shown isLoading [Text ''Loading markets...''] @ shown isError [Text ''Error loading markets''] @
     (case markets of
        None \<Rightarrow> []
      | Some ms \<Rightarrow>
          shown (\<not> isLoading \<and> \<not> isError)
            (if ms = [] then [Text ''No markets found.''] else map (\<lambda>m. Part ''MarketCard'' (JStr (m_id m))) ms)) @
     shown hasNext [Button False False LoadMore [Text (if isFetchingNextPage then ''Loading more...'' else ''Load More'')]]"

definition MarketsHome :: "'d market_view list_query \<Rightarrow> ('d, list_event) widget list" where
  "MarketsHome q =
     Part ''Header'' JNull # MarketsDisplay (lq_items q) (lq_isLoading q) False (lq_isFetchingNextPage q) (lq_hasNext q)"

definition MarketsSearch :: "'d market_view list_query \<Rightarrow> ('d, list_event) widget list" where
  "MarketsSearch q =
     Part ''Header'' (jint (case lq_pages q of Some (p # ps) \<Rightarrow> totalRecords (snd p) | _ \<Rightarrow> 0)) #
     MarketsDisplay (lq_items q) (lq_isLoading q) False (lq_isFetchingNextPage q) (lq_hasNext q)"

subsection \<open>The bets of the user\<close>

definition my_bets_search :: "bool \<Rightarrow> bet_search" where
  "my_bets_search active =
     \<lparr>bs_marketId = None, bs_status = Some (if active then OnlyStatus BetActive else OnlyResolved), bs_pageSize = 5,
      bs_page = 1, bs_sort = (if active then ByPlacedAt else ByEvent), bs_ascending = False\<rparr>"

definition MyBets :: "bool \<Rightarrow> 'd bet list_query \<Rightarrow> ('d, list_event) widget list" where
  "MyBets active q =
     [Text ''My Bets'', Press False (PickTab True) [Text ''Active Bets''], Press False (PickTab False) [Text ''Settled Bets''],
      Text ''MARKET'', Text ''STAKE'', Text ''TO WIN'', Text (if active then ''CASHOUT VALUE'' else ''RESULT'')] @
     shown (lq_isLoading q) [Text ''Loading bets...''] @ shown (lq_isError q) [Text ''Error loading bets''] @
     (case lq_items q of
        None \<Rightarrow> []
      | Some bets \<Rightarrow>
          shown (\<not> lq_isLoading q \<and> \<not> lq_isError q)
            (if bets = [] then [Text ''No bets found.'']
             else map (\<lambda>b. Part ''BetUser'' (JStr (bet_id b))) bets @
                  shown (lq_hasNext q)
                    [Button False (lq_isFetchingNextPage q) LoadMore
                       [Text (if lq_isFetchingNextPage q then ''Loading more...'' else ''Load More'')]]))"

subsection \<open>Validating a search\<close>

definition length_in :: "nat \<Rightarrow> nat \<Rightarrow> string option \<Rightarrow> bool" where
  "length_in lo hi s = (case s of None \<Rightarrow> True | Some t \<Rightarrow> lo \<le> length t \<and> length t \<le> hi)"

lemma js_opt_undef [simp]: "js_opt s = JUndef \<longleftrightarrow> s = None"
  by (simp add: js_opt_def split: option.split)

context zod
begin

lemma optional_length:
  "(\<exists>r. safeParse (ZOptional (ZString [MinLength lo a, MaxLength hi b])) (js_opt s) = Inr r) \<longleftrightarrow> length_in lo hi s"
  by (cases s) (auto simp: optional_ok string_ok js_opt_def length_in_def apply_trim_def)

lemma optional_enum: "(\<exists>r. safeParse (ZOptional (ZEnum vs)) (js_opt s) = Inr r) \<longleftrightarrow> (\<forall>t. s = Some t \<longrightarrow> t \<in> set vs)"
  by (cases s) (auto simp: optional_ok enum_ok js_opt_def)

lemma default_enum: "(\<exists>r. safeParse (ZDefault (ZEnum vs) d) (js_opt s) = Inr r) \<longleftrightarrow> (\<forall>t. s = Some t \<longrightarrow> t \<in> set vs)"
  by (cases s) (auto simp: default_ok enum_ok js_opt_def)

lemma default_number:
  "lo \<le> k \<Longrightarrow> k \<le> hi \<Longrightarrow> safeParse (ZDefault (ZNumber [IntCheck, Minimum lo a, Maximum hi b]) d) (jint k) = Inr (jint k)"
  "lo \<le> k \<Longrightarrow> safeParse (ZDefault (ZNumber [IntCheck, Minimum lo a]) d) (jint k) = Inr (jint k)"
  by (simp_all add: default_ok number_ok jint_def)

lemma market_search_ok:
  assumes v: "v = JObj kvs" and "obj_get ''query'' v = js_opt q" "obj_get ''categorySlug'' v = js_opt c"
    "obj_get ''sort'' v = js_opt srt" "obj_get ''status'' v = js_opt st" "obj_get ''pageSize'' v = jint k" "obj_get ''page'' v = jint 1"
    and k: "3 \<le> k" "k \<le> 20"
  shows "(\<exists>r. safeParse MarketSearchSchema v = Inr r) \<longleftrightarrow>
    length_in 3 50 q \<and> length_in 1 20 c \<and>
    (\<forall>s. st = Some s \<longrightarrow> s \<in> {''active'', ''resolved'', ''pending'', ''paused''}) \<and>
    (\<forall>s. srt = Some s \<longrightarrow> s \<in> {''trending'', ''volume'', ''newest'', ''endingSoon''})"
proof -
  have "(\<exists>r. safeParse MarketSearchSchema v = Inr r) \<longleftrightarrow>
    (\<exists>r. safeParse (ZOptional (ZString [MinLength 3 None, MaxLength 50 None])) (js_opt q) = Inr r) \<and>
    (\<exists>r. safeParse (ZOptional (ZString [MinLength 1 None, MaxLength 20 None])) (js_opt c) = Inr r) \<and>
    (\<exists>r. safeParse (ZOptional MarketStatus) (js_opt st) = Inr r) \<and>
    (\<exists>r. safeParse (ZDefault MarketSort (JStr ''trending'')) (js_opt srt) = Inr r)" (is "_ \<longleftrightarrow> ?rhs")
  proof -
    let ?fs = "[(''query'', ZOptional (ZString [MinLength 3 None, MaxLength 50 None])),
      (''categorySlug'', ZOptional (ZString [MinLength 1 None, MaxLength 20 None])),
      (''status'', ZOptional MarketStatus), (''sort'', ZDefault MarketSort (JStr ''trending'')),
      (''pageSize'', ZDefault (ZNumber [IntCheck, Minimum 3 None, Maximum 20 None]) (jint 20)),
      (''page'', ZDefault (ZNumber [IntCheck, Minimum 1 None]) (jint 1))]"
    have "(\<exists>r. safeParse MarketSearchSchema v = Inr r) \<longleftrightarrow>
      (\<exists>xs. list_all2 (\<lambda>(k, s) x. safeParse s (obj_get k v) = Inr x) ?fs xs)"
      unfolding MarketSearchSchema_def object_ok using v by blast
    also have "\<dots> \<longleftrightarrow> ?rhs"
      unfolding object_Cons object_Nil assms(2-7) default_number(1) [OF k] default_number(2) [OF order_refl] by simp
    finally show ?thesis .
  qed
  then show ?thesis
    by (simp only: optional_length optional_enum default_enum MarketStatus_def MarketSort_def) simp
qed

end

definition known_params :: "'d jv \<Rightarrow> page_params \<Rightarrow> bool" where
  "known_params cats sp \<longleftrightarrow> empty_or (\<lambda>s. find_category cats (JStr s) \<noteq> None) (sp_category sp) \<and> options_valid sp"

definition valid_params :: "page_params \<Rightarrow> bool" where
  "valid_params sp \<longleftrightarrow>
     length_in 3 50 (sp_q sp) \<and> length_in 1 20 (sp_category sp) \<and> sp_sort sp \<noteq> Some [] \<and> sp_status sp \<noteq> Some []"

subsection \<open>Properties\<close>


definition no_categories :: "real fetch" where
  "no_categories req = Some \<lparr>resp_status = 200, resp_body = Some (JArr [])\<rparr>"

lemma no_categories_ok: "getFeaturedCategories no_categories [] (\<lambda>s. zparse s demo_env) = Inr (JArr [])"
  by (simp add: getFeaturedCategories_def checked_def send_def no_categories_def json_def ok_def validated_def CategoriesResponseSchema_def)


subsection \<open>The most likely outcome\<close>

text \<open>The value of the digits after the point.\<close>

fun frac_val :: "string \<Rightarrow> real" where
  "frac_val [] = 0"
| "frac_val (c # cs) = (real (digit_val c) + frac_val cs) / 10"

lemma digit_val_bound: "is_digit c \<Longrightarrow> digit_val c \<le> 9"
  unfolding is_digit_def digit_val_def by linarith

lemma digit_val_code_less:
  "is_digit c \<Longrightarrow> is_digit d \<Longrightarrow> (of_char c :: nat) < of_char d \<Longrightarrow> digit_val c + 1 \<le> digit_val d"
  unfolding is_digit_def digit_val_def by linarith

lemma frac_val_bounds: "digits s \<Longrightarrow> 0 \<le> frac_val s \<and> frac_val s \<le> 1"
proof (induction s)
  case (Cons c s)
  then show ?case using digit_val_bound [of c] by (simp add: digits_def)
qed simp

lemma string_less_frac: "digits s \<Longrightarrow> digits t \<Longrightarrow> string_less s t \<Longrightarrow> frac_val s \<le> frac_val t"
proof (induction s t rule: string_less.induct)
  case (2 d ds)
  then show ?case using frac_val_bounds [of "d # ds"] by simp
next
  case (3 c cs d ds)
  have b: "frac_val cs \<le> 1" "0 \<le> frac_val ds"
    using 3(2,3) frac_val_bounds by (simp_all add: digits_def)
  show ?case
  proof (cases "(of_char c :: nat) < of_char d")
    case True
    with digit_val_code_less [of c d] 3(2,3) have "digit_val c + 1 \<le> digit_val d" by (simp add: digits_def)
    with b show ?thesis by simp
  next
    case False
    with 3 show ?thesis by (simp add: digits_def)
  qed
qed simp

lemma string_less_total: "\<not> string_less s t \<Longrightarrow> s \<noteq> t \<Longrightarrow> string_less t s"
proof (induction t s rule: string_less.induct)
  case (1 s)
  then show ?case by (cases s) auto
next
  case (3 c cs d ds)
  then show ?case by (metis less_linear of_char_eq_iff string_less.simps(3))
qed simp

lemma reduce_max:
  fixes f :: "'a \<Rightarrow> real"
  assumes "\<And>x y. x \<in> S \<Longrightarrow> y \<in> S \<Longrightarrow> g x y \<in> {x, y} \<and> f x \<le> f (g x y) \<and> f y \<le> f (g x y)"
  shows "x \<in> S \<Longrightarrow> set ys \<subseteq> S \<Longrightarrow> foldl g x ys \<in> S \<and> foldl g x ys \<in> set (x # ys) \<and> (\<forall>y\<in>set (x # ys). f y \<le> f (foldl g x ys))"
proof (induction ys arbitrary: x)
  case (Cons y ys)
  have g: "g x y \<in> {x, y}" "f x \<le> f (g x y)" "f y \<le> f (g x y)" using assms [of x y] Cons.prems by auto
  with Cons.IH [of "g x y"] Cons.prems show ?case by fastforce
qed simp

text \<open>
  The suggestion of a market names an outcome with the highest price, as long as all prices are printed as a zero and digits
  after the point; a price that is printed with an exponent can win over a higher one.
\<close>

lemma topOutcome_highest:
  assumes "outcomes m \<noteq> []" and "\<And>ob. ob \<in> set (outcomes m) \<Longrightarrow> \<exists>ds. digits ds \<and> valueOf (priceYes ob) = ''0.'' @ ds"
  shows "\<exists>ob. topOutcome valueOf m = Inr ob \<and> ob \<in> set (outcomes m) \<and>
    (\<forall>b\<in>set (outcomes m). frac_val (drop 2 (valueOf (priceYes b))) \<le> frac_val (drop 2 (valueOf (priceYes ob))))"
proof -
  let ?g = "\<lambda>o1 o2. if string_less (valueOf (priceYes o2)) (valueOf (priceYes o1)) then o1 else o2"
  let ?f = "\<lambda>ob. frac_val (drop 2 (valueOf (priceYes ob)))"
  have "?g x y \<in> {x, y} \<and> ?f x \<le> ?f (?g x y) \<and> ?f y \<le> ?f (?g x y)" if xy: "x \<in> set (outcomes m)" "y \<in> set (outcomes m)" for x y
  proof -
    obtain a b where "digits a" "valueOf (priceYes x) = ''0.'' @ a" "digits b" "valueOf (priceYes y) = ''0.'' @ b"
      using assms(2) xy by metis
    then show ?thesis
      using string_less_frac [of a b] string_less_frac [of b a] string_less_total [of b a] by auto
  qed
  moreover obtain x xs where "outcomes m = x # xs" using assms(1) by (cases "outcomes m") auto
  ultimately show ?thesis
    using reduce_max [of "set (outcomes m)" ?g ?f x xs] by (auto simp: topOutcome_def)
qed

lemma topOutcome_exponent:
  fixes a b :: "'d outcome"
  assumes "outcomes m = [a, b]" "valueOf (priceYes a) = ''1e-8''" "valueOf (priceYes b) = ''0.9''"
  shows "topOutcome valueOf m = Inr a"
  using assms by (simp add: topOutcome_def)

text \<open>Clearing the field does not stop a query that is on its way.\<close>

lemma search_clear_stale:
  "let st = fold (\<lambda>e s. fst (search_step pathname sp e s :: search_bar \<times> unit effect list)) [SbType v, SbClear, SbElapsed] st0
   in sb_inputValue st = [] \<and> sb_query st = v"
  by simp

text \<open>A failed search leaves the page of markets empty: its view is never told.\<close>

lemma markets_error_silent:
  "lq_pages q = None \<Longrightarrow> \<not> lq_isLoading q \<Longrightarrow> MarketsHome q = [Part ''Header'' JNull]"
  by (simp add: MarketsHome_def MarketsDisplay_def lq_items_def lq_hasNext_def shown_def)

subsection \<open>Loading all pages\<close>

lemma load_pages_upto:
  assumes "\<And>p. 1 \<le> p \<Longrightarrow> p \<le> int l \<Longrightarrow> \<exists>md. fetch_page p = Inr (xs p, md) \<and> currentPage md = p \<and> lastPage md = int l"
    and "length pages + n = l" and "map fst pages = map xs [1..int (length pages)]"
    and "pages \<noteq> [] \<Longrightarrow> currentPage (snd (last pages)) = int (length pages) \<and> lastPage (snd (last pages)) = int l"
  shows "k \<le> n \<Longrightarrow> \<exists>ps. load_pages fetch_page k pages = Inr ps \<and> map fst ps = map xs [1..int (length pages + k)] \<and>
    (ps \<noteq> [] \<longrightarrow> currentPage (snd (last ps)) = int (length pages + k) \<and> lastPage (snd (last ps)) = int l)"
  using assms(2-)
proof (induction k arbitrary: pages n)
  case (Suc k)
  let ?p = "int (length pages) + 1"
  have np: "next_param pages = Some ?p"
    using Suc.prems by (auto simp: next_param_def getNextPageParamFromMetadata_def)
  obtain md where md: "fetch_page ?p = Inr (xs ?p, md)" "currentPage md = ?p" "lastPage md = int l"
    using assms(1) [of ?p] Suc.prems(1,2) by auto
  have step: "fetch_next fetch_page pages = Inr (pages @ [(xs ?p, md)])" by (simp add: fetch_next_def np md)
  have up: "[1..int (length pages) + 1] = [1..int (length pages)] @ [int (length pages) + 1]"
    by (simp add: upto_rec2)
  from Suc.IH [of "n - 1" "pages @ [(xs ?p, md)]"] Suc.prems md step up show ?case
    by (simp add: ac_simps)
qed auto

text \<open>
  C25. Loading a list page by page shows the pages of the server in order, each exactly once: after \<open>k\<close> loads
  those from the first to the \<open>k\<close>th, a further page is offered exactly as long as there is one, and loading beyond
  the last page changes nothing.
\<close>

theorem pages_complete:
  assumes "\<And>p. 1 \<le> p \<Longrightarrow> p \<le> int l \<Longrightarrow> \<exists>md. fetch_page p = Inr (xs p, md) \<and> currentPage md = p \<and> lastPage md = int l"
    and "k \<le> l" and "1 \<le> k"
  shows "\<exists>ps. load_pages fetch_page k [] = Inr ps \<and> concat (map fst ps) = concat (map xs [1..int k]) \<and>
    (hasNextPage ps \<longleftrightarrow> k < l) \<and> (k = l \<longrightarrow> fetch_next fetch_page ps = Inr ps)"
proof -
  obtain ps where ps: "load_pages fetch_page k [] = Inr ps" "map fst ps = map xs [1..int k]"
    "ps \<noteq> [] \<longrightarrow> currentPage (snd (last ps)) = int k \<and> lastPage (snd (last ps)) = int l"
    using load_pages_upto [OF assms(1), of "[]" l k] assms(2) by auto
  have ne: "ps \<noteq> []" using ps(2) assms(3) by auto
  then have "next_param ps = (if k < l then Some (int k + 1) else None)"
    using ps(3) by (simp add: next_param_def getNextPageParamFromMetadata_def)
  with ps(1,2) ne show ?thesis by (auto simp: hasNextPage_def fetch_next_def)
qed

theorem pages_complete_witness:
  "\<exists>ps. load_pages (\<lambda>p. Inr ([p], \<lparr>currentPage = p, pageSize = 1, firstPage = 1, lastPage = 2, totalRecords = 2\<rparr>) :: unit + int list \<times> metadata)
     2 [] = Inr ps \<and> concat (map fst ps) = [1, 2] \<and> \<not> hasNextPage ps"
  using pages_complete [of 2 "\<lambda>p. Inr ([p], \<lparr>currentPage = p, pageSize = 1, firstPage = 1, lastPage = 2, totalRecords = 2\<rparr>) :: unit + int list \<times> metadata"
      "\<lambda>p. [p]" 2]
  by (auto simp: upto_rec1)

end
