(* ===== verification/Charts.thy ===== *)
theory Charts
  imports View WsProvider
begin

section \<open>Price charts\<close>

text \<open>
  The charts of \<^verbatim>\<open>src/frontend/seer/src/ui/markets/details/PriceCharts.tsx\<close> (all outcomes of a
  market, with a legend, a tooltip and the choice of a timeframe) and of
  \<^verbatim>\<open>src/frontend/seer/src/ui/markets/home/PriceChartDrawer.tsx\<close> (one outcome, seen from one side). The
  chart itself is a package: modelled are the data that is handed to it, the handler of the
  crosshair with the placement of the tooltip, and what the component shows. The package documents that the
  data of a series has to be in strictly ascending order of time; that this holds under live updates is shown here.
\<close>

subsection \<open>Definitions\<close>

subsubsection \<open>Series\<close>

record series_point =
  sr_time :: int
  sr_value :: num

text \<open>A date is in milliseconds, a time of the chart in whole seconds.\<close>

definition chart_time :: "int \<Rightarrow> int" where
  "chart_time date = date div 1000"

definition colorsOutcomes :: "string list" where
  "colorsOutcomes = [''#3B82F6'', ''#F59E0B'', ''#A855F7'', ''#10B981'', ''#EF4444'']"

definition outcome_color :: "nat \<Rightarrow> string" where
  "outcome_color index = colorsOutcomes ! (index mod length colorsOutcomes)"

definition timeframes :: "timeframe list" where
  "timeframes = [TF_24h, TF_7d, TF_30d, TF_all]"

definition series_data :: "'d dlib \<Rightarrow> 'd price_point list \<Rightarrow> series_point list" where
  "series_data D ps = map (\<lambda>p. \<lparr>sr_time = chart_time (pp_date p), sr_value = toNumber D (pp_price p)\<rparr>) ps"

text \<open>
  The series one run of the effect adds: an outcome without charts gets none, one without a chart of the
  timeframe a series without data. The component remembers the series that have data.
\<close>

record chart_series =
  cs_outcome :: int
  cs_color :: string
  cs_data :: "series_point list option"

definition outcome_series :: "'d dlib \<Rightarrow> timeframe \<Rightarrow> nat \<Rightarrow> 'd outcome \<Rightarrow> chart_series list" where
  "outcome_series D tf index ob =
     (case priceCharts ob of
        None \<Rightarrow> []
      | Some cs \<Rightarrow>
          if cs = [] then []
          else [\<lparr>cs_outcome = o_id ob, cs_color = outcome_color index,
                 cs_data = map_option (\<lambda>c. series_data D (chart_prices c)) (find (\<lambda>c. chart_timeframe c = tf) cs)\<rparr>])"

definition chart_effect :: "'d dlib \<Rightarrow> timeframe \<Rightarrow> 'd outcome list \<Rightarrow> chart_series list" where
  "chart_effect D tf obs = concat (map (\<lambda>(i, ob). outcome_series D tf i ob) (enumerate 0 obs))"

fun series_refs :: "nat \<Rightarrow> chart_series list \<Rightarrow> (int \<rightharpoonup> nat) \<Rightarrow> int \<rightharpoonup> nat" where
  "series_refs n [] refs = refs"
| "series_refs n (s # ss) refs =
     series_refs (Suc n) ss (if cs_data s = None then refs else refs(cs_outcome s \<mapsto> n))"

text \<open>The labels of the axes; the texts of dates are arguments.\<close>

definition time_label :: "(int \<Rightarrow> string) \<Rightarrow> (int \<Rightarrow> string) \<Rightarrow> timeframe \<Rightarrow> int \<Rightarrow> string" where
  "time_label clock day tf time = (if tf = TF_24h then clock (time * 1000) else day (time * 1000))"

text \<open>\<^verbatim>\<open>toFixed\<close> of a number below \<open>10\<^sup>2\<^sup>1\<close>: to the nearest, halves away from zero; \<open>pr\<close> prints other numbers.\<close>

definition number_toFixed :: "(num \<Rightarrow> string) \<Rightarrow> nat \<Rightarrow> num \<Rightarrow> string" where
  "number_toFixed pr n x =
     (case x of
        Fin r \<Rightarrow> if \<bar>r\<bar> < 10 ^ 21 then fixed_str n (r < 0) (of_int \<lfloor>\<bar>r\<bar> * 10 ^ n + 1 / 2\<rfloor> / 10 ^ n) else pr x
      | _ \<Rightarrow> pr x)"

definition price_label :: "fpu \<Rightarrow> (num \<Rightarrow> string) \<Rightarrow> num \<Rightarrow> string" where
  "price_label F pr price = number_toFixed pr 1 (js_mul F price (lit F 100)) @ ''%''"

subsubsection \<open>The crosshair\<close>

record crosshair =
  ch_time :: "int option"
  ch_point :: "(real \<times> real) option"
  ch_data :: "nat \<Rightarrow> num option"

record tooltip =
  tt_visible :: bool
  tt_left :: real
  tt_top :: real

record box =
  box_width :: real
  box_height :: real

definition beside :: "real \<Rightarrow> real \<Rightarrow> real \<Rightarrow> real" where
  "beside x room extent = (if x + 15 > room - extent then x - 15 - extent else x + 15)"

definition place_tooltip :: "box \<Rightarrow> box \<Rightarrow> real \<times> real \<Rightarrow> tooltip" where
  "place_tooltip container tip point =
     \<lparr>tt_visible = True, tt_left = beside (fst point) (box_width container) (box_width tip),
      tt_top = beside (snd point) (box_height container) (box_height tip)\<rparr>"

text \<open>Whether the crosshair is over the chart.\<close>

definition over_chart :: "crosshair \<Rightarrow> (int \<times> real \<times> real) option" where
  "over_chart p =
     (case (ch_time p, ch_point p) of
        (Some t, Some (x, y)) \<Rightarrow> if t = 0 \<or> x < 0 \<or> y < 0 then None else Some (t, x, y)
      | _ \<Rightarrow> None)"

record 'd charts_state =
  pc_selectedPrice :: "(int \<rightharpoonup> 'd) option"
  pc_selectedDate :: string
  pc_timeframe :: timeframe
  pc_refs :: "int \<rightharpoonup> nat"
  pc_made :: nat
  pc_tooltip :: tooltip

definition charts_init :: "'d charts_state" where
  "charts_init = \<lparr>pc_selectedPrice = None, pc_selectedDate = [], pc_timeframe = TF_24h, pc_refs = Map.empty, pc_made = 0,
     pc_tooltip = \<lparr>tt_visible = False, tt_left = 0, tt_top = 0\<rparr>\<rparr>"

definition hovered_prices :: "'d dlib \<Rightarrow> (int \<rightharpoonup> nat) \<Rightarrow> crosshair \<Rightarrow> 'd outcome list \<Rightarrow> int \<rightharpoonup> 'd" where
  "hovered_prices D refs p obs =
     fold (\<lambda>ob prices.
       case Option.bind (refs (o_id ob)) (ch_data p) of
         None \<Rightarrow> prices | Some v \<Rightarrow> prices(o_id ob \<mapsto> dNew D v)) obs Map.empty"

definition crosshair_move ::
    "'d dlib \<Rightarrow> (int \<Rightarrow> string) \<Rightarrow> box \<Rightarrow> box \<Rightarrow> 'd outcome list \<Rightarrow> crosshair \<Rightarrow> 'd charts_state \<Rightarrow> 'd charts_state" where
  "crosshair_move D date_text container tip obs p st =
     (case over_chart p of
        None \<Rightarrow> st\<lparr>pc_selectedPrice := None, pc_tooltip := (pc_tooltip st)\<lparr>tt_visible := False\<rparr>\<rparr>
      | Some (t, x, y) \<Rightarrow>
          st\<lparr>pc_selectedDate := date_text (t * 1000), pc_tooltip := place_tooltip container tip (x, y),
             pc_selectedPrice := Some (hovered_prices D (pc_refs st) p obs)\<rparr>)"

definition selected_price :: "'d charts_state \<Rightarrow> int \<Rightarrow> 'd \<Rightarrow> 'd" where
  "selected_price st i other = (case Option.bind (pc_selectedPrice st) (\<lambda>f. f i) of None \<Rightarrow> other | Some v \<Rightarrow> v)"

fun show_timeframe :: "timeframe \<Rightarrow> string" where
  "show_timeframe TF_24h = ''24H''"
| "show_timeframe TF_7d = ''7D''"
| "show_timeframe TF_30d = ''30D''"
| "show_timeframe TF_all = ''ALL''"

definition PriceCharts :: "'d outcome list \<Rightarrow> 'd charts_state \<Rightarrow> ('d, timeframe) widget list" where
  "PriceCharts obs st =
     concat (map (\<lambda>ob. [Text (o_name ob), OddsOf (selected_price st (o_id ob) (priceYesNormalized ob)) OddsPercent]) obs) @
     shown (tt_visible (pc_tooltip st))
       (Text (pc_selectedDate st) #
        concat (map (\<lambda>ob. [Text (o_name ob), Part ''percent'' (JDec (selected_price st (o_id ob) (priceYes ob)))]) obs)) @
     map (\<lambda>t. Press False t [Text (show_timeframe t)]) timeframes"

text \<open>
  Choosing a timeframe draws the chart anew, and so do new outcomes. Series are numbered in the order in which they are created,
  over all charts; the remembered series of an outcome that gets no data stays the one of an earlier chart.
\<close>

definition draw :: "'d dlib \<Rightarrow> 'd outcome list \<Rightarrow> 'd charts_state \<Rightarrow> 'd charts_state" where
  "draw D obs st =
     (let ss = chart_effect D (pc_timeframe st) obs
      in st\<lparr>pc_refs := series_refs (pc_made st) ss (pc_refs st), pc_made := pc_made st + length ss\<rparr>)"

definition choose_timeframe :: "'d dlib \<Rightarrow> 'd outcome list \<Rightarrow> timeframe \<Rightarrow> 'd charts_state \<Rightarrow> 'd charts_state" where
  "choose_timeframe D obs t st = (if t = pc_timeframe st then st else draw D obs (st\<lparr>pc_timeframe := t\<rparr>))"

text \<open>The width the chart is set to, if it is.\<close>

definition handleResize :: "real \<Rightarrow> real option" where
  "handleResize width = (if width > 0 then Some width else None)"

subsubsection \<open>The chart of one outcome\<close>

definition drawer_data :: "fpu \<Rightarrow> 'd dlib \<Rightarrow> bet_side \<Rightarrow> 'd price_point list \<Rightarrow> series_point list" where
  "drawer_data F D side ps =
     map (\<lambda>p. \<lparr>sr_time = chart_time (pp_date p),
               sr_value = (if side = SideY then toNumber D (pp_price p) else js_sub F (lit F 1) (toNumber D (pp_price p)))\<rparr>) ps"

record 'd drawer_chart =
  dc_selectedDate :: string
  dc_price :: 'd
  dc_tooltip :: tooltip

definition drawer_chart_init :: "'d dlib \<Rightarrow> 'd drawer_chart" where
  "drawer_chart_init D = \<lparr>dc_selectedDate = [], dc_price = dOfInt D 0, dc_tooltip = \<lparr>tt_visible = False, tt_left = 0, tt_top = 0\<rparr>\<rparr>"

text \<open>The point under the crosshair comes with its own time.\<close>

definition drawer_move ::
    "'d dlib \<Rightarrow> (int \<Rightarrow> string) \<Rightarrow> box \<Rightarrow> box \<Rightarrow> crosshair \<Rightarrow> series_point option \<Rightarrow> 'd drawer_chart \<Rightarrow> 'd drawer_chart" where
  "drawer_move D date_text container tip p data st =
     (case (over_chart p, data) of
        (Some (t, x, y), Some d) \<Rightarrow>
          \<lparr>dc_selectedDate = date_text (sr_time d * 1000), dc_price = dNew D (sr_value d),
           dc_tooltip = place_tooltip container tip (x, y)\<rparr>
      | _ \<Rightarrow> st\<lparr>dc_tooltip := (dc_tooltip st)\<lparr>tt_visible := False\<rparr>\<rparr>)"

definition PriceChartDrawer :: "'d drawer_chart \<Rightarrow> ('d, 'e) widget list" where
  "PriceChartDrawer st = shown (tt_visible (dc_tooltip st)) [Text (dc_selectedDate st), OddsOf (dc_price st) OddsPercent]"

subsection \<open>The order of the data\<close>

definition ascending :: "series_point list \<Rightarrow> bool" where
  "ascending ss = sorted_wrt (<) (map sr_time ss)"

text \<open>The clock of the client is behind the last point of a chart.\<close>

definition behind :: "int \<Rightarrow> 'd price_chart \<Rightarrow> bool" where
  "behind now c \<longleftrightarrow> chart_prices c \<noteq> [] \<and> bucketDate (chart_timeframe c) now < pp_date (last (chart_prices c))"

lemma bucket_seconds: "1000 dvd bucketDate tf now"
proof -
  have "(1000 :: int) dvd bucket_ms tf" by (cases tf) (simp_all add: bucket_ms_def)
  then show ?thesis by (simp add: bucketDate_def)
qed

lemma chart_time_less: "1000 dvd b \<Longrightarrow> chart_time d < chart_time b \<longleftrightarrow> d < b"
  by (auto simp: chart_time_def elim!: dvdE)

lemma bucketDate_mono: "t \<le> t' \<Longrightarrow> bucketDate tf t \<le> bucketDate tf t'"
  using bucket_ms_pos [of tf] by (simp add: bucketDate_def zdiv_mono1 mult_right_mono)

lemma series_times: "map sr_time (series_data D ps) = map (\<lambda>p. chart_time (pp_date p)) ps"
  by (simp add: series_data_def)

lemma ascending_snoc:
  "ascending (series_data D (ps @ [p])) \<longleftrightarrow>
     ascending (series_data D ps) \<and> (ps = [] \<or> chart_time (pp_date (last ps)) < chart_time (pp_date p))"
proof (cases ps rule: rev_cases)
  case (snoc qs q)
  then show ?thesis by (auto simp: ascending_def series_times sorted_wrt_append)
qed (simp add: ascending_def series_times)

lemma update_chart_last:
  "chart_timeframe (update_chart now price c) = chart_timeframe c"
  "chart_prices (update_chart now price c) \<noteq> []"
  "pp_date (last (chart_prices (update_chart now price c))) = bucketDate (chart_timeframe c) now"
  "pp_price (last (chart_prices (update_chart now price c))) = price"
  by (cases "chart_prices c" rule: rev_cases; simp add: update_chart_def Let_def)+

lemma ascending_update:
  assumes "ascending (series_data D (chart_prices c))"
  shows "ascending (series_data D (chart_prices (update_chart now price c))) \<longleftrightarrow> \<not> behind now c"
proof -
  let ?b = "bucketDate (chart_timeframe c) now"
  let ?q = "\<lparr>pp_date = ?b, pp_timestamp = ?b, pp_price = price\<rparr>"
  show ?thesis
  proof (cases "chart_prices c" rule: rev_cases)
    case Nil
    then show ?thesis by (simp add: update_chart_def Let_def ascending_def series_data_def behind_def)
  next
    case (snoc qs l)
    show ?thesis
    proof (cases "pp_date l = ?b")
      case True
      with snoc assms show ?thesis
        by (simp add: update_chart_def Let_def behind_def ascending_snoc del: last.simps)
    next
      case False
      with snoc have "chart_prices (update_chart now price c) = chart_prices c @ [?q]"
        by (simp add: update_chart_def Let_def)
      then have "ascending (series_data D (chart_prices (update_chart now price c))) \<longleftrightarrow>
          chart_time (pp_date (last (chart_prices c))) < chart_time ?b"
        using assms snoc by (simp only: ascending_snoc) simp
      with snoc False show ?thesis by (auto simp: behind_def chart_time_less [OF bucket_seconds])
    qed
  qed
qed

lemma behind_update: "t \<le> t' \<Longrightarrow> \<not> behind t' (update_chart t price c)"
  using bucketDate_mono [of t t' "chart_timeframe c"] by (simp add: behind_def update_chart_last)

lemma ascending_updates:
  "ascending (series_data D (chart_prices c)) \<Longrightarrow> sorted (map fst us) \<Longrightarrow> us = [] \<or> \<not> behind (fst (hd us)) c \<Longrightarrow>
   ascending (series_data D (chart_prices (fold (\<lambda>(t, p). update_chart t p) us c)))"
proof (induction us arbitrary: c)
  case (Cons u us)
  let ?c = "update_chart (fst u) (snd u) c"
  have "ascending (series_data D (chart_prices ?c))" using Cons.prems by (simp add: ascending_update)
  moreover have "us = [] \<or> \<not> behind (fst (hd us)) ?c"
    using Cons.prems(2) by (cases us) (simp_all add: behind_update)
  ultimately have "ascending (series_data D (chart_prices (fold (\<lambda>(t, p). update_chart t p) us ?c)))"
    using Cons.prems(2) by (intro Cons.IH) simp_all
  then show ?case by (simp add: case_prod_unfold)
qed simp

text \<open>
  C30. The data of a series stays in the strictly ascending order of time that the chart requires throughout any sequence of
  live updates, however many fall into one bucket, if the clock of the client does not go back and is not
  behind the last point to begin with; the last value is that of the last update. A single update
  breaks the order exactly if the clock is behind the last point.
\<close>

theorem chart_series_ascending:
  assumes "ascending (series_data D (chart_prices c))"
  shows "(ascending (series_data D (chart_prices (update_chart now price c))) \<longleftrightarrow> \<not> behind now c) \<and>
    (sorted (map fst us) \<and> (us = [] \<or> \<not> behind (fst (hd us)) c) \<longrightarrow>
       ascending (series_data D (chart_prices (fold (\<lambda>(t, p). update_chart t p) us c)))) \<and>
    sr_value (last (series_data D (chart_prices (update_chart now price c)))) = toNumber D price"
proof (intro conjI impI)
  show "ascending (series_data D (chart_prices (update_chart now price c))) \<longleftrightarrow> \<not> behind now c"
    by (rule ascending_update [OF assms])
  show "ascending (series_data D (chart_prices (fold (\<lambda>(t, p). update_chart t p) us c)))"
    if "sorted (map fst us) \<and> (us = [] \<or> \<not> behind (fst (hd us)) c)"
    using ascending_updates assms that by blast
  show "sr_value (last (series_data D (chart_prices (update_chart now price c)))) = toNumber D price"
    using update_chart_last(2,4) [of now price c] by (simp add: series_data_def last_map)
qed

theorem chart_series_ascending_witness:
  "\<not> ascending (series_data real_lib (chart_prices (update_chart 0 (1 / 2 :: real)
     \<lparr>chart_timeframe = TF_24h, chart_prices = [\<lparr>pp_date = 300000, pp_timestamp = 300000, pp_price = 1 / 4\<rparr>]\<rparr>)))"
proof -
  let ?c = "\<lparr>chart_timeframe = TF_24h, chart_prices = [\<lparr>pp_date = 300000, pp_timestamp = 300000, pp_price = 1 / 4 :: real\<rparr>]\<rparr>"
  have "ascending (series_data real_lib (chart_prices ?c))" by (simp add: ascending_def series_data_def)
  moreover have "behind 0 ?c" by (simp add: behind_def bucketDate_def bucket_ms_def)
  ultimately show ?thesis using chart_series_ascending [of real_lib ?c 0 "1 / 2"] by simp
qed

subsection \<open>The tooltip and the legend\<close>

text \<open>The tooltip never covers the crosshair and stays inside a container that has room for it on both sides.\<close>

lemma beside_bounds:
  assumes "0 \<le> extent" "0 \<le> x" "x \<le> room"
  shows "beside x room extent + extent \<le> room" "beside x room extent + extent < x \<or> x < beside x room extent"
    and "2 * extent + 30 \<le> room \<Longrightarrow> 0 \<le> beside x room extent"
  using assms by (auto simp: beside_def)

lemma hovered_prices_get:
  assumes "distinct (map o_id obs)"
  shows "hovered_prices D refs p obs i =
    (if i \<in> o_id ` set obs then map_option (dNew D) (Option.bind (refs i) (ch_data p)) else None)"
proof -
  have "fold (\<lambda>ob prices. case Option.bind (refs (o_id ob)) (ch_data p) of
        None \<Rightarrow> prices | Some v \<Rightarrow> prices(o_id ob \<mapsto> dNew D v)) obs m i =
      (if i \<in> o_id ` set obs then
         (case Option.bind (refs i) (ch_data p) of None \<Rightarrow> m i | Some v \<Rightarrow> Some (dNew D v)) else m i)" for m
    using assms
  proof (induction obs arbitrary: m)
    case (Cons ob obs)
    then show ?case by (auto split: option.splits)
  qed simp
  then show ?thesis by (auto simp: hovered_prices_def split: option.split)
qed

text \<open>While the crosshair is over the chart, the legend shows the values of the series there, and otherwise the current prices.\<close>

lemma legend_price:
  assumes "distinct (map o_id obs)" and "ob \<in> set obs"
  shows "selected_price (crosshair_move D dt container tip obs p st) (o_id ob) (priceYesNormalized ob) =
    (case (over_chart p, Option.bind (pc_refs st (o_id ob)) (ch_data p)) of
       (Some _, Some v) \<Rightarrow> dNew D v | _ \<Rightarrow> priceYesNormalized ob)"
  using assms(2) by (auto simp: crosshair_move_def selected_price_def hovered_prices_get [OF assms(1)] split: option.splits)

end
