(* ===== verification/Shell.thy ===== *)
theory Shell
  imports View
begin

section \<open>The shell of the application\<close>

text \<open>
  Parts every page has: the handler of the address (\<^verbatim>\<open>src/frontend/seer/src/app/URLHandler.tsx\<close>), the chat
  (\<^verbatim>\<open>ui/chat/ChatDrawer.tsx\<close>), the row of categories
  (\<^verbatim>\<open>ui/markets/home/categories/CategoriesMenu.tsx\<close>) and the drop-down menu
  (\<^verbatim>\<open>ui/menu_small_vertical/MenuVertical.tsx\<close>). Sizes in pixels are integers or, where the browser gives
  fractions, reals.
\<close>

subsection \<open>The address\<close>

definition no_options :: url_options where
  "no_options = \<lparr>opt_replace = False, opt_scroll = None, newPathname = None, overwriteCurrent = False\<rparr>"

text \<open>
  The effect that runs whenever the parameters change. \<open>decode\<close> is \<^verbatim>\<open>decodeURIComponent\<close>, which throws on a
  malformed escape; its results are not limited to the characters of \<open>string\<close>, so that it stays an argument.
\<close>

definition URLHandler :: "(string \<Rightarrow> string js) \<Rightarrow> string \<Rightarrow> params \<Rightarrow> 'd effect list js" where
  "URLHandler decode pathname sp =
     bindE (case params_get sp ''error'' of
              None \<Rightarrow> Inr []
            | Some e \<Rightarrow>
                if e = [] then Inr []
                else bindE (decode e) (\<lambda>msg.
                       Inr [Toast msg False, Navigate (setParams pathname sp [(''error'', UNull)] no_options)])) (\<lambda>es.
       Inr (es @ (case params_get sp ''show'' of
                    None \<Rightarrow> []
                  | Some s \<Rightarrow>
                      if s = ''profile_completion''
                      then [OpenModal ModalProfileCompletion [], Navigate (setParams pathname sp [(''show'', UNull)] no_options)]
                      else if s = ''user''
                      then (case params_get sp ''username'' of
                              None \<Rightarrow> []
                            | Some u \<Rightarrow> if u = [] then [] else [OpenModal ModalUser [(''username'', JStr u)]])
                      else [])))"

subsection \<open>The chat\<close>

definition sendEnabled :: "string \<Rightarrow> bool" where
  "sendEnabled inputValue \<longleftrightarrow> 0 < length (js_trim inputValue) \<and> length inputValue \<le> 50"

definition handleSend :: "bool \<Rightarrow> string \<Rightarrow> string \<times> 'd effect list" where
  "handleSend ws inputValue =
     (if \<not> sendEnabled inputValue then (inputValue, [])
      else ([], if ws then [Emit ''send:chat'' [(''message'', JStr inputValue), (''chatSlug'', JStr ''global'')]] else []))"

datatype chat_event = ChatType string | ChatSend | ShowProfile string

fun chat_step :: "bool \<Rightarrow> string \<Rightarrow> params \<Rightarrow> chat_event \<Rightarrow> string \<Rightarrow> string \<times> 'd effect list" where
  "chat_step ws pathname sp (ChatType v) st = (v, [])"
| "chat_step ws pathname sp ChatSend st = handleSend ws st"
| "chat_step ws pathname sp (ShowProfile username) st =
     (st, [Navigate (setParams pathname sp [(''show'', UStr ''user''), (''username'', UStr username)] no_options)])"

definition rate_limited :: "'d effect list" where
  "rate_limited = [Toast ''You're sending messages too quickly. Please slow down.'' False]"

definition ProfilePicture :: "string option \<Rightarrow> ('d, 'e) widget" where
  "ProfilePicture url = Picture (case url of None \<Rightarrow> ''https://api.dicebear.com/9.x/glass/png'' | Some u \<Rightarrow> u)"

text \<open>A message: which of the two backgrounds it has, and what it shows.\<close>

definition shaded :: "nat \<Rightarrow> nat \<Rightarrow> bool" where
  "shaded idx globalParity \<longleftrightarrow> idx mod 2 = globalParity"

definition chat_row :: "chat_message \<Rightarrow> ('d, chat_event) widget list" where
  "chat_row m =
     [Press False (ShowProfile (wu_username (cm_user m)))
        [ProfilePicture (wu_profileImageKey (cm_user m))],
      Press False (ShowProfile (wu_username (cm_user m))) [Text (wu_username (cm_user m))],
      Text (cm_content m)]"

definition ChatDrawer :: "chat_store \<Rightarrow> int \<Rightarrow> (bool \<times> ('d, chat_event) widget list) list \<times> ('d, chat_event) widget list" where
  "ChatDrawer chats online =
     (map (\<lambda>(idx, m). (shaded idx (chat_flip ''global'' chats), chat_row m)) (enumerate 0 (chat_feed ''global'' chats)),
      [Field ''Your message here'' 0 ChatType, Press False ChatSend [], Text (show_int online @ '' Online'')])"

subsection \<open>The bets of everybody\<close>

datatype live_event = SelectTab bool | ShowBettor string

definition live_user :: "'d bet_update \<Rightarrow> ('d, live_event) widget" where
  "live_user b =
     (case bup_user b of
        Some u \<Rightarrow> Press False (ShowBettor (wu_username u)) [Text (wu_username u)]
      | None \<Rightarrow> Text ''Hidden'')"

definition live_row :: "oddsFormat \<Rightarrow> 'd bet_update \<Rightarrow> ('d, live_event) widget list" where
  "live_row fmt b =
     [live_user b, Link (''/market/'' @ bup_marketID b) [Text (bup_marketName b)],
      Link (''/market/'' @ bup_marketID b) [Text (bup_outcomeName b)], Fixed2 (bup_wager b), OddsOf (bup_avgPrice b) fmt]"

definition BetsLiveTable :: "oddsFormat \<Rightarrow> 'd bet_update list \<Rightarrow> nat \<Rightarrow> (bool \<times> ('d, live_event) widget list) list" where
  "BetsLiveTable fmt bets flipped = map (\<lambda>(index, b). (shaded index flipped, live_row fmt b)) (enumerate 0 bets)"

definition BetsLive :: "oddsFormat \<Rightarrow> bool \<Rightarrow> 'd bet_store \<Rightarrow> ('d, live_event) widget list \<times> (bool \<times> ('d, live_event) widget list) list" where
  "BetsLive fmt latest s =
     ([Press False (SelectTab True) [Text ''Latest Bets''], Press False (SelectTab False) [Text ''High Wagers'']],
      if latest then BetsLiveTable fmt (latestBets s) (latestParity s) else BetsLiveTable fmt (highBets s) (highParity s))"

fun live_click :: "string \<Rightarrow> params \<Rightarrow> live_event \<Rightarrow> bool \<Rightarrow> bool \<times> 'd effect list" where
  "live_click pathname sp (SelectTab t) latest = (t, [])"
| "live_click pathname sp (ShowBettor u) latest =
     (latest, [Navigate (setParams pathname sp [(''show'', UStr ''user''), (''username'', UStr u)] no_options)])"

subsection \<open>The row of categories\<close>

record scroller =
  clientWidth :: int
  scrollWidth :: int
  scrollLeft :: real

definition scroll_amount :: "bool \<Rightarrow> scroller \<Rightarrow> real" where
  "scroll_amount right el =
     (let desired = round_quot (4 * clientWidth el) 5
      in if right then min (real_of_int desired) (real_of_int (scrollWidth el - clientWidth el) - scrollLeft el)
         else max (- real_of_int desired) (- scrollLeft el))"

definition scrollByAmount :: "bool \<Rightarrow> scroller \<Rightarrow> scroller" where
  "scrollByAmount right el = el\<lparr>scrollLeft := scrollLeft el + scroll_amount right el\<rparr>"

datatype disabled_button = DisableLeft | DisableRight | DisableNone

definition handleScroll :: "scroller \<Rightarrow> disabled_button" where
  "handleScroll el =
     (if scrollLeft el \<le> 2 then DisableLeft
      else if scrollLeft el + real_of_int (clientWidth el) \<ge> real_of_int (scrollWidth el) - 2 then DisableRight
      else DisableNone)"

definition CategoriesMenu :: "category list \<Rightarrow> params \<Rightarrow> disabled_button \<Rightarrow> ('d, bool) widget list" where
  "CategoriesMenu cats sp disableButton =
     (let active = (case params_get sp ''category'' of
                      Some s \<Rightarrow> Some s | None \<Rightarrow> (case cats of [] \<Rightarrow> None | c # _ \<Rightarrow> Some (cat_slug c)))
      in shown (disableButton \<noteq> DisableLeft) [Press False False []] @
         map (\<lambda>c. Link (''/?'' @ params_toString (params_set ''category'' (cat_slug c) []))
                    [Part ''CategoryButton'' (JObj [(''label'', JStr (cat_label c)), (''active'', JBool (Some (cat_slug c) = active))])])
           cats @
         shown (disableButton \<noteq> DisableRight) [Press False True []])"

subsection \<open>The drop-down menu\<close>

record rect =
  rect_left :: real
  rect_bottom :: real
  rect_width :: real

record menu =
  mv_open :: bool
  mv_top :: real
  mv_left :: real
  mv_width :: real

definition menu_left :: "real \<Rightarrow> real \<Rightarrow> real \<Rightarrow> real" where
  "menu_left innerWidth left finalWidth =
     (let pushed = (if left + finalWidth > innerWidth - 12 then innerWidth - finalWidth - 12 else left)
      in if pushed < 12 then 12 else pushed)"

definition toggleMenu :: "real \<Rightarrow> real option \<Rightarrow> rect option \<Rightarrow> menu \<Rightarrow> menu" where
  "toggleMenu innerWidth menuWidth button st =
     (if mv_open st then st\<lparr>mv_open := False\<rparr>
      else case button of
        None \<Rightarrow> st
      | Some r \<Rightarrow>
          let finalWidth = (case menuWidth of None \<Rightarrow> rect_width r | Some w \<Rightarrow> if w = 0 then rect_width r else w)
          in \<lparr>mv_open = True, mv_top = rect_bottom r + 8, mv_left = menu_left innerWidth (rect_left r) finalWidth,
              mv_width = finalWidth\<rparr>)"

datatype 'v menu_event = Toggle "rect option" | DownOutside | ScrollOrResize | Choose 'v

fun menu_step :: "real \<Rightarrow> real option \<Rightarrow> 'v menu_event \<Rightarrow> menu \<Rightarrow> menu \<times> 'v list" where
  "menu_step innerWidth menuWidth (Toggle button) st = (toggleMenu innerWidth menuWidth button st, [])"
| "menu_step innerWidth menuWidth DownOutside st = (st\<lparr>mv_open := False\<rparr>, [])"
| "menu_step innerWidth menuWidth ScrollOrResize st = (st\<lparr>mv_open := False\<rparr>, [])"
| "menu_step innerWidth menuWidth (Choose v) st = (st\<lparr>mv_open := False\<rparr>, [v])"

definition MenuVertical :: "rect option \<Rightarrow> ('v \<times> string) list \<Rightarrow> 'v \<Rightarrow> menu \<Rightarrow> ('d, 'v menu_event) widget list" where
  "MenuVertical button choices value st =
     [Press False (Toggle button) (case map_of choices value of None \<Rightarrow> [] | Some t \<Rightarrow> [Text t])] @
     shown (mv_open st) (map (\<lambda>(v, t). Press False (Choose v) [Text t]) choices)"

subsection \<open>The address settles\<close>

definition address :: "string \<Rightarrow> params \<Rightarrow> string" where
  "address pathname ps = (if ps = [] then pathname else pathname @ ''?'' @ params_toString ps)"

fun hrefs :: "'d effect list \<Rightarrow> string list" where
  "hrefs [] = []"
| "hrefs (Navigate n # es) = nav_href n # hrefs es"
| "hrefs (_ # es) = hrefs es"

lemma hrefs_append [simp]: "hrefs (xs @ ys) = hrefs xs @ hrefs ys"
  by (induction xs rule: hrefs.induct) simp_all

definition has_error :: "params \<Rightarrow> bool" where
  "has_error sp \<longleftrightarrow> params_get sp ''error'' \<noteq> None \<and> params_get sp ''error'' \<noteq> Some []"

definition has_profile :: "params \<Rightarrow> bool" where
  "has_profile sp \<longleftrightarrow> params_get sp ''show'' = Some ''profile_completion''"

fun toasts :: "'d effect list \<Rightarrow> string list" where
  "toasts [] = []"
| "toasts (Toast t b # es) = t # toasts es"
| "toasts (_ # es) = toasts es"

lemma toasts_append [simp]: "toasts (xs @ ys) = toasts xs @ toasts ys"
  by (induction xs rule: toasts.induct) simp_all

text \<open>The parameters the last navigation leads to.\<close>

definition url_next :: "params \<Rightarrow> params" where
  "url_next sp =
     (if has_profile sp then params_delete ''show'' sp
      else if has_error sp then params_delete ''error'' sp
      else sp)"

lemma href_delete: "nav_href (setParams pathname sp [(k, UNull)] no_options) = address pathname (params_delete k sp)"
  by (simp add: setParams_def no_options_def apply_update_def params_toString_empty address_def Let_def)

lemma get_delete [simp]: "params_get (params_delete k ps) j = (if j = k then None else params_get ps j)"
  by (rule params_get_delete)

lemma url_next_fixed: "url_next (url_next (url_next sp)) = url_next (url_next sp)"
  by (auto simp: url_next_def has_error_def has_profile_def)

text \<open>One run: which addresses it navigates to, and that it shows the message.\<close>

lemma handler_run:
  assumes "URLHandler decode pathname sp = Inr (es :: 'd effect list)"
  shows "hrefs es = (if has_error sp then [address pathname (params_delete ''error'' sp)] else []) @
      (if has_profile sp then [address pathname (params_delete ''show'' sp)] else [])"
    and "length (toasts es) = (if has_error sp then 1 else 0)"
proof -
  obtain es1 where es1:
    "(case params_get sp ''error'' of
        None \<Rightarrow> Inr []
      | Some e \<Rightarrow> if e = [] then Inr [] else bindE (decode e) (\<lambda>msg.
          Inr [Toast msg False, Navigate (setParams pathname sp [(''error'', UNull)] no_options)])) = Inr es1"
    "es = es1 @ (case params_get sp ''show'' of
        None \<Rightarrow> []
      | Some s \<Rightarrow>
          if s = ''profile_completion''
          then [OpenModal ModalProfileCompletion [], Navigate (setParams pathname sp [(''show'', UNull)] no_options)]
          else if s = ''user''
          then (case params_get sp ''username'' of
                  None \<Rightarrow> [] | Some u \<Rightarrow> if u = [] then [] else [OpenModal ModalUser [(''username'', JStr u)]])
          else [])"
    using assms unfolding URLHandler_def bindE_eq_Inr by blast
  have one: "hrefs es1 = (if has_error sp then [address pathname (params_delete ''error'' sp)] else [])"
    "length (toasts es1) = (if has_error sp then 1 else 0)"
    using es1(1) by (auto simp: has_error_def href_delete bindE_eq_Inr split: option.splits if_splits)
  show "hrefs es = (if has_error sp then [address pathname (params_delete ''error'' sp)] else []) @
      (if has_profile sp then [address pathname (params_delete ''show'' sp)] else [])"
    using one(1) es1(2) by (simp add: has_profile_def href_delete split: option.split)
  show "length (toasts es) = (if has_error sp then 1 else 0)"
    using one(2) es1(2) by (simp split: option.split)
qed

text \<open>
  C26. The handler of the address comes to rest: a run that navigates leads to the parameters \<open>url_next\<close>, and
  after two runs nothing navigates and no message is shown any more. A message in the address is shown by one
  run, but by two when the profile is to be completed as well, because the second navigation of the first run is computed from
  the old address and keeps the message.
\<close>

theorem url_handler_settles:
  assumes "URLHandler decode pathname sp = Inr (es :: 'd effect list)"
  shows "(hrefs es = [] \<longrightarrow> url_next sp = sp) \<and> (hrefs es \<noteq> [] \<longrightarrow> last (hrefs es) = address pathname (url_next sp)) \<and>
    (\<forall>es' :: 'd effect list. URLHandler decode pathname (url_next (url_next sp)) = Inr es' \<longrightarrow> hrefs es' = [] \<and> toasts es' = []) \<and>
    (\<forall>es' :: 'd effect list. URLHandler decode pathname (url_next sp) = Inr es' \<longrightarrow>
       length (toasts es) + length (toasts es') = (if has_error sp then if has_profile sp then 2 else 1 else 0))"
proof (intro conjI allI impI)
  note run = handler_run [OF assms]
  show "url_next sp = sp" if "hrefs es = []" using run(1) that by (auto simp: url_next_def split: if_splits)
  show "last (hrefs es) = address pathname (url_next sp)" if "hrefs es \<noteq> []"
    using run(1) that by (auto simp: url_next_def split: if_splits)
  fix es' :: "'d effect list"
  have quiet: "\<not> has_error (url_next (url_next sp))" "\<not> has_profile (url_next (url_next sp))"
    by (auto simp: url_next_def has_error_def has_profile_def)
  show "hrefs es' = []" "toasts es' = []" if "URLHandler decode pathname (url_next (url_next sp)) = Inr es'"
    using handler_run [OF that] quiet by simp_all
  have "has_error (url_next sp) \<longleftrightarrow> has_error sp \<and> has_profile sp"
    by (auto simp: url_next_def has_error_def has_profile_def)
  then show "length (toasts es) + length (toasts es') = (if has_error sp then if has_profile sp then 2 else 1 else 0)"
    if "URLHandler decode pathname (url_next sp) = Inr es'"
    using run(2) handler_run(2) [OF that] by simp
qed

theorem url_handler_settles_witness:
  "\<exists>(es :: unit effect list) (es' :: unit effect list). URLHandler Inr ''/'' [(''error'', ''no''), (''show'', ''profile_completion'')] = Inr es \<and>
     URLHandler Inr ''/'' (url_next [(''error'', ''no''), (''show'', ''profile_completion'')]) = Inr es' \<and>
     length (toasts es) + length (toasts es') = 2"
proof -
  let ?sp = "[(''error'', ''no''), (''show'', ''profile_completion'')]"
  have ok: "\<exists>es. URLHandler Inr ''/'' ps = Inr (es :: unit effect list)" for ps
    by (simp add: URLHandler_def split: option.split)
  then obtain es es' :: "unit effect list" where e: "URLHandler Inr ''/'' ?sp = Inr es" "URLHandler Inr ''/'' (url_next ?sp) = Inr es'" by metis
  moreover have "has_error ?sp" "has_profile ?sp" by (simp_all add: has_error_def has_profile_def params_get_def)
  ultimately have "length (toasts es) + length (toasts es') = 2" using url_handler_settles [OF e(1)] by simp
  with e show ?thesis by blast
qed

subsection \<open>The chat and the live bets\<close>

text \<open>A message is only sent if it has a character that is not blank and at most fifty characters, and never twice.\<close>

lemma handleSend_sound:
  assumes "handleSend ws v = (v', es :: 'd effect list)"
  shows "es = [] \<or> ws \<and> js_trim v \<noteq> [] \<and> length v \<le> 50 \<and> v' = [] \<and>
    es = [Emit ''send:chat'' [(''message'', JStr v), (''chatSlug'', JStr ''global'')]]"
  using assms by (cases "sendEnabled v"; cases ws) (simp_all add: handleSend_def sendEnabled_def)

lemma shaded_flip: "p < 2 \<Longrightarrow> shaded (Suc i) ((p + 1) mod 2) = shaded i p"
  unfolding shaded_def by (cases "p = 0") (simp_all add: mod_Suc)

lemma shaded_rows:
  assumes "p < 2"
  shows "map (\<lambda>(i, x). (shaded i ((p + 1) mod 2), f x)) (enumerate (Suc n) xs) = map (\<lambda>(i, x). (shaded i p, f x)) (enumerate n xs)"
  by (induction xs arbitrary: n) (use shaded_flip [OF assms] in simp_all)

lemma enumerate_take: "enumerate n (take k xs) = take k (enumerate n xs)"
proof (induction xs arbitrary: n k)
  case (Cons x xs)
  then show ?case by (cases k) simp_all
qed simp

lemma feed_rows_stable:
  assumes "chatSlug msg = s" and "length (chat_feed s chats) \<le> 20" and "chat_flip s chats < 2"
  shows "map (\<lambda>(i, x). (shaded i (chat_flip s (addChatMessage msg chats)), f x)) (enumerate 0 (chat_feed s (addChatMessage msg chats))) =
    take 20 ((shaded 0 ((chat_flip s chats + 1) mod 2), f msg) #
      map (\<lambda>(i, x). (shaded i (chat_flip s chats), f x)) (enumerate 0 (chat_feed s chats)))"
proof -
  have "chat_feed s (addChatMessage msg chats) = take 20 (msg # chat_feed s chats)"
    using chat.feed_add [of s chats msg msg] assms by (simp add: chat_entry_def MAX_MESSAGES_PER_CHAT_def)
  moreover have "chat_flip s (addChatMessage msg chats) = (chat_flip s chats + 1) mod 2"
    using chat.flip_add [of s msg msg chats] assms by (simp add: chat_entry_def)
  ultimately show ?thesis
    unfolding shaded_rows [OF assms(3), of f 0 "chat_feed s chats", symmetric] enumerate_take take_map
    by (simp add: take_map enumerate_take)
qed

text \<open>
  A new message is put on top and every other one keeps its place below it and its background, until
  it is the twentieth.
\<close>

lemma chat_rows_stable:
  assumes "chatSlug msg = ''global''" and "length (chat_feed ''global'' chats) \<le> 20" and "chat_flip ''global'' chats < 2"
  shows "fst (ChatDrawer (addChatMessage msg chats) n :: _ \<times> ('d, chat_event) widget list) =
    take 20 ((shaded 0 ((chat_flip ''global'' chats + 1) mod 2), chat_row msg) # fst (ChatDrawer chats n))"
  unfolding ChatDrawer_def fst_conv by (rule feed_rows_stable [OF assms])

subsection \<open>Scrolling and menus\<close>

text \<open>Scrolling stays within the row, goes in the direction of the button and shows at most four fifths of a page more.\<close>

lemma scroll_bounds:
  assumes "0 \<le> scrollLeft el" "scrollLeft el \<le> real_of_int (scrollWidth el - clientWidth el)" "0 \<le> clientWidth el"
  shows "0 \<le> scrollLeft (scrollByAmount d el)" and "scrollLeft (scrollByAmount d el) \<le> real_of_int (scrollWidth el - clientWidth el)"
    and "if d then scrollLeft el \<le> scrollLeft (scrollByAmount d el) else scrollLeft (scrollByAmount d el) \<le> scrollLeft el"
    and "\<bar>scrollLeft (scrollByAmount d el) - scrollLeft el\<bar> \<le> real_of_int (clientWidth el)"
proof -
  have r: "0 \<le> round_quot (4 * clientWidth el) 5" "round_quot (4 * clientWidth el) 5 \<le> clientWidth el"
    using assms(3) by (auto simp: round_quot_def)
  then have "0 \<le> real_of_int (round_quot (4 * clientWidth el) 5)" "real_of_int (round_quot (4 * clientWidth el) 5) \<le> real_of_int (clientWidth el)"
    by linarith+
  with assms show "0 \<le> scrollLeft (scrollByAmount d el)" "scrollLeft (scrollByAmount d el) \<le> real_of_int (scrollWidth el - clientWidth el)"
    "if d then scrollLeft el \<le> scrollLeft (scrollByAmount d el) else scrollLeft (scrollByAmount d el) \<le> scrollLeft el"
    "\<bar>scrollLeft (scrollByAmount d el) - scrollLeft el\<bar> \<le> real_of_int (clientWidth el)"
    by (auto simp: scrollByAmount_def scroll_amount_def Let_def)
qed

text \<open>An open menu keeps its distance from both edges of a window that is wide enough for it, and always from the left one.\<close>

lemma menu_on_screen:
  "12 \<le> menu_left innerWidth left w" "w + 24 \<le> innerWidth \<Longrightarrow> menu_left innerWidth left w + w \<le> innerWidth - 12"
  by (auto simp: menu_left_def Let_def)

end
