(* ===== verification/Address.thy ===== *)
theory Address
  imports Utils
begin

section \<open>Reading the address\<close>

text \<open>
  The parameters that \<^verbatim>\<open>useSearchParams\<close> reads are those of the query of the address, parsed as the
  language defines it for forms: pairs are separated by ampersands, a plus sign is a space, escapes are bytes and the bytes
  are UTF-8. A string holds characters up to code 255; a query with any other character has no parameters here (\<open>None\<close>).
  What \<^verbatim>\<open>setParams\<close> (\<open>Utils\<close>) writes is read back unchanged.
\<close>

definition hex_val :: "char \<Rightarrow> nat option" where
  "hex_val c =
     (let n = of_char c :: nat
      in if 48 \<le> n \<and> n \<le> 57 then Some (n - 48)
         else if 65 \<le> n \<and> n \<le> 70 then Some (n - 55)
         else if 97 \<le> n \<and> n \<le> 102 then Some (n - 87)
         else None)"

definition utf8 :: "char \<Rightarrow> nat list" where
  "utf8 c = (let n = of_char c in if n < 128 then [n] else [192 + n div 64, 128 + n mod 64])"

fun form_bytes :: "string \<Rightarrow> nat list" where
  "form_bytes [] = []"
| "form_bytes (c # cs) =
     (if c = CHR ''+'' then 32 # form_bytes cs
      else if c = CHR ''%'' then
        (case cs of
           h # l # r \<Rightarrow>
             (case (hex_val h, hex_val l) of
                (Some a, Some b) \<Rightarrow> (16 * a + b) # form_bytes r
              | _ \<Rightarrow> 37 # form_bytes cs)
         | _ \<Rightarrow> 37 # form_bytes cs)
      else utf8 c @ form_bytes cs)"

fun utf8_decode :: "nat list \<Rightarrow> string option" where
  "utf8_decode [] = Some []"
| "utf8_decode (b # bs) =
     (if b < 128 then map_option ((#) (char_of b)) (utf8_decode bs)
      else case bs of
        b2 # r \<Rightarrow>
          if (b = 194 \<or> b = 195) \<and> 128 \<le> b2 \<and> b2 < 192
          then map_option ((#) (char_of ((b - 192) * 64 + (b2 - 128)))) (utf8_decode r)
          else None
      | [] \<Rightarrow> None)"

definition parse_component :: "string \<Rightarrow> string option" where
  "parse_component s = utf8_decode (form_bytes s)"

definition parse_pair :: "string \<Rightarrow> (string \<times> string) option" where
  "parse_pair q =
     (case (parse_component (takeWhile (\<lambda>c. c \<noteq> CHR ''='') q), parse_component (drop 1 (dropWhile (\<lambda>c. c \<noteq> CHR ''='') q))) of
        (Some k, Some v) \<Rightarrow> Some (k, v) | _ \<Rightarrow> None)"

definition params_parse :: "string \<Rightarrow> params option" where
  "params_parse s = those (map parse_pair (filter (\<lambda>q. q \<noteq> []) (split_on (CHR ''&'') s)))"

definition query_params :: "string \<Rightarrow> params option" where
  "query_params href = params_parse (drop 1 (dropWhile (\<lambda>c. c \<noteq> CHR ''?'') href))"

subsection \<open>Characters\<close>

lemma code_parts: "(of_char c :: nat) div 64 < 4" "(of_char c :: nat) mod 64 < 64"
  using nat_of_char_less_256 [of c] by (simp_all add: less_mult_imp_div_less)

lemma code_of: "n < 256 \<Longrightarrow> (of_char (char_of n) :: nat) = n"
  by (simp add: of_char_of take_bit_nat_def)

lemma hex_digit_val: "n < 16 \<Longrightarrow> hex_val (hex_digit n) = Some n"
  by (cases "n < 10") (simp_all add: hex_digit_def hex_val_def of_char_digit_char code_of)

lemma form_bytes_percent: "b < 256 \<Longrightarrow> form_bytes (percent b @ s) = b # form_bytes s"
  by (simp add: percent_def hex_digit_val less_mult_imp_div_less)

lemma form_bytes_char: "form_bytes (encode_char c @ s) = utf8 c @ form_bytes s"
proof -
  let ?n = "of_char c :: nat"
  have plain: "c \<noteq> CHR ''+''" "c \<noteq> CHR ''%''"
    if "is_digit c \<or> (65 \<le> ?n \<and> ?n \<le> 90) \<or> (97 \<le> ?n \<and> ?n \<le> 122) \<or> c \<in> {CHR ''*'', CHR ''-'', CHR ''.'', CHR ''_''}"
    using that by (auto simp: is_digit_def)
  show ?thesis
    using plain code_parts [of c]
    by (auto simp: encode_char_def Let_def utf8_def form_bytes_percent)
qed

lemma utf8_decode_char: "utf8_decode (utf8 c @ bs) = map_option ((#) c) (utf8_decode bs)"
proof (cases "(of_char c :: nat) < 128")
  case False
  let ?n = "of_char c :: nat"
  have "2 \<le> ?n div 64" using False div_le_mono [of 128 ?n 64] by simp
  with code_parts(1) [of c] have "?n div 64 = 2 \<or> ?n div 64 = 3" by linarith
  moreover have "?n = ?n div 64 * 64 + ?n mod 64" by simp
  ultimately show ?thesis using False by (auto simp: utf8_def Let_def)
qed (simp add: utf8_def)

lemma parse_encoded: "parse_component (encode_component s) = Some s"
proof -
  have "form_bytes (encode_component s) = concat (map utf8 s)"
    by (induction s) (simp_all add: encode_component_def form_bytes_char)
  moreover have "utf8_decode (concat (map utf8 s)) = Some s"
    by (induction s) (simp_all add: utf8_decode_char)
  ultimately show ?thesis by (simp add: parse_component_def)
qed

lemma encode_safe: "c \<in> set (encode_component s) \<Longrightarrow> c \<notin> {CHR ''&'', CHR ''='', CHR ''?''}"
proof -
  have hex: "hex_digit n \<notin> {CHR ''&'', CHR ''='', CHR ''?''}" if "n < 16" for n
    using hex_digit_val [OF that] by (auto simp: hex_val_def)
  have pct: "set (percent b) \<inter> {CHR ''&'', CHR ''='', CHR ''?''} = {}" if "b < 256" for b
    using hex [of "b div 16"] hex [of "b mod 16"] that by (auto simp: percent_def less_mult_imp_div_less)
  have "set (encode_char c) \<inter> {CHR ''&'', CHR ''='', CHR ''?''} = {}" for c
  proof -
    have b: "192 + (of_char c :: nat) div 64 < 256" "128 + (of_char c :: nat) mod 64 < 256"
      using code_parts [of c] by simp_all
    show ?thesis
      using pct [OF b(1)] pct [OF b(2)] pct [OF nat_of_char_less_256]
      by (auto simp: encode_char_def Let_def is_digit_def)
  qed
  then show "c \<in> set (encode_component s) \<Longrightarrow> c \<notin> {CHR ''&'', CHR ''='', CHR ''?''}"
    by (fastforce simp: encode_component_def)
qed

subsection \<open>Pairs and queries\<close>

definition encode_pair :: "string \<times> string \<Rightarrow> string" where
  "encode_pair p = encode_component (fst p) @ ''='' @ encode_component (snd p)"

lemma parse_pair_encoded: "parse_pair (encode_pair p) = Some p"
proof -
  let ?k = "encode_component (fst p)" and ?v = "encode_component (snd p)"
  have no: "CHR ''='' \<notin> set ?k" using encode_safe by blast
  have "takeWhile (\<lambda>c. c \<noteq> CHR ''='') (encode_pair p) = ?k" "dropWhile (\<lambda>c. c \<noteq> CHR ''='') (encode_pair p) = CHR ''='' # ?v"
    using no by (auto simp: encode_pair_def takeWhile_append dropWhile_append)
  then show ?thesis by (simp add: parse_pair_def parse_encoded)
qed

lemma encode_pair_facts: "encode_pair p \<noteq> []" "CHR ''&'' \<notin> set (encode_pair p)"
  using encode_safe by (auto simp: encode_pair_def)

lemma split_joined:
  "d \<notin> set p \<Longrightarrow> (\<And>q. q \<in> set qs \<Longrightarrow> d \<notin> set q) \<Longrightarrow> split_on d (p @ concat (map (\<lambda>x. [d] @ x) qs)) = p # qs"
proof (induction qs arbitrary: p)
  case (Cons q qs)
  then show ?case by (simp add: split_on_append)
qed (simp add: split_on_none)

lemma params_roundtrip: "params_parse (params_toString ps) = Some ps"
proof (cases ps)
  case (Cons p qs)
  have "params_toString ps = encode_pair p @ concat (map (\<lambda>x. ''&'' @ x) (map encode_pair qs))"
    unfolding Cons by (simp add: params_toString_def encode_pair_def [abs_def] case_prod_unfold comp_def)
  moreover have "split_on (CHR ''&'') (encode_pair p @ concat (map (\<lambda>x. ''&'' @ x) (map encode_pair qs))) = map encode_pair ps"
    unfolding Cons list.map by (rule split_joined) (use encode_pair_facts(2) in auto)
  moreover have "filter (\<lambda>q. q \<noteq> []) (map encode_pair ps) = map encode_pair ps"
    by (simp add: filter_id_conv encode_pair_facts)
  moreover have "those (map parse_pair (map encode_pair ps)) = Some ps"
    by (induction ps) (simp_all add: parse_pair_encoded)
  ultimately show ?thesis by (simp add: params_parse_def)
qed (simp add: params_toString_def params_parse_def)

lemma query_params_address:
  assumes "CHR ''?'' \<notin> set pathname" and "CHR ''?'' \<notin> set target"
  shows "query_params (if ps = [] then pathname else target @ ''?'' @ params_toString ps) = Some ps"
proof -
  have drop: "dropWhile (\<lambda>c. c \<noteq> CHR ''?'') (p @ q) = dropWhile (\<lambda>c. c \<noteq> CHR ''?'') q" if "CHR ''?'' \<notin> set p" for p q
    using that by (auto simp: dropWhile_append)
  show ?thesis
  proof (cases "ps = []")
    case True
    with drop [OF assms(1), of "[]"] show ?thesis by (simp add: query_params_def params_parse_def del: dropWhile_eq_Nil_conv)
  next
    case False
    with drop [OF assms(2)] show ?thesis by (simp add: query_params_def params_roundtrip)
  qed
qed

lemma setParams_roundtrip_options:
  assumes "CHR ''?'' \<notin> set pathname" and "\<And>p. newPathname opts = Some p \<Longrightarrow> CHR ''?'' \<notin> set p"
  shows "query_params (nav_href (setParams pathname sp updates opts)) =
    Some (fold apply_update updates (if overwriteCurrent opts then [] else sp))"
proof -
  let ?ps = "fold apply_update updates (if overwriteCurrent opts then [] else sp)"
  let ?next = "case newPathname opts of Some p \<Rightarrow> if p = [] then pathname else p | None \<Rightarrow> pathname"
  have href: "nav_href (setParams pathname sp updates opts) = (if ?ps = [] then pathname else ?next @ ''?'' @ params_toString ?ps)"
    by (simp add: setParams_def Let_def params_toString_empty)
  have "CHR ''?'' \<notin> set ?next" using assms by (auto split: option.split)
  then show ?thesis unfolding href by (rule query_params_address [OF assms(1)])
qed



end
