(* ===== verification/Dialogs.thy ===== *)
theory Dialogs
  imports Shell Address
begin

section \<open>Dialogs and drawers\<close>

text \<open>
  The frames that show the current dialog or drawer of the stores
  (\<^verbatim>\<open>src/frontend/seer/src/ui/modal\<close>, \<^verbatim>\<open>ui/drawer\<close>), the dialog with the profile of a user
  (\<^verbatim>\<open>ui/profile/UserInfoModal.tsx\<close>, \<^verbatim>\<open>UserStats.tsx\<close>) and the notice of a placed bet
  (\<^verbatim>\<open>ui/bet/BetSuccessModal.tsx\<close>). The profile dialog is driven by the address: a name of a user is
  put into it, the handler of the address opens the dialog, closing it takes the name out again. The composition of the
  four components is the round trip at the end.
\<close>

subsection \<open>Frames\<close>

type_synonym 'd modal_data = "(string \<times> 'd jv) list"

fun modalComponents :: "modal_type \<Rightarrow> string" where
  "modalComponents ModalAuth = ''AuthModal''"
| "modalComponents ModalProfileCompletion = ''ProfileCompletionModal''"
| "modalComponents ModalChangePassword = ''ChangePasswordModal''"
| "modalComponents ModalSetPassword = ''SetPasswordModal''"
| "modalComponents ModalUser = ''UserInfoModal''"
| "modalComponents ModalBet = ''BetDrawer''"
| "modalComponents ModalBetSuccess = ''BetSuccessDrawer''"

fun drawerComponent :: "drawer_type \<Rightarrow> string" where
  "drawerComponent DrawerChat = ''ChatDrawer''"
| "drawerComponent DrawerBet = ''BetDrawer''"
| "drawerComponent DrawerBetSuccess = ''SuccessBetDrawer''"

datatype frame_event = CloseFrame | DragEnd real real

definition props_of :: "'d modal_data option \<Rightarrow> 'd jv" where
  "props_of d = JObj (case d of None \<Rightarrow> [] | Some kvs \<Rightarrow> kvs)"

text \<open>On a wide screen a dialog has a backdrop and a button that close it, on a narrow one a backdrop and a handle.\<close>

definition ModalDesktop :: "'d modal_data modal_store \<Rightarrow> ('d, frame_event) widget list" where
  "ModalDesktop s =
     (case currentModal s of
        None \<Rightarrow> []
      | Some m \<Rightarrow> [Press False CloseFrame [], Press False CloseFrame [], Part (modalComponents m) (props_of (modalData s))])"

definition ModalMobile :: "'d modal_data modal_store \<Rightarrow> ('d, frame_event) widget list" where
  "ModalMobile s =
     (case currentModal s of
        None \<Rightarrow> []
      | Some m \<Rightarrow> [Press False CloseFrame [], Part (modalComponents m) (props_of (modalData s))])"

definition ModalContainer :: "bool \<Rightarrow> 'd modal_data modal_store \<Rightarrow> ('d, frame_event) widget list" where
  "ModalContainer isMobile s = (if isMobile then ModalMobile s else ModalDesktop s)"

text \<open>Closing calls what the content has registered for it, which only the profile dialog does, and clears the store.\<close>

definition profile_close :: "string \<Rightarrow> params \<Rightarrow> 'd effect list" where
  "profile_close pathname sp = [Navigate (setParams pathname sp [(''show'', UNull), (''username'', UNull)] no_options)]"

definition modal_close :: "string \<Rightarrow> params \<Rightarrow> modal_type option \<Rightarrow> 'd effect list" where
  "modal_close pathname sp current = (if current = Some ModalUser then profile_close pathname sp else []) @ [CloseModal]"

fun frame_step :: "string \<Rightarrow> params \<Rightarrow> modal_type option \<Rightarrow> frame_event \<Rightarrow> 'd effect list" where
  "frame_step pathname sp current CloseFrame = modal_close pathname sp current"
| "frame_step pathname sp current (DragEnd offset velocity) =
     (if offset > 90 \<or> velocity > 200 then modal_close pathname sp current else [])"

definition Drawer :: "'d modal_data drawer_store \<Rightarrow> ('d, 'e) widget list" where
  "Drawer s =
     (case currentDrawer s of None \<Rightarrow> [] | Some d \<Rightarrow> [Part (drawerComponent d) (props_of (drawerData s))])"

definition DrawerHeader :: "string \<Rightarrow> ('d, unit) widget list \<Rightarrow> ('d, unit) widget list \<Rightarrow> ('d, unit) widget list" where
  "DrawerHeader title left right = Text title # left @ right @ [Press False () []]"

definition BetSuccessModal :: "('d, unit) widget list" where
  "BetSuccessModal =
     [Text ''Your bet has been successfully placed.'', Link ''/mybets'' [Button False False () [Text ''View Bets'']]]"

text \<open>Both buttons close the drawer.\<close>

definition drawer_click :: "unit \<Rightarrow> 'd effect list" where
  "drawer_click e = [CloseDrawer]"

subsection \<open>The profile of a user\<close>

text \<open>
  \<^verbatim>\<open>replace(/\B(?=(\d{3})+(?!\d))/g, ",")\<close>: a comma before every digit that follows a character of a word
  and starts a run of digits whose length is a multiple of three.
\<close>

definition word_char :: "char \<Rightarrow> bool" where
  "word_char c \<longleftrightarrow> alnum c \<or> c = CHR ''_''"

fun commas :: "bool \<Rightarrow> string \<Rightarrow> string" where
  "commas after [] = []"
| "commas after (c # cs) =
     (let run = length (takeWhile is_digit (c # cs))
      in (if after \<and> 0 < run \<and> run mod 3 = 0 then [CHR '','', c] else [c]) @ commas (word_char c) cs)"

definition UserStats :: "(int \<Rightarrow> string) \<Rightarrow> 'd dlib \<Rightarrow> int \<Rightarrow> 'd \<Rightarrow> ('d, 'e) widget list" where
  "UserStats day D createdAt totalWagered =
     [Text ''Join date'', Text (day createdAt),
      Text ''Total Wagered'', Text (''$'' @ commas False (toFixed D decimal_conf totalWagered 2))]"

record 'd user_profile =
  up_username :: string
  up_profileImageKey :: "string option"
  up_totalWagered :: 'd
  up_createdAt :: int

text \<open>A render of the dialog: what it shows and what it does, which is to close itself when there is no such user.\<close>

definition UserInfoModal ::
    "(int \<Rightarrow> string) \<Rightarrow> 'd dlib \<Rightarrow> string \<Rightarrow> params \<Rightarrow> 'd user_profile option \<Rightarrow> bool \<Rightarrow>
     ('d, 'e) widget list \<times> 'd effect list" where
  "UserInfoModal day D pathname sp userProfile isPending =
     (case userProfile of
        None \<Rightarrow> ([], if isPending then [] else profile_close pathname sp @ [CloseModal])
      | Some p \<Rightarrow>
          (case params_get sp ''username'' of
             None \<Rightarrow> ([], [])
           | Some u \<Rightarrow>
               if u = [] then ([], [])
               else ([ProfilePicture (up_profileImageKey p), Text (up_username p)] @
                       UserStats day D (up_createdAt p) (up_totalWagered p), [])))"

text \<open>Whether the profile is fetched.\<close>

definition profile_enabled :: "params \<Rightarrow> bool" where
  "profile_enabled sp = (case params_get sp ''username'' of None \<Rightarrow> False | Some u \<Rightarrow> u \<noteq> [])"

subsection \<open>Thousands\<close>

text \<open>The reference: groups of three digits from the right.\<close>

function thousands :: "string \<Rightarrow> string" where
  "thousands s =
     (if length s \<le> 3 then s else thousands (take (length s - 3) s) @ CHR '','' # drop (length s - 3) s)"
  by auto
termination by (relation "measure length") auto

declare thousands.simps [simp del]

text \<open>On digits alone.\<close>

fun digit_commas :: "bool \<Rightarrow> string \<Rightarrow> string" where
  "digit_commas after [] = []"
| "digit_commas after (c # cs) =
     (if after \<and> length (c # cs) mod 3 = 0 then [CHR '','', c] else [c]) @ digit_commas True cs"

lemma digit_word: "is_digit c \<Longrightarrow> word_char c"
  by (simp add: word_char_def alnum_def)

lemma commas_digits:
  assumes "digits ds" and "rest = [] \<or> \<not> is_digit (hd rest)"
  shows "commas after (ds @ rest) = digit_commas after ds @ commas (if ds = [] then after else True) rest"
  using assms(1)
proof (induction ds arbitrary: after)
  case (Cons c ds)
  have run: "takeWhile is_digit ((c # ds) @ rest) = c # ds"
    using Cons.prems assms(2) by (cases rest) (auto simp: digits_def list_all_iff takeWhile_append)
  have "commas (word_char c) (ds @ rest) = digit_commas True ds @ commas True rest"
    using Cons.IH [of True] Cons.prems by (simp add: digit_word split: if_splits)
  then show ?case using run Cons.prems by (simp add: Let_def)
qed simp

lemma digit_commas_append:
  assumes "length ys = 3"
  shows "digit_commas after (xs @ ys) = digit_commas after xs @ digit_commas (if xs = [] then after else True) ys"
proof (induction xs arbitrary: after)
  case (Cons x xs)
  have "length ((x # xs) @ ys) mod 3 = length (x # xs) mod 3" using assms mod_add_self2 [of "length (x # xs)" 3] by (simp del: mod_add_self2)
  moreover have "digit_commas True (xs @ ys) = digit_commas True xs @ digit_commas True ys" using Cons [of True] by simp
  ultimately show ?case by (simp only: append_Cons digit_commas.simps) simp
qed simp

lemma digit_commas_three:
  assumes "length ys = 3"
  shows "digit_commas after ys = (if after then CHR '','' # ys else ys)"
proof -
  obtain a b c where "ys = [a, b, c]" using assms by (auto simp: length_Suc_conv numeral_3_eq_3)
  then show ?thesis by simp
qed

lemma digit_commas_short: "length ds < 3 \<Longrightarrow> digit_commas after ds = ds"
proof (induction ds arbitrary: after)
  case (Cons d ds)
  then have "length (d # ds) mod 3 \<noteq> 0" by simp
  with Cons show ?case by simp
qed simp

lemma digit_commas_thousands: "digit_commas False ds = thousands ds"
proof (induction ds rule: thousands.induct)
  case (1 s)
  show ?case
  proof (cases "length s \<le> 3")
    case True
    then show ?thesis
      using digit_commas_short [of s False] digit_commas_three [of s False] by (subst thousands.simps) (cases "length s = 3", auto)
  next
    case False
    let ?a = "take (length s - 3) s" and ?b = "drop (length s - 3) s"
    have "?a \<noteq> []" "length ?b = 3" using False by auto
    then have "digit_commas False (?a @ ?b) = digit_commas False ?a @ CHR '','' # ?b"
      using digit_commas_append [of ?b False ?a] digit_commas_three [of ?b True] by simp
    with 1 [OF False] False show ?thesis by (subst thousands.simps) simp
  qed
qed

text \<open>
  An amount with two decimals gets a comma between the groups of three digits before the point and none after it.
\<close>

lemma commas_amount:
  assumes "digits i" and "digits f" and "length f = 2"
  shows "commas False (i @ CHR ''.'' # f) = thousands i @ CHR ''.'' # f"
proof -
  have "\<not> is_digit (CHR ''.'')" "\<not> word_char (CHR ''.'')" by (simp_all add: word_char_def alnum_def)
  moreover have "commas False f = f"
    using commas_digits [OF assms(2), of "[]" False] digit_commas_short [of f False] assms(3) by simp
  ultimately show ?thesis
    using commas_digits [OF assms(1), of "CHR ''.'' # f" False] by (simp add: digit_commas_thousands)
qed

subsection \<open>The address and the dialog\<close>

text \<open>
  The application as far as the profile dialog sees it: the parameters of the address and the store of the dialogs.
  A navigation changes the parameters to those of the address it goes to.
\<close>

record 'd app =
  app_params :: params
  app_modal :: "'d modal_data modal_store"

fun apply_effect :: "'d effect \<Rightarrow> 'd app \<Rightarrow> 'd app option" where
  "apply_effect (Navigate n) st = map_option (\<lambda>ps. st\<lparr>app_params := ps\<rparr>) (query_params (nav_href n))"
| "apply_effect (OpenModal m kvs) st =
     Some (st\<lparr>app_modal := openModal (Some m) (if kvs = [] then None else Some kvs) (app_modal st)\<rparr>)"
| "apply_effect CloseModal st = Some (st\<lparr>app_modal := closeModal (app_modal st)\<rparr>)"
| "apply_effect _ st = Some st"

fun apply_effects :: "'d effect list \<Rightarrow> 'd app \<Rightarrow> 'd app option" where
  "apply_effects [] st = Some st"
| "apply_effects (e # es) st = Option.bind (apply_effect e st) (apply_effects es)"

text \<open>The parameters other than the two of the dialog.\<close>

definition other_params :: "params \<Rightarrow> params" where
  "other_params sp = filter (\<lambda>(k, v). k \<noteq> ''show'' \<and> k \<noteq> ''username'') sp"

definition profile_params :: "params \<Rightarrow> string \<Rightarrow> params" where
  "profile_params sp u = fold apply_update [(''show'', UStr ''user''), (''username'', UStr u)] sp"

lemma apply_set_params:
  assumes "CHR ''?'' \<notin> set pathname"
  shows "apply_effect (Navigate (setParams pathname sp us no_options)) st = Some (st\<lparr>app_params := fold apply_update us sp\<rparr>)"
  using setParams_roundtrip_options [OF assms, of no_options sp us] by (simp add: no_options_def)

lemma other_delete:
  "params_delete ''username'' (params_delete ''show'' sp) = other_params sp"
  "other_params (params_delete ''show'' sp) = other_params sp" "other_params (params_delete ''username'' sp) = other_params sp"
  by (auto simp: params_delete_def other_params_def intro!: filter_cong)

lemma other_set: "k = ''show'' \<or> k = ''username'' \<Longrightarrow> other_params (params_set k v sp) = other_params sp"
proof (induction k v sp rule: params_set.induct)
  case (2 k v j w ps)
  then show ?case using other_delete(2,3) [of ps] by (auto simp: other_params_def)
qed (auto simp: other_params_def)

lemma profile_params_facts:
  assumes "u \<noteq> []"
  shows "params_get (profile_params sp u) ''show'' = Some ''user''" "params_get (profile_params sp u) ''username'' = Some u"
    "params_get (profile_params sp u) ''error'' = params_get sp ''error''"
    "fold apply_update [(''show'', UNull), (''username'', UNull)] (profile_params sp u) = other_params sp"
  using assms by (simp_all add: profile_params_def params_get_update)
    (simp add: apply_update_def other_delete other_set)

lemma other_get:
  "params_get (other_params sp) ''show'' = None" "params_get (other_params sp) ''error'' = params_get sp ''error''"
  by (simp_all add: other_delete(1) [symmetric] params_get_delete)

lemma handler_shows_user:
  assumes "\<not> has_error sp" and "params_get sp ''show'' = Some ''user''" and "params_get sp ''username'' = Some u" and "u \<noteq> []"
  shows "URLHandler decode pathname sp = Inr [OpenModal ModalUser [(''username'', JStr u)]]"
  using assms by (auto simp: URLHandler_def has_error_def split: option.split)

lemma handler_quiet:
  assumes "\<not> has_error sp" and "params_get sp ''show'' = None"
  shows "URLHandler decode pathname sp = Inr []"
  using assms by (auto simp: URLHandler_def has_error_def split: option.split)

text \<open>
  C29. The address, its handler, the stores and the dialog work together: a press on a user in the chat or among
  the live bets puts the name into the address, the handler then opens the dialog of that user and the profile is
  fetched; closing the frame, which is also what the dialog itself does when there is no such user, closes the
  dialog and leaves exactly the other parameters of the address, in their order, and the handler does nothing any more.
\<close>

theorem profile_dialog_roundtrip:
  fixes st :: "'d app"
  assumes "CHR ''?'' \<notin> set pathname" and "\<not> has_error (app_params st)" and "u \<noteq> []"
    and "es = snd (chat_step ws pathname (app_params st) (ShowProfile u) draft) \<or>
         es = snd (live_click pathname (app_params st) (ShowBettor u) latest)"
  shows "\<exists>st1 es1 st2 st3.
    apply_effects es st = Some st1 \<and>
    URLHandler decode pathname (app_params st1) = Inr es1 \<and> apply_effects es1 st1 = Some st2 \<and>
    currentModal (app_modal st2) = Some ModalUser \<and> modalData (app_modal st2) = Some [(''username'', JStr u)] \<and>
    profile_enabled (app_params st2) \<and>
    apply_effects (frame_step pathname (app_params st2) (currentModal (app_modal st2)) CloseFrame) st2 = Some st3 \<and>
    snd (UserInfoModal day D pathname (app_params st2) None False) =
      frame_step pathname (app_params st2) (currentModal (app_modal st2)) CloseFrame \<and>
    app_params st3 = other_params (app_params st) \<and> currentModal (app_modal st3) = None \<and>
    URLHandler decode pathname (app_params st3) = Inr ([] :: 'd effect list)"
proof -
  let ?sp = "app_params st" and ?ps = "profile_params (app_params st) u"
  let ?st1 = "st\<lparr>app_params := ?ps\<rparr>"
  let ?st2 = "?st1\<lparr>app_modal := openModal (Some ModalUser) (Some [(''username'', JStr u)]) (app_modal st)\<rparr>"
  let ?st3 = "?st2\<lparr>app_params := other_params ?sp, app_modal := closeModal (app_modal ?st2)\<rparr>"
  note facts = profile_params_facts [OF assms(3), of ?sp]
  have "es = [Navigate (setParams pathname ?sp [(''show'', UStr ''user''), (''username'', UStr u)] no_options)]"
    using assms(4) by auto
  then have 1: "apply_effects es st = Some ?st1"
    by (simp add: apply_set_params [OF assms(1)] profile_params_def del: fold_simps apply_effect.simps(1))
  have "\<not> has_error ?ps" using assms(2) by (simp add: has_error_def facts)
  then have 2: "URLHandler decode pathname ?ps = Inr [OpenModal ModalUser [(''username'', JStr u)] :: 'd effect]"
    by (rule handler_shows_user [OF _ facts(1,2) assms(3)])
  have 3: "apply_effects (frame_step pathname ?ps (Some ModalUser) CloseFrame) ?st2 = Some ?st3"
    by (simp add: modal_close_def profile_close_def apply_set_params [OF assms(1)] facts(4) [simplified] del: apply_effect.simps(1))
  have 4: "URLHandler decode pathname (other_params ?sp) = Inr ([] :: 'd effect list)"
    using assms(2) by (intro handler_quiet) (simp_all add: has_error_def other_get)
  show ?thesis
    by (rule exI [of _ ?st1], rule exI [of _ "[OpenModal ModalUser [(''username'', JStr u)]]"], rule exI [of _ ?st2], rule exI [of _ ?st3])
      (use 1 2 3 4 assms(3) in \<open>simp add: openModal_def closeModal_def profile_enabled_def facts UserInfoModal_def modal_close_def\<close>)
qed

theorem profile_dialog_roundtrip_witness:
  "\<exists>st1 es1 st2 st3.
     apply_effects (snd (chat_step True ''/search'' [(''q'', ''cup'')] (ShowProfile ''ann'') []))
       (\<lparr>app_params = [(''q'', ''cup'')], app_modal = \<lparr>currentModal = None, modalData = None\<rparr>\<rparr> :: real app) = Some st1 \<and>
     URLHandler Inr ''/search'' (app_params st1) = Inr es1 \<and> apply_effects es1 st1 = Some st2 \<and>
     modalData (app_modal st2) = Some [(''username'', JStr ''ann'')] \<and>
     apply_effects (frame_step ''/search'' (app_params st2) (currentModal (app_modal st2)) CloseFrame) st2 = Some st3 \<and>
     app_params st3 = [(''q'', ''cup'')]"
proof -
  let ?st = "\<lparr>app_params = [(''q'', ''cup'')], app_modal = \<lparr>currentModal = None, modalData = None\<rparr>\<rparr> :: real app"
  have hyps: "CHR ''?'' \<notin> set ''/search''" "\<not> has_error (app_params ?st)" "''ann'' \<noteq> []"
    by (simp_all add: has_error_def params_get_def)
  have rest: "other_params (app_params ?st) = [(''q'', ''cup'')]" by (simp add: other_params_def)
  note round = profile_dialog_roundtrip [OF hyps disjI1 [OF refl], where ws = True and draft = "[]" and decode = Inr, unfolded rest]
  from round show ?thesis by simp blast
qed

end
