(* ===== verification/Navigation.thy ===== *)
theory Navigation
  imports Dialogs Browse
begin

section \<open>Navigation and page frames\<close>

text \<open>
  The bar at the top with the menu of the user (\<^verbatim>\<open>src/frontend/seer/src/ui/navbar\<close>, \<^verbatim>\<open>ui/Balance.tsx\<close>),
  the headers above the lists of markets, links that prefetch (\<^verbatim>\<open>ui/PrefetchLink.tsx\<close>), the client of
  the query package (\<^verbatim>\<open>app/ReactQueryProvider.tsx\<close>, \<^verbatim>\<open>lib/queries\<close>), the layouts of the pages, the profile settings and the
  small stateful elements they are made of.
\<close>

subsection \<open>The bar\<close>

datatype bar_event = PressLogin | PressSignup

definition NavbarUnlogged :: "('d, bar_event) widget list" where
  "NavbarUnlogged = [Press False PressLogin [Text ''Log in''], Press False PressSignup [Text ''Sign up'']]"

fun bar_click :: "bar_event \<Rightarrow> 'd effect list" where
  "bar_click PressLogin = [OpenModal ModalAuth [(''selectedTab'', JStr ''login'')]]"
| "bar_click PressSignup = [OpenModal ModalAuth [(''selectedTab'', JStr ''register'')]]"

definition Navbar :: "bool \<Rightarrow> bool \<Rightarrow> ('d, bar_event) widget list" where
  "Navbar user isPending =
     [Link ''/'' [Text ''Seer''], Link ''/markets'' [Text ''Markets''], Link ''/leaderboard'' [Text ''Leaderboard''],
      Part ''SearchBar'' JNull] @
     shown (\<not> isPending \<and> user) [Part ''NavbarLogged'' JNull] @ shown (\<not> isPending \<and> \<not> user) NavbarUnlogged"

definition Balance :: "'d balance option \<Rightarrow> ('d, 'e) widget list" where
  "Balance b = (case b of None \<Rightarrow> [] | Some x \<Rightarrow> [Text ''Balance'', Amount (bal_amount x), Text ''Deposit''])"

definition NavbarLogged :: "bool \<Rightarrow> 'd balance option \<Rightarrow> ('d, unit) widget list" where
  "NavbarLogged user b = shown user (Balance b @ [Press False () [], Part ''UserPart'' JNull])"

definition open_chat :: "'a drawer_store \<Rightarrow> 'a drawer_store" where
  "open_chat s = openDrawer (Some DrawerChat) None s"

definition NavbarMobile :: "('d, 'e) widget list" where
  "NavbarMobile = [Text ''Home'', Text ''Chat'', Text ''Search'', Text ''Notifs'', Link ''/mybets'' [Text ''My Bets'']]"

subsubsection \<open>The menu of the user\<close>

record user_menu =
  menuClicked :: bool
  menuHovering :: bool

datatype menu_cause = MouseEnter | MouseLeave | PressIcon | PressOutside | EscapeKey | PressItem

definition closeMenu :: "user_menu \<Rightarrow> user_menu" where
  "closeMenu st = st\<lparr>menuClicked := False, menuHovering := False\<rparr>"

fun user_menu_step :: "menu_cause \<Rightarrow> user_menu \<Rightarrow> user_menu" where
  "user_menu_step MouseEnter st = st\<lparr>menuHovering := True\<rparr>"
| "user_menu_step MouseLeave st = st\<lparr>menuHovering := False\<rparr>"
| "user_menu_step PressIcon st =
     st\<lparr>menuClicked := \<not> menuClicked st, menuHovering := (menuHovering st \<and> \<not> menuClicked st)\<rparr>"
| "user_menu_step PressOutside st = closeMenu st"
| "user_menu_step EscapeKey st = closeMenu st"
| "user_menu_step PressItem st = closeMenu st"

definition menu_shown :: "user_menu \<Rightarrow> bool" where
  "menu_shown st \<longleftrightarrow> menuHovering st \<or> menuClicked st"

datatype item_event = CloseItem | PressLogout

definition UserPart :: "string option \<Rightarrow> string option \<Rightarrow> user_menu \<Rightarrow> ('d, item_event) widget list" where
  "UserPart username img st =
     shown (menu_shown st)
       ((case username of None \<Rightarrow> [] | Some u \<Rightarrow> [Press False CloseItem [ProfilePicture img, Text u]]) @
        [Press False CloseItem [Text ''Wallet''], Press False CloseItem [Text ''Leaderboard''],
         Link ''/settings/profile'' [Press False CloseItem [Text ''Settings'']],
         Press False CloseItem [Text ''Support''], Press False PressLogout [Text ''Logout'']])"

fun item_click :: "item_event \<Rightarrow> user_menu \<Rightarrow> user_menu \<times> 'd effect list" where
  "item_click CloseItem st = (user_menu_step PressItem st, [])"
| "item_click PressLogout st = (st, [Mutate Logout JNull])"

definition logged_out :: "'d effect list" where
  "logged_out = [ReplaceLocation ''/'']"

subsection \<open>Headers\<close>

text \<open>
  The field of the home page: a short text removes the query from the address at once, a longer one is handed to a
  debounced function (\<open>Later\<close>), which sets the query when the package runs it.
\<close>

datatype header_effect = Go navigation | Later string

datatype header_event = HeaderType string | HeaderSearch | HeaderClear | PickStatus string | PickSort string

fun header_step :: "string \<Rightarrow> params \<Rightarrow> header_event \<Rightarrow> string \<Rightarrow> string \<times> header_effect list" where
  "header_step pathname sp (HeaderType v) st =
     (v, if length v < 3 then [Go (setParams pathname sp [(''q'', UStr [])] no_options)] else [Later v])"
| "header_step pathname sp HeaderSearch st =
     (st, [Go (setParams pathname sp [(''q'', UStr st)]
             \<lparr>opt_replace = True, opt_scroll = None, newPathname = Some ''/search'', overwriteCurrent = True\<rparr>)])"
| "header_step pathname sp HeaderClear st = ([], [Go (setParams pathname sp [(''q'', UStr [])] no_options)])"
| "header_step pathname sp (PickStatus v) st = (st, [Go (setParams pathname sp [(''status'', UStr v)] no_options)])"
| "header_step pathname sp (PickSort v) st = (st, [Go (setParams pathname sp [(''sort'', UStr v)] no_options)])"

definition header_later :: "string \<Rightarrow> params \<Rightarrow> string \<Rightarrow> navigation" where
  "header_later pathname sp v = setParams pathname sp [(''q'', UStr v)] no_options"

definition header_init :: "params \<Rightarrow> string" where
  "header_init sp = (case params_get sp ''q'' of None \<Rightarrow> [] | Some q \<Rightarrow> q)"

definition shown_sort :: "params \<Rightarrow> string" where
  "shown_sort sp = (case params_get sp ''sort'' of None \<Rightarrow> ''trending'' | Some s \<Rightarrow> s)"

definition shown_status :: "params \<Rightarrow> string" where
  "shown_status sp = (case params_get sp ''status'' of None \<Rightarrow> ''active'' | Some s \<Rightarrow> s)"

definition HomeHeader :: "params \<Rightarrow> string \<Rightarrow> ('d, header_event) widget list" where
  "HomeHeader sp st =
     [Press False HeaderSearch [], Field ''Search'' 50 HeaderType] @ shown (st \<noteq> []) [Press False HeaderClear []] @
     [Part ''Status:'' (JStr (shown_status sp)), Part ''Sort:'' (JStr (shown_sort sp))]"

definition SearchHeader :: "params \<Rightarrow> int \<Rightarrow> ('d, header_event) widget list" where
  "SearchHeader sp nbResults =
     [Text (case params_get sp ''q'' of None \<Rightarrow> [] | Some q \<Rightarrow> q),
      Text (show_int nbResults @ '' result'' @ (if nbResults \<noteq> 1 then ''s'' else [])),
      Part ''Status:'' (JStr (shown_status sp)), Part ''Sort:'' (JStr (shown_sort sp))]"

subsection \<open>Queries\<close>

record query_options =
  qo_key :: "key_part list"
  qo_staleTime :: int
  qo_enabled :: bool
  qo_retry :: bool

definition useUserQuery :: query_options where
  "useUserQuery = \<lparr>qo_key = [KStr ''user''], qo_staleTime = 60 * 60 * 1000, qo_enabled = True, qo_retry = False\<rparr>"

definition useBalanceQuery :: "bool \<Rightarrow> currency \<Rightarrow> query_options" where
  "useBalanceQuery user currency =
     \<lparr>qo_key = [KStr ''balance'', KStr (show_currency currency)], qo_staleTime = 60, qo_enabled = user, qo_retry = False\<rparr>"

text \<open>A link that prefetches: on the first of the four events that show the intent to follow it.\<close>

record prefetch_item =
  pf_key :: "key_part list"
  pf_staleTime :: "int option"

datatype prefetch = Prefetch "key_part list" int | PrefetchInfinite "key_part list" int

definition onIntent :: "prefetch_item list \<Rightarrow> prefetch_item list \<Rightarrow> bool \<Rightarrow> bool \<times> prefetch list" where
  "onIntent queries infiniteQueries prefetched =
     (if prefetched then (prefetched, [])
      else (True,
            map (\<lambda>q. Prefetch (pf_key q) (case pf_staleTime q of None \<Rightarrow> 60000 | Some t \<Rightarrow> t)) queries @
            map (\<lambda>q. PrefetchInfinite (pf_key q) 1) infiniteQueries))"

fun intents :: "prefetch_item list \<Rightarrow> prefetch_item list \<Rightarrow> nat \<Rightarrow> bool \<Rightarrow> prefetch list" where
  "intents qs is 0 p = []"
| "intents qs is (Suc n) p = (case onIntent qs is p of (p', fs) \<Rightarrow> fs @ intents qs is n p')"

text \<open>The client: one for the browser, a new one for every call on the server; clients are numbered.\<close>

record query_client =
  qc_retry :: bool
  qc_refetchOnWindowFocus :: bool

definition makeQueryClient :: query_client where
  "makeQueryClient = \<lparr>qc_retry = False, qc_refetchOnWindowFocus = False\<rparr>"

definition retryDelay :: "nat \<Rightarrow> int" where
  "retryDelay attempt = min (500 * 2 ^ attempt) 30000"

definition query_failed :: "'d effect list" where
  "query_failed = [Toast ''Failed to fetch'' False]"

definition getQueryClient :: "bool \<Rightarrow> nat option \<times> nat \<Rightarrow> nat \<times> (nat option \<times> nat)" where
  "getQueryClient isServer st =
     (case st of (browser, made) \<Rightarrow>
        if isServer then (made, (browser, Suc made))
        else case browser of None \<Rightarrow> (made, (Some made, Suc made)) | Some c \<Rightarrow> (c, st))"

subsection \<open>Layouts and settings\<close>

definition MainLayout ::
    "'d fetch \<Rightarrow> string \<Rightarrow> ('d schema \<Rightarrow> 'd jv \<Rightarrow> 'd zresult) \<Rightarrow> ('d, 'e) widget list \<Rightarrow> 'd api_error + ('d, 'e) widget list" where
  "MainLayout fetch base safeParse children =
     bindE (getFeaturedCategories fetch base safeParse) (\<lambda>cats. Inr (children @ [Part ''BetsLive'' JNull]))"

definition MarketsLayout ::
    "'d fetch \<Rightarrow> string \<Rightarrow> ('d schema \<Rightarrow> 'd jv \<Rightarrow> 'd zresult) \<Rightarrow> ('d, 'e) widget list \<Rightarrow> 'd api_error + ('d, 'e) widget list" where
  "MarketsLayout fetch base safeParse children =
     bindE (getFeaturedCategories fetch base safeParse) (\<lambda>cats. Inr (Part ''CategoriesMenu'' cats # children))"

text \<open>What every page is put into, inside of the providers of the query client and of the socket.\<close>

definition RootLayout :: "('d, 'e) widget list \<Rightarrow> ('d, 'e) widget list" where
  "RootLayout children =
     [Part ''URLHandler'' JNull, Part ''ModalContainer'' JNull, Part ''ToastContainer'' JNull, Part ''Navbar'' JNull] @
     children @ [Part ''NavbarMobile'' JNull, Part ''Drawer'' JNull]"

definition settings_tab :: "string option \<Rightarrow> string \<Rightarrow> string \<Rightarrow> ('d, 'e) widget" where
  "settings_tab active segment label = Link segment [Part label (JBool (active = Some segment))]"

definition SettingsLayout :: "string option \<Rightarrow> ('d, 'e) widget list \<Rightarrow> ('d, 'e) widget list" where
  "SettingsLayout active children =
     [Text ''Settings'', settings_tab active ''profile'' ''Profile'', settings_tab active ''security'' ''Security'',
      settings_tab active ''preferences'' ''Preferences'', settings_tab active ''verification'' ''Verification''] @ children"

definition settings_prefetch :: "(string \<times> prefetch_item list) list" where
  "settings_prefetch =
     [(''security'', [\<lparr>pf_key = [KStr ''user'', KStr ''sessions'', KStr ''showInactive'', KBool False], pf_staleTime = None\<rparr>]),
      (''preferences'', [\<lparr>pf_key = [KStr ''user'', KStr ''preferences''], pf_staleTime = None\<rparr>])]"

text \<open>The queries the two pages begin with.\<close>

definition sessions_key :: "bool \<Rightarrow> key_part list" where
  "sessions_key showInactive = [KStr ''user'', KStr ''sessions'', KStr ''showInactive'', KBool showInactive]"

definition preferences_key :: "key_part list" where
  "preferences_key = [KStr ''user'', KStr ''preferences'']"

record 'd account =
  ac_username :: string
  ac_email :: string
  ac_activated :: bool
  ac_profileImageUrl :: "string option"
  ac_createdAt :: int
  ac_totalWagered :: 'd

definition ProfileSettings :: "(int \<Rightarrow> string) \<Rightarrow> 'd dlib \<Rightarrow> 'd account option \<Rightarrow> ('d, 'e) widget list" where
  "ProfileSettings day D user =
     (case user of
        None \<Rightarrow> []
      | Some u \<Rightarrow>
          [Text ''Profile settings'', ProfilePicture (ac_profileImageUrl u), Text (ac_username u),
           Text ''Email'', Text (ac_email u), Part (if ac_activated u then ''CircleCheck'' else ''CircleAlert'') JNull] @
          UserStats day D (ac_createdAt u) (ac_totalWagered u))"

subsection \<open>Small elements\<close>

definition switch_press :: "bool \<Rightarrow> (bool \<Rightarrow> bool) \<Rightarrow> bool \<Rightarrow> bool" where
  "switch_press disableToggle toggle isOn = (if disableToggle then isOn else toggle isOn)"

definition text_overflows :: "int \<Rightarrow> int \<Rightarrow> bool" where
  "text_overflows scroll client = (scroll > client)"

definition password_type :: "bool \<Rightarrow> string" where
  "password_type passwordShown = (if passwordShown then ''text'' else ''password'')"

definition bottom_reached :: "bool \<Rightarrow> 'a list \<Rightarrow> 'a list" where
  "bottom_reached inView onBottomReached = (if inView then onBottomReached else [])"

definition MarketDescription :: "string \<Rightarrow> bool \<Rightarrow> ('d, unit) widget list" where
  "MarketDescription description isExpanded =
     [Part ''ReactMarkdown'' (JStr description), Press False () [Text (if isExpanded then ''Show Less'' else ''Show More'')]]"

definition description_press :: "bool \<Rightarrow> bool" where
  "description_press isExpanded = (\<not> isExpanded)"

text \<open>Odds with the arrow of their last change, which is shown until its animation is complete.\<close>

definition OddDeltaArrow :: "arrow_direction \<Rightarrow> ('d, 'e) widget" where
  "OddDeltaArrow d = Part (case d of ArrowUp \<Rightarrow> ''CaretUpFilled'' | ArrowDown \<Rightarrow> ''CaretDownFilled'') JNull"

definition ArrowOdds :: "'d \<Rightarrow> oddsFormat \<Rightarrow> 'd arrow_state \<Rightarrow> ('d, 'e) widget list" where
  "ArrowOdds prob fmt st = OddsOf prob fmt # (case direction st of None \<Rightarrow> [] | Some d \<Rightarrow> [OddDeltaArrow d])"

text \<open>A message replaces the one that is shown.\<close>

definition toastStyled :: "string \<Rightarrow> bool \<Rightarrow> (string \<times> bool) list \<Rightarrow> (string \<times> bool) list" where
  "toastStyled message success visible = [(message, success)]"

subsection \<open>Properties of the parts\<close>

text \<open>However often the pointer comes back, a link prefetches once.\<close>

lemma prefetch_once: "n \<ge> 1 \<Longrightarrow> intents qs is n False = snd (onIntent qs is False)"
proof -
  have "intents qs is n True = []" for n by (induction n) (simp_all add: onIntent_def)
  then show "n \<ge> 1 \<Longrightarrow> intents qs is n False = snd (onIntent qs is False)"
    by (cases n) (simp_all add: onIntent_def)
qed

text \<open>The links of the settings prefetch the queries their pages make first, for a minute.\<close>

lemma settings_links_prefetch:
  "map (\<lambda>(segment, qs). (segment, intents qs [] 1 False)) settings_prefetch =
     [(''security'', [Prefetch (sessions_key False) 60000]), (''preferences'', [Prefetch preferences_key 60000])]"
  by (simp add: settings_prefetch_def onIntent_def sessions_key_def preferences_key_def)

text \<open>In the browser every call returns the same client, on the server no two calls do.\<close>

lemma browser_client_shared:
  "getQueryClient False st = (c, st') \<Longrightarrow> getQueryClient False st' = (c, st')"
  by (auto simp: getQueryClient_def split: prod.splits option.splits)

lemma server_client_fresh:
  "getQueryClient True st = (c, st') \<Longrightarrow> fst (getQueryClient True st') \<noteq> c \<and> fst st' = fst st"
  by (auto simp: getQueryClient_def split: prod.splits)

lemma retryDelay_bounds: "500 \<le> retryDelay n" "retryDelay n \<le> 30000"
  by (simp_all add: retryDelay_def)

text \<open>A second press on the icon closes the menu even under the pointer; leaving and entering opens it again.\<close>

lemma menu_second_press:
  "menuClicked st \<Longrightarrow> \<not> menu_shown (user_menu_step PressIcon st)"
  "menu_shown (user_menu_step MouseEnter st)"
  "cause \<in> {PressOutside, EscapeKey, PressItem} \<Longrightarrow> \<not> menu_shown (user_menu_step cause st)"
  by (auto simp: menu_shown_def closeMenu_def)

text \<open>Logging out reaches the server and leaves the application, from the menu only.\<close>

lemma logout_only:
  "(op, v) \<in> set (requests (snd (item_click e st :: user_menu \<times> 'd effect list))) \<Longrightarrow> e = PressLogout \<and> op = Logout"
  by (cases e) auto

text \<open>Every page below the main layout fails when the categories cannot be fetched, although the layout does not use them.\<close>

lemma main_layout_fails:
  "getFeaturedCategories fetch base safeParse = Inl e \<Longrightarrow> MainLayout fetch base safeParse children = Inl e"
  by (simp add: MainLayout_def)

text \<open>
  A text that is shortened before the debounced function ran: the query leaves the address at once, and comes back
  with the longer text when the function runs, although the field no longer shows it.
\<close>

lemma header_query_returns:
  assumes "length v \<ge> 3" and "length w < 3" and "CHR ''?'' \<notin> set pathname"
  shows "header_step pathname sp (HeaderType v) st = (v, [Later v])"
    and "\<exists>n. header_step pathname sp (HeaderType w) v = (w, [Go n]) \<and>
      query_params (nav_href n) = Some (params_delete ''q'' sp) \<and>
      query_params (nav_href (header_later pathname (params_delete ''q'' sp) v)) = Some (params_set ''q'' v (params_delete ''q'' sp))"
proof -
  show "header_step pathname sp (HeaderType v) st = (v, [Later v])" using assms(1) by auto
  have "v \<noteq> []" using assms(1) by auto
  then show "\<exists>n. header_step pathname sp (HeaderType w) v = (w, [Go n]) \<and>
      query_params (nav_href n) = Some (params_delete ''q'' sp) \<and>
      query_params (nav_href (header_later pathname (params_delete ''q'' sp) v)) = Some (params_set ''q'' v (params_delete ''q'' sp))"
    using assms(2) setParams_roundtrip_options [OF assms(3), of no_options]
    by (simp add: header_later_def no_options_def apply_update_def)
qed

end
