(* ===== verification/Delivery.thy ===== *)
theory Delivery
  imports WsProvider Validation
begin

section \<open>From the text of a frame to the state\<close>

text \<open>
  The path of live data as a whole: a frame of the socket is split into lines, each line is parsed and validated with the
  schemas of \<^verbatim>\<open>src/frontend/seer/src/socket/messages.ts\<close> (\<open>Schemas\<close>), dispatched by the client
  (\<open>Socket\<close>) and handled by the provider (\<open>WsProvider\<close>), which updates the query cache and the stores. Here
  the client runs on the schemas of the program, over any implementation of the schema package that behaves as documented.
  What the components do together is given by a specification that knows neither lines nor
  schemas nor handlers: a table of topics and what a message does to the data that is shown. The implementation refines it.
\<close>

subsection \<open>Validated payloads as records\<close>

fun payload_schema :: "'d decs \<Rightarrow> ws_schema \<Rightarrow> 'd schema" where
  "payload_schema X SBalanceUpdate = BalanceUpdateSchema X"
| "payload_schema X SMarketUpdate = MarketUpdateSchema X"
| "payload_schema X SBetUpdate = BetUpdateSchema X"
| "payload_schema X SChatMessage = ChatMessageSchema"
| "payload_schema X SOnlineUpdate = OnlineUpdateSchema"
| "payload_schema X SEmptyPayload = EmptyPayloadSchema"

fun as_num :: "'d jv \<Rightarrow> num option" where
  "as_num (JNum x) = Some x"
| "as_num _ = None"

definition decode_balance_update :: "'d jv \<Rightarrow> 'd balance_update option" where
  "decode_balance_update v = do {
     c \<leftarrow> as_str (obj_get ''currency'' v);
     b \<leftarrow> as_dec (obj_get ''balance'' v);
     n \<leftarrow> as_int (obj_get ''version'' v);
     Some \<lparr>bu_currency = c, bu_balance = b, bu_version = n\<rparr> }"

definition decode_outcome_update :: "'d jv \<Rightarrow> 'd outcome_update option" where
  "decode_outcome_update v = do {
     i \<leftarrow> as_int (obj_get ''id'' v);
     q \<leftarrow> as_dec (obj_get ''quantity'' v);
     Some \<lparr>ou_id = i, ou_quantity = q\<rparr> }"

definition decode_market_update :: "'d jv \<Rightarrow> 'd market_update option" where
  "decode_market_update v = do {
     i \<leftarrow> as_str (obj_get ''marketID'' v);
     n \<leftarrow> as_int (obj_get ''marketVersion'' v);
     t \<leftarrow> as_dec (obj_get ''totalVolume'' v);
     os \<leftarrow> as_arr decode_outcome_update (obj_get ''outcomes'' v);
     Some \<lparr>mu_marketID = i, mu_marketVersion = n, mu_totalVolume = t, mu_outcomes = os\<rparr> }"

definition decode_ws_user :: "'d jv \<Rightarrow> ws_user option" where
  "decode_ws_user v = do {
     i \<leftarrow> as_str (obj_get ''id'' v);
     u \<leftarrow> as_str (obj_get ''username'' v);
     k \<leftarrow> as_opt as_str (obj_get ''profileImageKey'' v);
     Some \<lparr>wu_id = i, wu_username = u, wu_profileImageKey = k\<rparr> }"

definition decode_chat_message :: "'d jv \<Rightarrow> chat_message option" where
  "decode_chat_message v = do {
     i \<leftarrow> as_str (obj_get ''id'' v);
     s \<leftarrow> as_str (obj_get ''chatSlug'' v);
     c \<leftarrow> as_str (obj_get ''content'' v);
     t \<leftarrow> as_date (obj_get ''createdAt'' v);
     k \<leftarrow> as_enum [(''user'', ChatUser), (''system'', ChatSystem)] (obj_get ''type'' v);
     u \<leftarrow> decode_ws_user (obj_get ''user'' v);
     Some \<lparr>cm_id = i, chatSlug = s, cm_content = c, cm_createdAt = t, cm_type = k, cm_user = u\<rparr> }"

definition decode_bet_update :: "'d jv \<Rightarrow> 'd bet_update option" where
  "decode_bet_update v = do {
     i \<leftarrow> as_str (obj_get ''id'' v);
     m \<leftarrow> as_str (obj_get ''marketID'' v);
     n \<leftarrow> as_str (obj_get ''marketName'' v);
     s \<leftarrow> as_str (obj_get ''marketSlug'' v);
     oi \<leftarrow> as_num (obj_get ''outcomeId'' v);
     on \<leftarrow> as_str (obj_get ''outcomeName'' v);
     w \<leftarrow> as_dec (obj_get ''wager'' v);
     p \<leftarrow> as_dec (obj_get ''payout'' v);
     a \<leftarrow> as_dec (obj_get ''avgPrice'' v);
     t \<leftarrow> as_date (obj_get ''placedAt'' v);
     u \<leftarrow> as_opt decode_ws_user (obj_get ''user'' v);
     Some \<lparr>bup_id = i, bup_marketID = m, bup_marketName = n, bup_marketSlug = s, bup_outcomeId = oi, bup_outcomeName = on,
           bup_wager = w, bup_payout = p, bup_avgPrice = a, bup_placedAt = t, bup_user = u\<rparr> }"

fun decode_payload :: "ws_schema \<Rightarrow> 'd jv \<Rightarrow> 'd payload option" where
  "decode_payload SBalanceUpdate v = map_option PBalance (decode_balance_update v)"
| "decode_payload SMarketUpdate v = map_option PMarket (decode_market_update v)"
| "decode_payload SBetUpdate v = map_option PBet (decode_bet_update v)"
| "decode_payload SChatMessage v = map_option PChat (decode_chat_message v)"
| "decode_payload SOnlineUpdate v = map_option (\<lambda>n. POnline \<lparr>usersOnlineCount = n\<rparr>) (as_int (obj_get ''usersOnlineCount'' v))"
| "decode_payload SEmptyPayload v = Some PEmpty"

text \<open>The wire of the program: JSON of the language, the envelope and the payloads by their schemas.\<close>

definition program_wire ::
    "(string \<Rightarrow> 'd jv option) \<Rightarrow> ('d jv ws_message \<Rightarrow> string) \<Rightarrow> ('d schema \<Rightarrow> 'd jv \<Rightarrow> 'd zresult) \<Rightarrow> 'd decs \<Rightarrow>
     ('d jv, 'd payload) wire" where
  "program_wire parse stringify safeParse X =
     \<lparr>JSON_parse = parse, JSON_stringify = stringify,
      parse_envelope = (\<lambda>j. case safeParse WsMessageSchema j of
          Inl is \<Rightarrow> None
        | Inr r \<Rightarrow> map_option (\<lambda>t. \<lparr>ws_type = t,
            ws_payload = (if obj_get ''payload'' r = JUndef then None else Some (obj_get ''payload'' r))\<rparr>)
            (as_str (obj_get ''type'' r))),
      parse_payload = (\<lambda>sch p. case safeParse (payload_schema X sch) (case p of None \<Rightarrow> JUndef | Some v \<Rightarrow> v) of
          Inl is \<Rightarrow> None
        | Inr r \<Rightarrow> decode_payload sch r)\<rparr>"

text \<open>Nothing is lost between validation and the records: whatever passes a schema is a payload.\<close>

context zod
begin

lemma num_type: "safeParse (ZNumber ns) v = Inr r \<Longrightarrow> defined (as_num r)"
  by (auto simp: ok_iff)

lemma ws_user_type: "safeParse WsUserSchema v = Inr r \<Longrightarrow> defined (decode_ws_user r)"
proof -
  assume "safeParse WsUserSchema v = Inr r"
  note f = fields_ok [OF this [unfolded WsUserSchema_def], simplified]
  have "defined (as_opt as_str (obj_get ''profileImageKey'' r))"
    using f by (intro opt_type [of "ZString []" "obj_get ''profileImageKey'' v"]) (auto dest: str_type)
  with f show ?thesis by (auto simp: decode_ws_user_def dest!: field_types)
qed

lemma outcome_update_type: "safeParse (OutcomeUpdateSchema X) v = Inr r \<Longrightarrow> defined (decode_outcome_update r)"
proof -
  assume "safeParse (OutcomeUpdateSchema X) v = Inr r"
  from fields_ok [OF this [unfolded OutcomeUpdateSchema_def]] show ?thesis
    by (auto simp: decode_outcome_update_def dest!: field_types)
qed

lemma market_update_type: "safeParse (MarketUpdateSchema X) v = Inr r \<Longrightarrow> defined (decode_market_update r)"
proof -
  assume "safeParse (MarketUpdateSchema X) v = Inr r"
  note f = fields_ok [OF this [unfolded MarketUpdateSchema_def], simplified]
  have "defined (as_arr decode_outcome_update (obj_get ''outcomes'' r))"
    using f by (intro arr_type [of "OutcomeUpdateSchema X" "obj_get ''outcomes'' v" _ "\<lambda>_. True"])
      (auto intro: outcome_update_type simp: list_all_iff)
  with f show ?thesis by (auto simp: decode_market_update_def dest!: field_types)
qed

lemma chat_message_type: "safeParse ChatMessageSchema v = Inr r \<Longrightarrow> defined (decode_chat_message r)"
proof -
  assume "safeParse ChatMessageSchema v = Inr r"
  note f = fields_ok [OF this [unfolded ChatMessageSchema_def], simplified]
  have "defined (as_enum [(''user'', ChatUser), (''system'', ChatSystem)] (obj_get ''type'' r))"
    using f by (intro enum_type [of "[''user'', ''system'']" "obj_get ''type'' v"]) auto
  with f show ?thesis by (auto simp: decode_chat_message_def dest!: field_types ws_user_type)
qed

lemma bet_update_type: "safeParse (BetUpdateSchema X) v = Inr r \<Longrightarrow> defined (decode_bet_update r)"
proof -
  assume "safeParse (BetUpdateSchema X) v = Inr r"
  note f = fields_ok [OF this [unfolded BetUpdateSchema_def], simplified]
  have "defined (as_opt decode_ws_user (obj_get ''user'' r))"
    using f by (intro opt_type [of WsUserSchema "obj_get ''user'' v"]) (auto dest: ws_user_type)
  with f show ?thesis by (auto simp: decode_bet_update_def dest!: field_types num_type)
qed

lemma payload_type: "safeParse (payload_schema X sch) v = Inr r \<Longrightarrow> defined (decode_payload sch r)"
proof (cases sch)
  case SBalanceUpdate
  moreover assume "safeParse (payload_schema X sch) v = Inr r"
  ultimately have "safeParse (BalanceUpdateSchema X) v = Inr r" by simp
  from fields_ok [OF this [unfolded BalanceUpdateSchema_def]] SBalanceUpdate show ?thesis
    by (auto simp: decode_balance_update_def dest!: field_types)
next
  case SOnlineUpdate
  moreover assume "safeParse (payload_schema X sch) v = Inr r"
  ultimately have "safeParse OnlineUpdateSchema v = Inr r" by simp
  from fields_ok [OF this [unfolded OnlineUpdateSchema_def]] SOnlineUpdate show ?thesis
    by (auto dest!: field_types)
qed (auto dest: market_update_type bet_update_type chat_message_type)

end

subsection \<open>Delivering frames\<close>

text \<open>
  The calls a frame causes are made in order, the \<open>i\<close>-th one at the time \<open>clock i\<close>. A handler that throws ends the
  processing of its frame; the browser reports the exception and goes on with the next frame.
\<close>

fun run_calls ::
    "fpu \<Rightarrow> 'd dlib \<Rightarrow> ('m, string, 'd market_view) qclient \<Rightarrow> ('b, string, 'd balance) qclient \<Rightarrow> (nat \<Rightarrow> int) \<Rightarrow>
     (provider_handler \<times> 'd payload) list \<Rightarrow> ('m, 'b, 'd) live_state \<Rightarrow> ('m, 'b, 'd) live_state \<times> js_error list" where
  "run_calls F D QM QB clock [] s = (s, [])"
| "run_calls F D QM QB clock ((h, p) # cs) s =
     (case run_handler F D QM QB (clock 0) h p s of
        Inl e \<Rightarrow> (s, [e])
      | Inr s' \<Rightarrow> run_calls F D QM QB (\<lambda>i. clock (Suc i)) cs s')"

fun deliver ::
    "fpu \<Rightarrow> 'd dlib \<Rightarrow> ('m, string, 'd market_view) qclient \<Rightarrow> ('b, string, 'd balance) qclient \<Rightarrow>
     ('j, 'd payload) wire \<Rightarrow> provider_handler wsclient \<Rightarrow> ((nat \<Rightarrow> int) \<times> string) list \<Rightarrow>
     ('m, 'b, 'd) live_state \<Rightarrow> ('m, 'b, 'd) live_state \<times> js_error list" where
  "deliver F D QM QB W c [] s = (s, [])"
| "deliver F D QM QB W c ((clock, text) # fs) s =
     (case run_calls F D QM QB clock (handleMessage W c text) s of
        (s1, es1) \<Rightarrow> (case deliver F D QM QB W c fs s1 of (s2, es2) \<Rightarrow> (s2, es1 @ es2)))"

subsection \<open>The specification\<close>

text \<open>
  What is known of the world: of a market its version, volume and the quantities of its outcomes, the balances, the
  newest bets, the newest messages of every chat and the number of users.
\<close>

record 'd live_view =
  lv_market :: "string \<rightharpoonup> int \<times> 'd \<times> (int \<times> 'd) multiset"
  lv_balance :: "string \<rightharpoonup> 'd balance"
  lv_latest :: "'d bet_update list"
  lv_high :: "'d bet_update list"
  lv_chat :: "string \<Rightarrow> chat_message list"
  lv_online :: int

datatype 'd news =
    NMarket "'d market_update"
  | NBalance "'d balance_update"
  | NLatest "'d bet_update"
  | NHigh "'d bet_update"
  | NChat chat_message
  | NOnline int

text \<open>The newer version wins; lists keep the newest entries.\<close>

definition newer_market :: "'d market_update \<Rightarrow> int \<times> 'd \<times> (int \<times> 'd) multiset \<Rightarrow> int \<times> 'd \<times> (int \<times> 'd) multiset" where
  "newer_market u m =
     (if fst m < mu_marketVersion u
      then (mu_marketVersion u, mu_totalVolume u, image_mset (revised u) (snd (snd m))) else m)"

definition newer_balance :: "'d balance_update \<Rightarrow> 'd balance \<Rightarrow> 'd balance" where
  "newer_balance u b =
     (if bal_version b < bu_version u then b\<lparr>bal_amount := bu_balance u, bal_version := bu_version u\<rparr> else b)"

fun learn :: "'d news \<Rightarrow> 'd live_view \<Rightarrow> 'd live_view" where
  "learn (NMarket u) v = v\<lparr>lv_market := (lv_market v)(mu_marketID u := map_option (newer_market u) (lv_market v (mu_marketID u)))\<rparr>"
| "learn (NBalance u) v = v\<lparr>lv_balance := (lv_balance v)(bu_currency u := map_option (newer_balance u) (lv_balance v (bu_currency u)))\<rparr>"
| "learn (NLatest b) v = v\<lparr>lv_latest := take 10 (b # lv_latest v)\<rparr>"
| "learn (NHigh b) v = v\<lparr>lv_high := take 10 (b # lv_high v)\<rparr>"
| "learn (NChat m) v = v\<lparr>lv_chat := (lv_chat v)(chatSlug m := take 20 (m # lv_chat v (chatSlug m)))\<rparr>"
| "learn (NOnline n) v = v\<lparr>lv_online := n\<rparr>"

text \<open>The topics and what they carry; any other type, and a payload that is not valid for its topic, is no news.\<close>

definition topics :: "(string \<times> ws_schema) list" where
  "topics =
     [(''markets_update'', SMarketUpdate), (''balance'', SBalanceUpdate), (''bets:latest'', SBetUpdate), (''bets:high'', SBetUpdate),
      (''chat'', SChatMessage), (''online'', SOnlineUpdate)]"

fun news_of :: "string \<Rightarrow> 'd payload \<Rightarrow> 'd news list" where
  "news_of t (PMarket u) = [NMarket u]"
| "news_of t (PBalance u) = [NBalance u]"
| "news_of t (PBet b) = [if t = ''bets:latest'' then NLatest b else NHigh b]"
| "news_of t (PChat m) = [NChat m]"
| "news_of t (POnline u) = [NOnline (usersOnlineCount u)]"
| "news_of t PEmpty = []"

definition line_news :: "(string \<Rightarrow> 'd jv option) \<Rightarrow> ('d schema \<Rightarrow> 'd jv \<Rightarrow> 'd zresult) \<Rightarrow> 'd decs \<Rightarrow> string \<Rightarrow> 'd news list" where
  "line_news parse safeParse X line =
     (case parse line of
        None \<Rightarrow> []
      | Some j \<Rightarrow> (case safeParse WsMessageSchema j of
          Inl is \<Rightarrow> []
        | Inr env \<Rightarrow> (case as_str (obj_get ''type'' env) of
            None \<Rightarrow> []
          | Some t \<Rightarrow> (case map_of topics t of
              None \<Rightarrow> []
            | Some sch \<Rightarrow> (case safeParse (payload_schema X sch) (obj_get ''payload'' env) of
                Inl is \<Rightarrow> []
              | Inr r \<Rightarrow> (case decode_payload sch r of None \<Rightarrow> [] | Some p \<Rightarrow> news_of t p))))))"

definition frame_news :: "(string \<Rightarrow> 'd jv option) \<Rightarrow> ('d schema \<Rightarrow> 'd jv \<Rightarrow> 'd zresult) \<Rightarrow> 'd decs \<Rightarrow> string \<Rightarrow> 'd news list" where
  "frame_news parse safeParse X text = concat (map (line_news parse safeParse X) (message_lines text))"

subsection \<open>The refinement\<close>

definition market_abs :: "'d market_view \<Rightarrow> int \<times> 'd \<times> (int \<times> 'd) multiset" where
  "market_abs m = (m_version m, totalVolume m, holdings m)"

definition view_of ::
    "('m, string, 'd market_view) qclient \<Rightarrow> ('b, string, 'd balance) qclient \<Rightarrow> ('m, 'b, 'd) live_state \<Rightarrow> 'd live_view" where
  "view_of QM QB s =
     \<lparr>lv_market = (\<lambda>k. map_option market_abs (getQueryData QM (market_cache s) k)),
      lv_balance = getQueryData QB (balance_cache s),
      lv_latest = latestBets (bet_feed s), lv_high = highBets (bet_feed s),
      lv_chat = (\<lambda>slug. chat_feed slug (chats s)), lv_online = onlineCount (online s)\<rparr>"

text \<open>The invariant: a market in the cache has outcomes, as validation demands, and no chat is longer than its limit.\<close>

definition healthy :: "('m, string, 'd market_view) qclient \<Rightarrow> ('m, 'b, 'd) live_state \<Rightarrow> bool" where
  "healthy QM s \<longleftrightarrow>
     (\<forall>k m. getQueryData QM (market_cache s) k = Some m \<longrightarrow> outcomes m \<noteq> []) \<and>
     (\<forall>slug. length (chat_feed slug (chats s)) \<le> MAX_MESSAGES_PER_CHAT)"

lemma market_updater_abs:
  assumes "outcomes m \<noteq> []"
  obtains m' where "market_updater F D now u (Some m) = Inr (Some m')" "outcomes m' \<noteq> []"
    "market_abs m' = newer_market u (market_abs m)"
proof (cases "m_version m < mu_marketVersion u")
  case True
  obtain m' where "market_updater F D now u (Some m) = Inr (Some m')" "m_version m' = mu_marketVersion u"
    "totalVolume m' = mu_totalVolume u" "outcomes m' \<noteq> []" "holdings m' = image_mset (revised u) (holdings m)"
    by (rule market_updater_applies [OF assms True])
  with True that show thesis by (simp add: market_abs_def newer_market_def)
next
  case False
  with market_updater_older [of u m F D now] that [of m] assms show thesis
    by (simp add: market_abs_def newer_market_def)
qed

lemma balance_updater_abs: "balance_updater u b = map_option (newer_balance u) b"
  by (simp add: balance_updater_def newer_balance_def split: option.split)

text \<open>One call of a handler on a payload it expects.\<close>

lemma market_call:
  assumes "query_cache QM" and "healthy QM s"
  shows "\<exists>s'. run_handler F D QM QB now HMarkets (PMarket u) s = Inr s' \<and> healthy QM s' \<and>
    view_of QM QB s' = learn (NMarket u) (view_of QM QB s)"
proof (cases "getQueryData QM (market_cache s) (mu_marketID u)")
  case None
  let ?s = "s\<lparr>market_cache := storeQueryData QM (market_cache s) (mu_marketID u) None\<rparr>"
  have "run_handler F D QM QB now HMarkets (PMarket u) s = Inr ?s"
    using None by (simp add: setQueryData_def market_updater_def)
  moreover have get: "getQueryData QM (market_cache ?s) k = getQueryData QM (market_cache s) k" for k
    by (simp add: query_cache.get_store [OF assms(1)])
  ultimately show ?thesis using assms(2) None by (auto simp: healthy_def view_of_def fun_eq_iff)
next
  case (Some m)
  with assms(2) have "outcomes m \<noteq> []" by (auto simp: healthy_def)
  then obtain m' where m': "market_updater F D now u (Some m) = Inr (Some m')" "outcomes m' \<noteq> []"
    "market_abs m' = newer_market u (market_abs m)"
    by (rule market_updater_abs)
  let ?s = "s\<lparr>market_cache := storeQueryData QM (market_cache s) (mu_marketID u) (Some m')\<rparr>"
  have "run_handler F D QM QB now HMarkets (PMarket u) s = Inr ?s"
    using Some m'(1) by (simp add: setQueryData_def)
  moreover have get: "getQueryData QM (market_cache ?s) k = (if k = mu_marketID u then Some m' else getQueryData QM (market_cache s) k)" for k
    by (simp add: query_cache.get_store [OF assms(1)])
  ultimately show ?thesis using assms(2) Some m'(2,3) by (auto simp: healthy_def view_of_def fun_eq_iff)
qed

lemma balance_call:
  assumes "query_cache QB" and "healthy QM s"
  shows "\<exists>s'. run_handler F D QM QB now HBalance (PBalance u) s = Inr s' \<and> healthy QM s' \<and>
    view_of QM QB s' = learn (NBalance u) (view_of QM QB s)"
  using assms(2)
  by (auto simp: setQueryData_def balance_updater_abs healthy_def view_of_def fun_eq_iff query_cache.get_store [OF assms(1)]
      split: option.split)

lemma chat_call:
  assumes "healthy QM s"
  shows "healthy QM (s\<lparr>chats := addChatMessage m (chats s)\<rparr>) \<and>
    view_of QM QB (s\<lparr>chats := addChatMessage m (chats s)\<rparr>) = learn (NChat m) (view_of QM QB s)"
proof -
  have len: "length (chat_feed slug (chats s)) \<le> MAX_MESSAGES_PER_CHAT" for slug using assms by (simp add: healthy_def)
  have feed: "chat_feed slug (addChatMessage m (chats s)) =
      (if slug = chatSlug m then take 20 (m # chat_feed slug (chats s)) else chat_feed slug (chats s))" for slug
    using chat.feed_add [OF len, of slug m m] chat.feed_skip [of slug m "chats s"]
    by (auto simp: chat_entry_def MAX_MESSAGES_PER_CHAT_def)
  show ?thesis using assms by (auto simp: healthy_def view_of_def fun_eq_iff feed MAX_MESSAGES_PER_CHAT_def)
qed

lemma bet_call:
  assumes "healthy QM s"
  shows "healthy QM (s\<lparr>bet_feed := addLatestBet b (bet_feed s)\<rparr>) \<and>
      view_of QM QB (s\<lparr>bet_feed := addLatestBet b (bet_feed s)\<rparr>) = learn (NLatest b) (view_of QM QB s)"
    and "healthy QM (s\<lparr>bet_feed := addHighBet b (bet_feed s)\<rparr>) \<and>
      view_of QM QB (s\<lparr>bet_feed := addHighBet b (bet_feed s)\<rparr>) = learn (NHigh b) (view_of QM QB s)"
  using assms by (simp_all add: healthy_def view_of_def addLatestBet_def addHighBet_def slice2_def)

lemma call_refines:
  assumes "query_cache QM" and "query_cache QB" and "healthy QM s"
    and "map_of provider_types t = Some h" and "expects h p"
  shows "\<exists>s'. run_handler F D QM QB now h p s = Inr s' \<and> healthy QM s' \<and>
    view_of QM QB s' = fold learn (news_of t p) (view_of QM QB s)"
  using assms(5)
proof (cases rule: expects.elims(2))
  case (1 u)
  with market_call [OF assms(1,3)] show ?thesis by simp
next
  case (2 u)
  with balance_call [OF assms(2,3)] show ?thesis by simp
next
  case (3 b)
  with assms(4) have "t = ''bets:latest''" by (auto simp: provider_types_def split: if_splits)
  with 3 bet_call(1) [OF assms(3)] show ?thesis by simp
next
  case (4 b)
  with assms(4) have "t = ''bets:high''" by (auto simp: provider_types_def split: if_splits)
  with 4 bet_call(2) [OF assms(3)] show ?thesis by simp
next
  case (5 m)
  with chat_call [OF assms(3)] show ?thesis by simp
next
  case (6 u)
  with assms(3) show ?thesis by (simp add: healthy_def view_of_def updateOnlineCount_def)
qed

text \<open>The tables of the client amount to the topics.\<close>

lemma topics_table:
  "map_of topics t = (case map_of provider_types t of None \<Rightarrow> None | Some h \<Rightarrow> map_of registered_schemas (hd (split_on (CHR '':'') t)))"
proof (cases "t \<in> fst ` set topics")
  case True
  then have "t \<in> {''markets_update'', ''balance'', ''bets:latest'', ''bets:high'', ''chat'', ''online''}"
    by (simp add: topics_def)
  then show ?thesis by (elim insertE emptyE) (simp_all only:, code_simp+)
next
  case False
  then have "map_of topics t = None" by (simp add: map_of_eq_None_iff)
  moreover have "map_of provider_types t = None"
    using False by (auto simp: map_of_eq_None_iff provider_types_def topics_def)
  ultimately show ?thesis by simp
qed

lemma decoded_expected:
  assumes "map_of provider_types t = Some h" and "map_of topics t = Some sch" and "decode_payload sch r = Some p"
  shows "expects h p"
  using assms by (auto simp: provider_types_def topics_def split: if_splits)

lemma line_refines:
  assumes "zod E safeParse" and "schemas c = registered_schemas"
    and "\<And>t. handlers_of c t = (case map_of provider_types t of None \<Rightarrow> [] | Some h \<Rightarrow> [h])"
  shows "handle_line (program_wire parse stringify safeParse X) c line = [] \<and> line_news parse safeParse X line = [] \<or>
    (\<exists>t h p. handle_line (program_wire parse stringify safeParse X) c line = [(h, p)] \<and> map_of provider_types t = Some h \<and>
       expects h p \<and> line_news parse safeParse X line = news_of t p)"
proof (cases "parse line")
  case None
  then show ?thesis by (simp add: handle_line_def line_news_def program_wire_def)
next
  case (Some j)
  note parsed = Some
  show ?thesis
  proof (cases "safeParse WsMessageSchema j")
    case (Inl err)
    with parsed show ?thesis by (simp add: handle_line_def line_news_def program_wire_def)
  next
    case (Inr env)
    note valid = Inr
    show ?thesis
    proof (cases "as_str (obj_get ''type'' env)")
      case None
      with parsed valid show ?thesis by (simp add: handle_line_def line_news_def program_wire_def)
    next
      case (Some t)
      note table = topics_table [of t]
      show ?thesis
      proof (cases "map_of topics t")
        case None
        have "map_of provider_types t = None \<or> map_of registered_schemas (hd (split_on (CHR '':'') t)) = None"
          using None table by (auto split: option.splits)
        then show ?thesis
          using parsed valid Some None
          by (auto simp: handle_line_def line_news_def program_wire_def calls_of assms(2,3) split: option.split sum.split)
      next
        case topic: (Some sch)
        then obtain h where h: "map_of provider_types t = Some h"
          "map_of registered_schemas (hd (split_on (CHR '':'') t)) = Some sch"
          using table by (auto split: option.splits)
        let ?payload = "obj_get ''payload'' env"
        have arg: "(case if ?payload = JUndef then None else Some ?payload of None \<Rightarrow> JUndef | Some v \<Rightarrow> v) = ?payload" by simp
        show ?thesis
        proof (cases "safeParse (payload_schema X sch) ?payload")
          case (Inl err)
          with parsed valid Some topic h arg show ?thesis
            by (simp add: handle_line_def line_news_def program_wire_def assms(2))
        next
          case (Inr r)
          obtain p where p: "decode_payload sch r = Some p" using zod.payload_type [OF assms(1) Inr] by blast
          have "handle_line (program_wire parse stringify safeParse X) c line = [(h, p)]"
            using parsed valid Some h arg Inr p
            by (simp add: handle_line_def program_wire_def calls_of assms(2,3))
          moreover have "line_news parse safeParse X line = news_of t p"
            using parsed valid Some topic Inr p by (simp add: line_news_def)
          ultimately show ?thesis using h(1) decoded_expected [OF h(1) topic p] by blast
        qed
      qed
    qed
  qed
qed

text \<open>The client the provider has registered its handlers with.\<close>

definition provider_client :: "ws_options \<Rightarrow> provider_handler wsclient" where
  "provider_client opts = register_handlers (client (new_client opts))"

lemma provider_client_tables:
  "schemas (provider_client opts) = registered_schemas"
  "handlers_of (provider_client opts) t = (case map_of provider_types t of None \<Rightarrow> [] | Some h \<Rightarrow> [h])"
proof -
  have none: "handlers_of (client (new_client opts) :: provider_handler wsclient) t = []" for t
    by (simp add: new_client_def connect_def connectOnce_def handlers_of_def)
  show "handlers_of (provider_client opts) t = (case map_of provider_types t of None \<Rightarrow> [] | Some h \<Rightarrow> [h])"
    unfolding provider_client_def by (rule handlers_of_provider [OF none])
  show "schemas (provider_client opts) = registered_schemas"
    by (simp add: provider_client_def register_handlers_def provider_types_def onConnect_def new_client_def connect_def connectOnce_def)
qed

lemma calls_refine:
  assumes "zod E safeParse" and "query_cache QM" and "query_cache QB"
  shows "healthy QM s \<Longrightarrow> \<exists>s'. run_calls F D QM QB clock
      (concat (map (handle_line (program_wire parse stringify safeParse X) (provider_client opts)) ls)) s = (s', []) \<and>
    healthy QM s' \<and> view_of QM QB s' = fold learn (concat (map (line_news parse safeParse X) ls)) (view_of QM QB s)"
proof (induction ls arbitrary: s clock)
  case (Cons l ls)
  let ?W = "program_wire parse stringify safeParse X"
  from line_refines [OF assms(1) provider_client_tables, of parse stringify X opts l]
  consider (ignored) "handle_line ?W (provider_client opts) l = []" "line_news parse safeParse X l = []"
    | (handled) t h p where "handle_line ?W (provider_client opts) l = [(h, p)]" "map_of provider_types t = Some h" "expects h p"
        "line_news parse safeParse X l = news_of t p"
    by blast
  then show ?case
  proof cases
    case ignored
    with Cons show ?thesis by simp
  next
    case handled
    obtain s1 where s1: "run_handler F D QM QB (clock 0) h p s = Inr s1" "healthy QM s1"
      "view_of QM QB s1 = fold learn (news_of t p) (view_of QM QB s)"
      using call_refines [OF assms(2,3) Cons.prems handled(2,3)] by blast
    with Cons.IH [OF s1(2), of "\<lambda>i. clock (Suc i)"] handled show ?thesis by (auto simp: fold_append)
  qed
qed simp

lemma delivery_step:
  assumes "zod E safeParse" and "query_cache QM" and "query_cache QB"
  shows "healthy QM s \<Longrightarrow> \<exists>s'. deliver F D QM QB (program_wire parse stringify safeParse X) (provider_client opts) fs s = (s', []) \<and>
    healthy QM s' \<and> view_of QM QB s' = fold learn (concat (map (\<lambda>(clock, text). frame_news parse safeParse X text) fs)) (view_of QM QB s)"
proof (induction fs arbitrary: s)
  case (Cons f fs)
  obtain clock msg where f: "f = (clock, msg)" by (cases f)
  obtain s1 where s1: "run_calls F D QM QB clock (handleMessage (program_wire parse stringify safeParse X) (provider_client opts) msg) s = (s1, [])"
    "healthy QM s1" "view_of QM QB s1 = fold learn (frame_news parse safeParse X msg) (view_of QM QB s)"
    using calls_refine [OF assms Cons.prems] by (metis handleMessage_def frame_news_def)
  from Cons.IH [OF s1(2)] s1 show ?case by (auto simp: f fold_append)
qed simp

subsection \<open>Properties\<close>

text \<open>
  C15. The live data path refines its specification. Whatever text arrives in whatever frames, no handler throws, the invariant
  is kept and the data that is shown is what the specification learns from the news in the frames, one after the other:
  the newer version of a market or balance wins, outcomes an update does not name keep their quantity, feeds and chats keep their newest
  entries, and lines that are not JSON, not an envelope, of another type or not valid for their topic change nothing.
\<close>

theorem delivery_refines:
  assumes "zod E safeParse" and "query_cache QM" and "query_cache QB" and "healthy QM s"
    and "deliver F D QM QB (program_wire parse stringify safeParse X) (provider_client opts) frames s = (s', errors)"
  shows "errors = [] \<and> healthy QM s' \<and>
    view_of QM QB s' = fold learn (concat (map (\<lambda>(clock, text). frame_news parse safeParse X text) frames)) (view_of QM QB s)"
  using delivery_step [OF assms(1-4), of F D parse stringify X opts frames] assms(5) by auto

definition demo_parse :: "string \<Rightarrow> real jv option" where
  "demo_parse l =
     (if l = ''three'' then Some (JObj [(''type'', JStr ''online''), (''payload'', JObj [(''usersOnlineCount'', JNum (Fin 3))])]) else None)"

lemma demo_news: "frame_news demo_parse (\<lambda>s. zparse s demo_env) demo_decs ''three'' = [NOnline 3]"
proof -
  have "message_lines ''three'' = [''three'']" by code_simp
  then show ?thesis
    by (simp add: frame_news_def line_news_def demo_parse_def WsMessageSchema_def topics_def OnlineUpdateSchema_def obj_get_def
        parsed_fields_def at_path_def apply_trim_def)
qed

theorem delivery_refines_witness:
  "\<exists>s'. deliver exact real_lib map_cache map_cache (program_wire demo_parse ws_type (\<lambda>s. zparse s demo_env) demo_decs)
       (provider_client (default_options ''ws'')) [(\<lambda>i. 0, ''three'')] demo_live = (s', []) \<and>
     lv_online (view_of map_cache map_cache s') = 3"
proof -
  obtain s' errors where d: "deliver exact real_lib map_cache map_cache (program_wire demo_parse ws_type (\<lambda>s. zparse s demo_env) demo_decs)
      (provider_client (default_options ''ws'')) [(\<lambda>i. 0, ''three'')] demo_live = (s', errors)"
    by (meson surj_pair)
  have "healthy map_cache demo_live"
    by (auto simp: healthy_def demo_live_def map_cache_def demo_market_def chat_feed_def split: if_splits)
  from delivery_refines [OF zref.zod_axioms map_qc.query_cache_axioms map_qc.query_cache_axioms this d] d
  show ?thesis by (simp add: demo_news)
qed

end
