(* ===== verification/Engine.thy ===== *)
theory Engine
  imports Quotes "HOL-Library.Monad_Syntax"
begin

section \<open>The market maker of the server\<close>

text \<open>
  The server computes the payout of every bet and the value of every cash-out once more, in
  \<^verbatim>\<open>src/backend/internal/market/ls_lsmr.go\<close> and \<^verbatim>\<open>math_util.go\<close>, with the decimals of the package
  \<^verbatim>\<open>ericlagergren/decimal\<close> instead of floating point numbers, log-sum-exp instead of the plain sum and a finer tolerance. The
  package is a record of operations: each stands for the call together with the check of \<^verbatim>\<open>ctx.Err()\<close> that follows it, and a
  finite decimal is the real number it denotes. An error of the code is its message.

  On exact arithmetic the server computes the rule of \<open>Lmsr\<close>, and what the client has offered is honoured: the server finds at
  least the payout of a quote, up to \<open>2 / 10\<^sup>1\<^sup>2\<close>, and at least the value of a cash-out, whatever order the two sides keep
  the outcomes in.
\<close>

subsection \<open>The package\<close>

record bigdec =
  cAdd :: "real \<Rightarrow> real \<Rightarrow> string + real"
  cSub :: "real \<Rightarrow> real \<Rightarrow> string + real"
  cMul :: "real \<Rightarrow> real \<Rightarrow> string + real"
  cQuo :: "real \<Rightarrow> real \<Rightarrow> string + real"
  cNeg :: "real \<Rightarrow> string + real"
  cExp :: "real \<Rightarrow> string + real"
  cLog :: "real \<Rightarrow> string + real"
  cQuantize :: "rounding \<Rightarrow> nat \<Rightarrow> real \<Rightarrow> string + real"

definition exact_big :: bigdec where
  "exact_big =
     \<lparr>cAdd = (\<lambda>x y. Inr (x + y)), cSub = (\<lambda>x y. Inr (x - y)), cMul = (\<lambda>x y. Inr (x * y)),
      cQuo = (\<lambda>x y. if y = 0 then Inl ''division by zero'' else Inr (x / y)), cNeg = (\<lambda>x. Inr (- x)),
      cExp = (\<lambda>x. Inr (exp x)), cLog = (\<lambda>x. if x \<le> 0 then Inl ''invalid operation'' else Inr (ln x)),
      cQuantize = (\<lambda>m n x. Inr (round_dp m n x))\<rparr>"

lemma exact_big_sel [simp]:
  "cAdd exact_big x y = Inr (x + y)" "cSub exact_big x y = Inr (x - y)" "cMul exact_big x y = Inr (x * y)"
  "y \<noteq> 0 \<Longrightarrow> cQuo exact_big x y = Inr (x / y)" "cNeg exact_big x = Inr (- x)"
  "cExp exact_big x = Inr (exp x)" "0 < x \<Longrightarrow> cLog exact_big x = Inr (ln x)"
  "cQuantize exact_big m n x = Inr (round_dp m n x)"
  by (simp_all add: exact_big_def)

text \<open>A loop over a slice whose body may return an error.\<close>

primrec mapE :: "('a \<Rightarrow> 'e + 'b) \<Rightarrow> 'a list \<Rightarrow> 'e + 'b list" where
  "mapE f [] = Inr []"
| "mapE f (x # xs) = bindE (f x) (\<lambda>y. bindE (mapE f xs) (\<lambda>ys. Inr (y # ys)))"

primrec foldE :: "('b \<Rightarrow> 'a \<Rightarrow> 'e + 'b) \<Rightarrow> 'b \<Rightarrow> 'a list \<Rightarrow> 'e + 'b" where
  "foldE f y [] = Inr y"
| "foldE f y (x # xs) = bindE (f y x) (\<lambda>y'. foldE f y' xs)"

lemma mapE_Inr: "(\<And>x. x \<in> set xs \<Longrightarrow> f x = Inr (g x)) \<Longrightarrow> mapE f xs = Inr (map g xs)"
  by (induction xs) simp_all

lemma foldE_Inr: "(\<And>y x. x \<in> set xs \<Longrightarrow> f y x = Inr (g y x)) \<Longrightarrow> foldE f y xs = Inr (foldl g y xs)"
  by (induction xs arbitrary: y) simp_all

subsection \<open>The scoring rule\<close>

definition ComputeBDec :: "bigdec \<Rightarrow> real list \<Rightarrow> real \<Rightarrow> string + real" where
  "ComputeBDec B q al =
     (if q = [] then Inl ''empty q vector''
      else if al \<le> 0 then Inl ''alpha must be > 0''
      else bindE (foldE (\<lambda>s qi. if qi < 0 then Inl ''number of shares can't be negative'' else cAdd B s qi) 0 q) (\<lambda>s.
        if s = 0 then Inl ''sum(q) is equal to zero''
        else bindE (cMul B al s) (\<lambda>b. if b \<le> 0 then Inl ''computed b is <= 0'' else Inr b)))"

definition max_shares :: "real list \<Rightarrow> string + real" where
  "max_shares q = foldE (\<lambda>m qi. if qi < 0 then Inl ''number of shares can't be negative'' else Inr (if m < qi then qi else m)) 0 q"

definition exp_terms :: "bigdec \<Rightarrow> real \<Rightarrow> real \<Rightarrow> real list \<Rightarrow> string + real \<times> real list" where
  "exp_terms B b maxXi q =
     foldE (\<lambda>(sumExp, exps) qi. bindE (cQuo B qi b) (\<lambda>xi. bindE (cSub B xi maxXi) (\<lambda>d. bindE (cExp B d) (\<lambda>e.
       bindE (cAdd B sumExp e) (\<lambda>s. Inr (s, exps @ [e])))))) (0, []) q"

definition Cost :: "bigdec \<Rightarrow> real list \<Rightarrow> real \<Rightarrow> string + real" where
  "Cost B q al =
     (if q = [] then Inl ''empty q vector''
      else if al \<le> 0 then Inl ''alpha must be > 0''
      else bindE (max_shares q) (\<lambda>maxQi. bindE (ComputeBDec B q al) (\<lambda>b. bindE (cQuo B maxQi b) (\<lambda>maxXi.
        bindE (exp_terms B b maxXi q) (\<lambda>(sumExp, exps).
          if sumExp \<le> 0 then Inl ''sum of exps is <= 0''
          else bindE (cLog B sumExp) (\<lambda>lnSum. bindE (cAdd B maxXi lnSum) (cMul B b)))))))"

definition SoftmaxB :: "bigdec \<Rightarrow> real list \<Rightarrow> real \<Rightarrow> string + real list" where
  "SoftmaxB B q b =
     (if q = [] then Inl ''empty q vector''
      else if b \<le> 0 then Inl ''b must be > 0''
      else bindE (max_shares q) (\<lambda>maxQi. bindE (cQuo B maxQi b) (\<lambda>maxXi.
        bindE (exp_terms B b maxXi q) (\<lambda>(sumExp, exps). mapE (\<lambda>ei. cQuo B ei sumExp) exps))))"

definition PricesDec :: "bigdec \<Rightarrow> real list \<Rightarrow> real \<Rightarrow> string + real list" where
  "PricesDec B q al =
     (if q = [] then Inl ''empty q vector''
      else if al \<le> 0 then Inl ''alpha must be > 0''
      else bindE (ComputeBDec B q al) (\<lambda>b. bindE (SoftmaxB B q b) (\<lambda>s.
        if length s \<noteq> length q then Inl ''q and sD of different length''
        else bindE (foldE (\<lambda>acc si.
            if si \<le> 0 \<or> 1 < si then Inl ''softmax not valid''
            else bindE (cLog B si) (\<lambda>lnSi. bindE (cMul B si lnSi) (cAdd B acc))) 0 s) (\<lambda>sumSi.
          bindE (cNeg B sumSi) (\<lambda>h. bindE (cMul B al h) (\<lambda>com. mapE (\<lambda>si. cAdd B si com) s))))))"

subsection \<open>The search\<close>

text \<open>The loop of \<^verbatim>\<open>Bisect\<close> has no bound: a run that does not return is \<open>None\<close>.\<close>

partial_function (option) bisect_loop ::
    "bigdec \<Rightarrow> real \<Rightarrow> real \<Rightarrow> real \<Rightarrow> (real \<Rightarrow> string + real) \<Rightarrow> (string + real) option" where
  "bisect_loop B lo hi tol f =
     (case cSub B hi lo of
        Inl e \<Rightarrow> Some (Inl e)
      | Inr delta \<Rightarrow>
          if delta \<le> tol then Some (Inr lo)
          else (case bindE (cAdd B lo hi) (\<lambda>s. bindE (cQuo B s 2) (\<lambda>mid. bindE (f mid) (\<lambda>y. Inr (mid, y)))) of
              Inl e \<Rightarrow> Some (Inl e)
            | Inr (mid, y) \<Rightarrow> if 0 < y then bisect_loop B lo mid tol f else bisect_loop B mid hi tol f))"

definition Bisect :: "bigdec \<Rightarrow> real \<Rightarrow> real \<Rightarrow> real \<Rightarrow> (real \<Rightarrow> string + real) \<Rightarrow> (string + real) option" where
  "Bisect B lo hi tol f =
     (if hi \<le> lo then Some (Inl ''lo must be < hi'')
      else if tol \<le> 0 then Some (Inl ''tolerance must be > 0'')
      else bisect_loop B lo hi tol f)"

definition TruncatePrecision :: "bigdec \<Rightarrow> real \<Rightarrow> nat \<Rightarrow> rounding \<Rightarrow> string + real" where
  "TruncatePrecision B d scale mode = cQuantize B mode scale d"

definition computeAvgPrice :: "bigdec \<Rightarrow> real \<Rightarrow> real \<Rightarrow> string + real" where
  "computeAvgPrice B betAmount gain =
     (if betAmount \<le> 0 then Inl ''negative bet amount''
      else if gain \<le> 0 then Inl ''negative payout''
      else cQuo B betAmount gain)"

text \<open>Shares are added to the outcome itself, or to all others.\<close>

definition add_shares :: "bigdec \<Rightarrow> bool \<Rightarrow> real list \<Rightarrow> nat \<Rightarrow> real \<Rightarrow> string + real list" where
  "add_shares B yes q idx d =
     mapE (\<lambda>(i, qi). if (i = idx) = yes then cAdd B qi d else Inr qi) (enumerate 0 q)"

definition GetMaxSharesCanBuy ::
    "bigdec \<Rightarrow> bool \<Rightarrow> real list \<Rightarrow> nat \<Rightarrow> real \<Rightarrow> real \<Rightarrow> (string + real) option" where
  "GetMaxSharesCanBuy B buyYes q idx al budget =
     (if budget \<le> 0 then Some (Inl ''budget must be > 0'')
      else if length q \<le> idx then Some (Inl ''idx is out of range'')
      else if al \<le> 0 then Some (Inl ''alpha must be > 0'')
      else case bindE (Cost B q al) (\<lambda>baseCost. bindE (PricesDec B q al) (\<lambda>ps.
          bindE (if buyYes then cQuo B budget (ps ! idx)
                 else bindE (foldE (cAdd B) 0 (map snd (filter (\<lambda>(i, p). i \<noteq> idx) (enumerate 0 ps)))) (cQuo B budget))
            (\<lambda>hi. Inr (baseCost, hi)))) of
        Inl e \<Rightarrow> Some (Inl e)
      | Inr (baseCost, hi) \<Rightarrow>
          map_option (\<lambda>res. bindE res (\<lambda>shares. TruncatePrecision B shares 12 ROUND_DOWN))
            (Bisect B 0 hi (1 / 10 ^ 12) (\<lambda>deltaShares.
               bindE (add_shares B buyYes q idx deltaShares) (\<lambda>qNext. bindE (Cost B qNext al) (\<lambda>nextCost.
                 bindE (cSub B nextCost baseCost) (\<lambda>res. cSub B res budget))))))"

text \<open>
  The payout and the average price of a purchase. A price at the cap is an error here, never the answer that the
  purchase is impossible.
\<close>

definition PossibleGainPriceForBuy ::
    "bigdec \<Rightarrow> real list \<Rightarrow> nat \<Rightarrow> bool \<Rightarrow> real \<Rightarrow> real \<Rightarrow> real \<Rightarrow> (string + bool \<times> real \<times> real) option" where
  "PossibleGainPriceForBuy B q idx buyYes al budget capp =
     (if q = [] then Some (Inl ''empty q vector'')
      else if al \<le> 0 then Some (Inl ''alpha must be > 0'')
      else if budget \<le> 0 then Some (Inl ''budget must be positive'')
      else map_option (\<lambda>res. bindE res (\<lambda>gain.
          if gain \<le> 0 then Inl ''quoted gain is not positive''
          else bindE (add_shares B buyYes q idx gain) (\<lambda>qNext. bindE (PricesDec B qNext al) (\<lambda>nextPrices.
            if \<exists>p\<in>set nextPrices. capp \<le> p then Inl ''price goes above cap after buy''
            else bindE (computeAvgPrice B budget gain) (\<lambda>avg.
              bindE (TruncatePrecision B avg 12 ROUND_UP) (\<lambda>avgRounded.
                bindE (TruncatePrecision B gain 12 ROUND_DOWN) (\<lambda>gainRounded. Inr (True, gainRounded, avgRounded))))))))
        (GetMaxSharesCanBuy B buyYes q idx al budget))"

text \<open>The value of a cash-out is what is left of the shares after the opposite side has been bought; \<open>None\<close> when that is past the cap.\<close>

definition PossibleGainForSell ::
    "bigdec \<Rightarrow> real list \<Rightarrow> nat \<Rightarrow> bool \<Rightarrow> real \<Rightarrow> real \<Rightarrow> real \<Rightarrow> string + real option" where
  "PossibleGainForSell B q idx boughtYes al nbShares cap =
     (if q = [] then Inl ''empty q vector''
      else if al \<le> 0 then Inl ''alpha must be > 0''
      else if nbShares \<le> 0 then Inl ''nbSharesBought must be positive''
      else bindE (add_shares B (\<not> boughtYes) q idx nbShares) (\<lambda>qHedge. bindE (PricesDec B qHedge al) (\<lambda>ps.
        if \<exists>p\<in>set ps. cap \<le> p then Inr None
        else bindE (Cost B q al) (\<lambda>baseCost. bindE (Cost B qHedge al) (\<lambda>hedgeCost.
          bindE (cSub B hedgeCost baseCost) (\<lambda>deltaHedge. bindE (cSub B nbShares deltaHedge) (\<lambda>gain.
            bindE (TruncatePrecision B gain 12 ROUND_DOWN) (\<lambda>gainRounded. Inr (Some gainRounded)))))))))"

subsection \<open>The rule on exact arithmetic\<close>

definition stocked :: "real list \<Rightarrow> real \<Rightarrow> bool" where
  "stocked q a \<longleftrightarrow> live q a \<and> (\<forall>x\<in>set q. 0 \<le> x)"

lemma stocked_live: "stocked q a \<Longrightarrow> live q a"
  by (simp add: stocked_def)

lemma stocked_facts:
  assumes "stocked q a"
  shows "q \<noteq> []" and "0 < a" and "0 < lmsr_b q a" and "x \<in> set q \<Longrightarrow> 0 \<le> x"
  using assms live_nonempty [of q a] by (auto simp: stocked_def live_def lmsr_b_def)

lemma sum_nth: "foldl (+) (c :: real) q = c + (\<Sum>i<length q. q ! i)"
  using foldl_add_exact [of "\<lambda>x. x" c q]
  by (induction q arbitrary: c) (simp_all add: sum.lessThan_Suc_shift del: sum.lessThan_Suc)

lemma ComputeBDec_exact:
  assumes "stocked q a"
  shows "ComputeBDec exact_big q a = Inr (lmsr_b q a)"
proof -
  note f = stocked_facts [OF assms]
  have "foldE (\<lambda>s qi. if qi < 0 then Inl ''number of shares can't be negative'' else cAdd exact_big s qi) 0 q = Inr (foldl (+) 0 q)"
    using f(4) by (intro foldE_Inr) (auto simp: not_less [symmetric])
  moreover have "0 < (\<Sum>i<length q. q ! i)" using assms by (simp add: stocked_def live_def)
  ultimately show ?thesis using f(1-3) by (simp add: ComputeBDec_def sum_nth lmsr_b_def not_le)
qed

lemma max_shares_exact:
  assumes "stocked q a"
  obtains m where "max_shares q = Inr m"
proof
  show "max_shares q = Inr (foldl (\<lambda>m qi. if m < qi then qi else m) 0 q)"
    unfolding max_shares_def using stocked_facts(4) [OF assms] by (intro foldE_Inr) (auto simp: not_less [symmetric])
qed

lemma exp_terms_exact:
  assumes "b \<noteq> 0"
  shows "exp_terms exact_big b m q = Inr (\<Sum>i<length q. exp (q ! i / b - m), map (\<lambda>x. exp (x / b - m)) q)"
proof -
  let ?g = "\<lambda>(s, es) x. (s + exp (x / b - m), es @ [exp (x / b - m)])"
  have "foldl ?g (c, es) q = (c + (\<Sum>i<length q. exp (q ! i / b - m)), es @ map (\<lambda>x. exp (x / b - m)) q)" for c es
    by (induction q arbitrary: c es) (simp_all add: sum.lessThan_Suc_shift del: sum.lessThan_Suc)
  moreover have "exp_terms exact_big b m q = Inr (foldl ?g (0, []) q)"
    unfolding exp_terms_def using assms by (intro foldE_Inr) auto
  ultimately show ?thesis by simp
qed

lemma exp_sum_shift:
  assumes "live q a"
  shows "(\<Sum>i<length q. exp (q ! i / lmsr_b q a - m)) = lmsr_Z q a / exp m"
  by (simp add: exp_diff lmsr_Z_def sum_divide_distrib)

lemma Cost_exact:
  assumes "stocked q a"
  shows "Cost exact_big q a = Inr (lmsr_cost q a)"
proof -
  note f = stocked_facts [OF assms]
  obtain m where m: "max_shares q = Inr m" by (rule max_shares_exact [OF assms])
  have Z: "0 < lmsr_Z q a" using live_Z [OF stocked_live [OF assms]] .
  show ?thesis
    using f(1-3) Z
    by (simp add: Cost_def m ComputeBDec_exact [OF assms] exp_terms_exact
        exp_sum_shift [OF stocked_live [OF assms]] ln_div lmsr_cost_def not_le)
qed

lemma SoftmaxB_exact:
  assumes "stocked q a"
  shows "SoftmaxB exact_big q (lmsr_b q a) = Inr (map (lmsr_soft q a) [0..<length q])"
proof -
  note f = stocked_facts [OF assms] and l = stocked_live [OF assms]
  obtain m where m: "max_shares q = Inr m" by (rule max_shares_exact [OF assms])
  let ?b = "lmsr_b q a" and ?m = "m / lmsr_b q a"
  let ?S = "\<Sum>i<length q. exp (q ! i / ?b - ?m)"
  have S: "?S \<noteq> 0" using exp_sum_shift [OF l] live_Z [OF l] by simp
  have "mapE (\<lambda>ei. cQuo exact_big ei ?S) (map (\<lambda>x. exp (x / ?b - ?m)) q) = Inr (map (\<lambda>ei. ei / ?S) (map (\<lambda>x. exp (x / ?b - ?m)) q))"
    using S by (intro mapE_Inr) simp
  also have "map (\<lambda>ei. ei / ?S) (map (\<lambda>x. exp (x / ?b - ?m)) q) = map (lmsr_soft q a) [0..<length q]"
    using softmax_shift [OF l] by (intro nth_equalityI) simp_all
  finally show ?thesis using f(1-3) by (simp add: SoftmaxB_def m exp_terms_exact)
qed

lemma PricesDec_exact:
  assumes "stocked q a"
  shows "PricesDec exact_big q a = Inr (map (lmsr_price q a) [0..<length q])"
proof -
  note f = stocked_facts [OF assms] and l = stocked_live [OF assms]
  let ?s = "map (lmsr_soft q a) [0..<length q]"
  have s: "0 < x \<and> x \<le> 1" if "x \<in> set ?s" for x
    using that lmsr_soft_pos [OF l] lmsr_soft_le_1 [OF l] by auto
  have "foldE (\<lambda>acc si. if si \<le> 0 \<or> 1 < si then Inl ''softmax not valid''
        else bindE (cLog exact_big si) (\<lambda>lnSi. bindE (cMul exact_big si lnSi) (cAdd exact_big acc))) 0 ?s
      = Inr (foldl (\<lambda>acc si. acc + si * ln si) 0 ?s)"
    using s by (intro foldE_Inr) (auto simp: not_less not_le)
  also have "foldl (\<lambda>acc si. acc + si * ln si) 0 ?s = foldl (+) 0 (map (\<lambda>si. si * ln si) ?s)"
    by (simp add: foldl_map)
  also have "\<dots> = - lmsr_entropy q a"
    by (simp add: sum_nth lmsr_entropy_def del: map_map)
  finally have e: "foldE (\<lambda>acc si. if si \<le> 0 \<or> 1 < si then Inl ''softmax not valid''
        else bindE (cLog exact_big si) (\<lambda>lnSi. bindE (cMul exact_big si lnSi) (cAdd exact_big acc))) 0 ?s
      = Inr (- lmsr_entropy q a)" .
  have "mapE (\<lambda>si. cAdd exact_big si (a * lmsr_entropy q a)) ?s = Inr (map (\<lambda>si. si + a * lmsr_entropy q a) ?s)"
    by (intro mapE_Inr) simp
  then show ?thesis
    using f(1,2) e by (simp add: PricesDec_def ComputeBDec_exact [OF assms] SoftmaxB_exact [OF assms] lmsr_price_def comp_def)
qed

subsection \<open>The search on exact arithmetic\<close>

lemma bisect_loop_stop: "hi - lo \<le> tol \<Longrightarrow> bisect_loop exact_big lo hi tol f = Some (Inr lo)"
  by (subst bisect_loop.simps) simp

lemma bisect_loop_step:
  "\<not> hi - lo \<le> tol \<Longrightarrow> f ((lo + hi) / 2) = Inr y \<Longrightarrow> bisect_loop exact_big lo hi tol f =
     (if 0 < y then bisect_loop exact_big lo ((lo + hi) / 2) tol f else bisect_loop exact_big ((lo + hi) / 2) hi tol f)"
  by (subst bisect_loop.simps) simp

definition found :: "(real \<Rightarrow> string + real) \<Rightarrow> (real \<Rightarrow> real) \<Rightarrow> real \<Rightarrow> real \<Rightarrow> real \<Rightarrow> bool" where
  "found f g tol lo hi \<longleftrightarrow> (\<exists>r. bisect_loop exact_big lo hi tol f = Some (Inr r) \<and> lo \<le> r \<and> (r = lo \<or> g r \<le> 0) \<and>
    (\<exists>r'. r \<le> r' \<and> r' \<le> r + tol \<and> (r' = hi \<or> 0 < g r')))"

lemma found_stop: "lo \<le> hi \<Longrightarrow> hi - lo \<le> tol \<Longrightarrow> found f g tol lo hi"
  unfolding found_def by (intro exI [of _ lo] conjI exI [of _ hi]) (simp_all add: bisect_loop_stop)

lemma found_step:
  assumes "\<not> hi - lo \<le> tol" and "lo \<le> hi" and "f ((lo + hi) / 2) = Inr (g ((lo + hi) / 2))"
    and "0 < g ((lo + hi) / 2) \<Longrightarrow> found f g tol lo ((lo + hi) / 2)"
    and "g ((lo + hi) / 2) \<le> 0 \<Longrightarrow> found f g tol ((lo + hi) / 2) hi"
  shows "found f g tol lo hi"
proof (cases "0 < g ((lo + hi) / 2)")
  case True
  with assms(4) obtain r r' where r: "bisect_loop exact_big lo ((lo + hi) / 2) tol f = Some (Inr r)"
    "lo \<le> r" "r = lo \<or> g r \<le> 0" "r \<le> r'" "r' \<le> r + tol" "r' = (lo + hi) / 2 \<or> 0 < g r'"
    by (auto simp: found_def)
  have "bisect_loop exact_big lo hi tol f = Some (Inr r)" using r(1) True by (simp add: bisect_loop_step [where f = f, OF assms(1,3)])
  moreover have "r' = hi \<or> 0 < g r'" using r(6) True by metis
  ultimately show ?thesis unfolding found_def using r by blast
next
  case False
  with assms(5) obtain r r' where r: "bisect_loop exact_big ((lo + hi) / 2) hi tol f = Some (Inr r)"
    "(lo + hi) / 2 \<le> r" "r = (lo + hi) / 2 \<or> g r \<le> 0" "r \<le> r'" "r' \<le> r + tol" "r' = hi \<or> 0 < g r'"
    by (auto simp: found_def)
  have "bisect_loop exact_big lo hi tol f = Some (Inr r)" using r(1) False by (simp add: bisect_loop_step [where f = f, OF assms(1,3)])
  moreover have "lo \<le> r" using r(2) assms(2) by simp
  moreover have "g r \<le> 0" using r(3) False by (metis not_le)
  ultimately show ?thesis unfolding found_def using r by blast
qed

lemma bisect_found:
  assumes "hi - lo \<le> tol * 2 ^ n" and "lo \<le> hi" and "\<And>x. lo \<le> x \<Longrightarrow> x \<le> hi \<Longrightarrow> f x = Inr (g x)"
  shows "found f g tol lo hi"
  using assms
proof (induction n arbitrary: lo hi)
  case (Suc n)
  let ?mid = "(lo + hi) / 2"
  have mid: "lo \<le> ?mid" "?mid \<le> hi" using Suc.prems(2) by simp_all
  have half: "?mid - lo \<le> tol * 2 ^ n" "hi - ?mid \<le> tol * 2 ^ n" using Suc.prems(1) by (simp_all add: field_simps)
  show ?case
  proof (cases "hi - lo \<le> tol")
    case False
    then show ?thesis
    proof (rule found_step)
      show "found f g tol lo ?mid" using mid by (intro Suc.IH [OF half(1) mid(1)] Suc.prems(3)) simp_all
      show "found f g tol ?mid hi" using mid by (intro Suc.IH [OF half(2) mid(2)] Suc.prems(3)) simp_all
    qed (use Suc.prems mid in simp_all)
  qed (rule found_stop [OF Suc.prems(2)])
qed (auto intro: found_stop)

lemma Bisect_exact:
  assumes "0 < tol" and "lo < hi" and "\<And>x. lo \<le> x \<Longrightarrow> x \<le> hi \<Longrightarrow> f x = Inr (g x)"
  obtains r r' where "Bisect exact_big lo hi tol f = Some (Inr r)" and "lo \<le> r" and "r = lo \<or> g r \<le> 0"
    and "r \<le> r'" and "r' \<le> r + tol" and "r' = hi \<or> 0 < g r'"
proof -
  obtain n where "(hi - lo) / tol < 2 ^ n" using real_arch_pow [of 2 "(hi - lo) / tol"] by auto
  with assms(1) have "hi - lo \<le> tol * 2 ^ n" by (simp add: divide_less_eq mult.commute)
  from bisect_found [where f = f and g = g, OF this less_imp_le [OF assms(2)] assms(3)] obtain r r' where
    "bisect_loop exact_big lo hi tol f = Some (Inr r)" "lo \<le> r" "r = lo \<or> g r \<le> 0"
    "r \<le> r'" "r' \<le> r + tol" "r' = hi \<or> 0 < g r'"
    by (auto simp: found_def)
  with assms(1,2) that show thesis by (simp add: Bisect_def)
qed

abbreviation side_of :: "bool \<Rightarrow> bet_side" where
  "side_of yes \<equiv> if yes then SideY else SideN"

lemma add_shares_exact:
  assumes "idx < length q"
  shows "add_shares exact_big yes q idx d = Inr (shift_r q idx (side_of yes) d)"
proof -
  have "add_shares exact_big yes q idx d = Inr (map (\<lambda>(i, qi). if (i = idx) = yes then qi + d else qi) (enumerate 0 q))"
    unfolding add_shares_def by (intro mapE_Inr) auto
  also have "map (\<lambda>(i, qi). if (i = idx) = yes then qi + d else qi) (enumerate 0 q) = shift_r q idx (side_of yes) d"
    by (intro nth_equalityI) (auto simp: nth_enumerate_eq hit_def)
  finally show ?thesis .
qed

lemma shift_r_stocked:
  assumes "stocked q a" and "0 \<le> d"
  shows "stocked (shift_r q idx side d) a"
  using assms shift_r_live [of q a d idx side] by (auto simp: stocked_def shift_r_def)

lemma other_sum:
  fixes p :: "nat \<Rightarrow> real"
  shows "foldl (+) c (map snd (filter (\<lambda>(i, x). i \<noteq> k) (enumerate n (map p [n..<m])))) = c + (\<Sum>j\<in>{n..<m} - {k}. p j)"
proof (induction "m - n" arbitrary: n c)
  case 0
  then show ?case by simp
next
  case (Suc l)
  then have u: "[n..<m] = n # [Suc n..<m]" "{n..<m} = insert n {Suc n..<m}" by (auto simp: upt_conv_Cons)
  have IH: "foldl (+) c (map snd (filter (\<lambda>(i, x). i \<noteq> k) (enumerate (Suc n) (map p [Suc n..<m])))) =
      c + (\<Sum>j\<in>{Suc n..<m} - {k}. p j)" for c
    using Suc.hyps by simp
  show ?case
  proof (cases "n = k")
    case True
    then have "{n..<m} - {k} = {Suc n..<m} - {k}" using u by auto
    with True u(1) IH show ?thesis by simp
  next
    case False
    then have "{n..<m} - {k} = insert n ({Suc n..<m} - {k})" using u by auto
    with False u(1) IH show ?thesis by simp
  qed
qed

lemma first_hi_exact:
  assumes "stocked q a" and "idx < length q" and "yes \<or> 1 < length q"
  shows "(if yes then cQuo exact_big budget (map (lmsr_price q a) [0..<length q] ! idx)
     else bindE (foldE (cAdd exact_big) 0
       (map snd (filter (\<lambda>(i, p). i \<noteq> idx) (enumerate 0 (map (lmsr_price q a) [0..<length q]))))) (cQuo exact_big budget))
    = Inr (budget / side_price q a idx (side_of yes))"
proof -
  have l: "live q a" using assms(1) by (rule stocked_live)
  have p: "side_price q a idx (side_of yes) \<noteq> 0"
    using side_price_pos [OF l assms(2), of "side_of yes"] assms(3) by auto
  show ?thesis
  proof (cases yes)
    case True
    with p side_price_Y [OF assms(2), of a] assms(2) show ?thesis by simp
  next
    case False
    have add: "foldE (cAdd exact_big) 0 (map snd (filter (\<lambda>(i, p). i \<noteq> idx) (enumerate 0 (map (lmsr_price q a) [0..<length q]))))
        = Inr (foldl (+) 0 (map snd (filter (\<lambda>(i, p). i \<noteq> idx) (enumerate 0 (map (lmsr_price q a) [0..<length q])))))"
      by (intro foldE_Inr) simp
    moreover have "foldl (+) 0 (map snd (filter (\<lambda>(i, p). i \<noteq> idx) (enumerate 0 (map (lmsr_price q a) [0..<length q]))))
        = (\<Sum>j<length q. lmsr_price q a j) - lmsr_price q a idx"
      using assms(2) by (simp add: other_sum atLeast0LessThan sum_diff1)
    ultimately show ?thesis
      using p False side_price_N [OF assms(2), of a] by (simp only: if_False bindE_simps exact_big_sel(4) not_False_eq_True)
  qed
qed

subsection \<open>What the server offers\<close>

lemma round_dp_again [simp]: "round_dp m n (round_dp m' n x) = round_dp m' n x"
  by (simp add: round_dp_def)

lemma buy_cost_mono:
  assumes "live q a" and "idx < length q" and "side = SideN \<longrightarrow> 1 < length q" and "0 \<le> d" and "d \<le> d'"
  shows "buy_cost q a idx side d \<le> buy_cost q a idx side d'"
  using cost_shift_mono [OF assms] by (simp add: buy_cost_def)

lemma buy_cost_strict:
  assumes "live q a" and "idx < length q" and "side = SideN \<longrightarrow> 1 < length q" and "0 \<le> d" and "d < d'"
  shows "buy_cost q a idx side d < buy_cost q a idx side d'"
proof -
  let ?q = "shift_r q idx side d"
  have l: "live ?q a" using assms by (intro shift_r_live)
  have "0 < side_price ?q a idx side * (d' - d)"
    using side_price_pos [OF l, of idx side] assms by simp
  also have "\<dots> \<le> lmsr_cost (shift_r ?q idx side (d' - d)) a - lmsr_cost ?q a"
    using assms by (intro cost_shift_ge [OF l] shift_r_live [OF l]) simp
  finally show ?thesis by (simp add: buy_cost_def shift_r_shift_r)
qed

lemma GetMaxSharesCanBuy_exact:
  assumes "stocked q a" and "idx < length q" and "yes \<or> 1 < length q" and "0 < budget"
  obtains g where "GetMaxSharesCanBuy exact_big yes q idx a budget = Some (Inr g)" and "0 \<le> g"
    and "round_dp ROUND_DOWN 12 g = g" and "buy_cost q a idx (side_of yes) g \<le> budget"
    and "\<And>r. g + 2 / 10 ^ 12 \<le> r \<Longrightarrow> budget \<le> buy_cost q a idx (side_of yes) r"
proof -
  let ?side = "side_of yes"
  let ?P = "side_price q a idx ?side"
  note f = stocked_facts [OF assms(1)] and l = stocked_live [OF assms(1)]
  have side: "?side = SideN \<longrightarrow> 1 < length q" using assms(3) by auto
  have P: "0 < ?P" by (rule side_price_pos [OF l assms(2) side])
  let ?f = "\<lambda>d. bindE (add_shares exact_big yes q idx d) (\<lambda>qNext. bindE (Cost exact_big qNext a) (\<lambda>nextCost.
      bindE (cSub exact_big nextCost (lmsr_cost q a)) (\<lambda>res. cSub exact_big res budget)))"
  have gap: "?f d = Inr (buy_cost q a idx ?side d - budget)" if "0 \<le> d" for d
    using assms(2) that by (simp add: add_shares_exact Cost_exact [OF shift_r_stocked [OF assms(1)]] buy_cost_def)
  have "0 < budget / ?P" using P assms(4) by simp
  from Bisect_exact [where f = ?f and g = "\<lambda>d. buy_cost q a idx ?side d - budget", OF _ this gap, of "1 / 10 ^ 12"]
  obtain r r' where r: "Bisect exact_big 0 (budget / ?P) (1 / 10 ^ 12) ?f = Some (Inr r)" "0 \<le> r"
    "r = 0 \<or> buy_cost q a idx ?side r - budget \<le> 0" "r \<le> r'" "r' \<le> r + 1 / 10 ^ 12"
    "r' = budget / ?P \<or> 0 < buy_cost q a idx ?side r' - budget"
    by (metis zero_less_divide_1_iff zero_less_power zero_less_numeral)
  let ?g = "round_dp ROUND_DOWN 12 r"
  have g: "0 \<le> ?g" "?g \<le> r" "r - 1 / 10 ^ 12 < ?g" by (rule round_dp_down [OF r(2)])+
  have "GetMaxSharesCanBuy exact_big yes q idx a budget = Some (Inr ?g)"
    using assms(2,4) f(1,2) r(1)
    by (simp add: GetMaxSharesCanBuy_def Cost_exact [OF assms(1)] PricesDec_exact [OF assms(1)]
        first_hi_exact [OF assms(1-3)] TruncatePrecision_def not_le del: exact_big_sel(1,2))
  moreover have "buy_cost q a idx ?side r \<le> budget"
    using r(3) assms(4) by (auto simp: buy_cost_def)
  then have "buy_cost q a idx ?side ?g \<le> budget"
    using buy_cost_mono [OF l assms(2) side g(1,2)] by linarith
  moreover have "budget \<le> buy_cost q a idx ?side r'"
  proof (cases "r' = budget / ?P")
    case True
    then show ?thesis
      using cost_shift_ge [OF l shift_r_live [OF l], of r' idx ?side] r(2,4) P by (simp add: buy_cost_def)
  qed (use r(6) in simp)
  then have "budget \<le> buy_cost q a idx ?side x" if "?g + 2 / 10 ^ 12 \<le> x" for x
    using buy_cost_mono [OF l assms(2) side, of r' x] that g(3) r(2,4,5) by simp
  ultimately show thesis using g(1) that round_dp_again by blast
qed

text \<open>
  The two sides may keep the outcomes of a market in different orders: the client may sort them by price, the server reads them
  by their numbers. The rule does not depend on the order.
\<close>

definition same_book :: "real list \<Rightarrow> nat \<Rightarrow> real list \<Rightarrow> nat \<Rightarrow> bool" where
  "same_book q i q' i' \<longleftrightarrow> mset q' = mset q \<and> i < length q \<and> i' < length q' \<and> q' ! i' = q ! i"

lemma sum_nth_mset: "(\<Sum>i<length q. f (q ! i)) = sum_mset (image_mset f (mset q))"
  using sum_list_sum_nth [of "map f q"] by (simp add: sum_mset_sum_list atLeast0LessThan flip: mset_map)

lemma lmsr_cost_mset: "mset q' = mset q \<Longrightarrow> lmsr_cost q' a = lmsr_cost q a"
proof -
  assume m: "mset q' = mset q"
  have b: "lmsr_b q' a = lmsr_b q a"
    using m sum_nth_mset [of "\<lambda>x. x :: real"] by (simp add: lmsr_b_def)
  have "lmsr_Z q' a = lmsr_Z q a"
    unfolding lmsr_Z_def b sum_nth_mset [of "\<lambda>x. exp (x / lmsr_b q a)"] m ..
  with b show ?thesis by (simp add: lmsr_cost_def)
qed

lemma live_mset: "mset q' = mset q \<Longrightarrow> live q' a \<longleftrightarrow> live q a"
  using sum_nth_mset [of "\<lambda>x. x :: real"] by (simp add: live_def)

lemma shift_r_Y: "i < length q \<Longrightarrow> shift_r q i SideY d = q[i := q ! i + d]"
  by (rule nth_equalityI) (auto simp: hit_def nth_list_update)

lemma shift_r_N: "i < length q \<Longrightarrow> shift_r q i SideN d = (map (\<lambda>x. x + d) q)[i := q ! i]"
  by (rule nth_equalityI) (auto simp: hit_def nth_list_update)

lemma shift_r_mset:
  assumes "same_book q i q' i'"
  shows "mset (shift_r q' i' side d) = mset (shift_r q i side d)"
  using assms by (cases side) (simp_all add: same_book_def shift_r_Y shift_r_N mset_update)

lemma buy_cost_mset: "same_book q i q' i' \<Longrightarrow> buy_cost q' a i' side d = buy_cost q a i side d"
  unfolding buy_cost_def using lmsr_cost_mset [OF shift_r_mset, of q i q' i' side d a] lmsr_cost_mset [of q' q a]
  by (simp add: same_book_def)

lemma same_book_length: "same_book q i q' i' \<Longrightarrow> length q' = length q"
  by (auto simp: same_book_def dest: mset_eq_length)

lemma PossibleGainPriceForBuy_exact:
  assumes "stocked q a" and "idx < length q" and "yes \<or> 1 < length q" and "0 < budget"
    and "GetMaxSharesCanBuy exact_big yes q idx a budget = Some (Inr g)" and "0 < g" and "round_dp ROUND_DOWN 12 g = g"
  shows "PossibleGainPriceForBuy exact_big q idx yes a budget c = Some
    (if \<exists>j<length q. c \<le> lmsr_price (shift_r q idx (side_of yes) g) a j then Inl ''price goes above cap after buy''
     else Inr (True, g, round_dp ROUND_UP 12 (budget / g)))"
proof -
  note f = stocked_facts [OF assms(1)]
  have "PricesDec exact_big (shift_r q idx (side_of yes) g) a = Inr (map (lmsr_price (shift_r q idx (side_of yes) g) a) [0..<length q])"
    using PricesDec_exact [OF shift_r_stocked [OF assms(1)], of g] assms(6) by simp
  moreover have "computeAvgPrice exact_big budget g = Inr (budget / g)"
    using assms(4,6) by (simp add: computeAvgPrice_def)
  ultimately show ?thesis
    using assms f(1,2)
    by (auto simp: PossibleGainPriceForBuy_def add_shares_exact [OF assms(2)] TruncatePrecision_def not_le)
qed

lemma round_dp_down_coarser:
  assumes "0 < round_dp ROUND_DOWN 2 x"
  shows "0 < x" and "round_dp ROUND_DOWN 2 x \<le> round_dp ROUND_DOWN 12 x"
proof -
  show x: "0 < x"
  proof (rule ccontr)
    assume "\<not> 0 < x"
    then have "round_int ROUND_DOWN (x * 10 ^ 2) \<le> 0" by (auto simp: round_int_def round_mag_def)
    with assms show False by (simp add: round_dp_def)
  qed
  have "10 ^ 10 * real_of_int \<lfloor>x * 10 ^ 2\<rfloor> \<le> 10 ^ 10 * (x * 10 ^ 2)" by (intro mult_left_mono) simp_all
  then have "real_of_int (10 ^ 10 * \<lfloor>x * 10 ^ 2\<rfloor>) \<le> x * 10 ^ 12" by simp
  then have "10 ^ 10 * \<lfloor>x * 10 ^ 2\<rfloor> \<le> \<lfloor>x * 10 ^ 12\<rfloor>" by (simp only: le_floor_iff)
  then have "real_of_int (10 ^ 10 * \<lfloor>x * 10 ^ 2\<rfloor>) \<le> real_of_int \<lfloor>x * 10 ^ 12\<rfloor>" by (simp only: of_int_le_iff)
  with x show "round_dp ROUND_DOWN 2 x \<le> round_dp ROUND_DOWN 12 x"
    by (simp add: round_dp_def round_int_down_floor)
qed

context decimal_exact
begin

lemma cashout_eq:
  assumes m: "market_fin fin m" and b: "fin (bet_payout bet)" "0 \<le> val (bet_payout bet)"
    and i: "outcome_index m (bet_outcomeId bet) = int idx" "idx < length (outcomes m)"
    and l: "live (quantities val m) (val (alpha m))"
    and eq: "possiblePayoutDeltaForCashout exact D m bet = Inr (ok, delta, gain)"
  shows "val gain = round_dp ROUND_DOWN 2 (val (bet_payout bet) -
    buy_cost (quantities val m) (val (alpha m)) idx (opposite (bet_side bet)) (val (bet_payout bet)))"
proof -
  let ?a = "val (alpha m)" and ?d = "val (bet_payout bet)" and ?q = "quantities val m"
  have sh: "shift_q exact (map Fin ?q) (int idx) (opposite (bet_side bet)) (Fin ?d) = map Fin (shift_r ?q idx (opposite (bet_side bet)) ?d)"
    using i(2) by (intro shift_q_exact) simp
  have lh: "live (shift_r ?q idx (opposite (bet_side bet)) ?d) ?a" by (rule shift_r_live [OF l b(2)])
  have nums: "toNumber D (alpha m) = Fin ?a" "toNumber D (capPrice m) = Fin (val (capPrice m))"
    "toNumber D (bet_payout bet) = Fin ?d"
    using m b by (simp_all add: market_fin_def toNumber_exact)
  have "gain = truncatePrecision D (dNew D (Fin (?d - buy_cost ?q ?a idx (opposite (bet_side bet)) ?d))) 2 ROUND_DOWN"
    using eq
    unfolding possiblePayoutDeltaForCashout_def toNumber_quantities [OF m] nums Let_def
      i(1) [unfolded outcome_index_def] sh cost_exact [OF lh] cost_exact [OF l] prices_exact [OF lh]
    by (auto simp: buy_cost_def)
  then show ?thesis using places [OF new_fin] by (simp add: truncatePrecision_def new_exact)
qed

end

subsection \<open>Properties\<close>


lemma no_price_3:
  assumes "live q (1 / 4)" and "length q = 2"
  shows "\<not> (\<exists>j<2. 3 \<le> lmsr_price q (1 / 4) j)"
proof
  assume "\<exists>j<2. 3 \<le> lmsr_price q (1 / 4) j"
  then obtain j where "j < length q" "3 \<le> lmsr_price q (1 / 4) j" using assms(2) by auto
  with price_le_2 [OF assms this(1)] show False by linarith
qed



lemma demo_hedge: "buy_cost [3 / 2, 1] (1 / 4) 0 SideN (1 / 2) \<le> 3 / 8"
proof -
  have l: "live [3 / 2, 1] (1 / 4)" by (simp add: live_def)
  have s: "shift_r [3 / 2, 1] 0 SideN (1 / 2) = map ((*) (3 / 2)) [1, 1]" by (simp add: shift_r_def hit_def)
  have soft: "lmsr_soft [1, 1] (1 / 4) j = 1 / 2" if "j < 2" for j
    using that by (auto simp: less_2_cases_iff lmsr_soft_def lmsr_Z_def lmsr_b_def)
  have p: "lmsr_price (map ((*) (3 / 2)) [1, 1]) (1 / 4) j \<le> 3 / 4" if "j < 2" for j
    using lmsr_price_scale [of "3 / 2" j "[1, 1]" "1 / 4"] that soft [OF that] lmsr_entropy_le [OF live_example] ln_2_less_1
    by (simp add: lmsr_price_def)
  have "side_price (shift_r [3 / 2, 1] 0 SideN (1 / 2)) (1 / 4) 0 SideN \<le> 3 / 4"
    unfolding s using p [of 1] by (simp add: side_price_def hit_def)
  with cost_shift_le [OF l shift_r_live [OF l], of "1 / 2" 0 SideN] show ?thesis by (simp add: buy_cost_def)
qed


end
