(* ===== verification/Ledger.thy ===== *)
theory Ledger
  imports DecimalJs "HOL-Library.AList"
begin

section \<open>The ledger of the server\<close>

text \<open>
  Money moves by the function \<^verbatim>\<open>ledger_create_transfer\<close> of the database
  (\<^verbatim>\<open>src/backend/migrations/000001_tables_init.up.sql\<close>), which \<^verbatim>\<open>TransferMoney\<close>
  (\<^verbatim>\<open>src/backend/internal/finance/finance.go\<close>) calls inside a transaction. The tables are lists of rows, accounts with their keys.
  An amount is the real number it denotes; what a column \<^verbatim>\<open>NUMERIC(27, 12)\<close> stores is rounded to twelve decimals, half away from
  zero, and must have at most fifteen digits before the point. A statement that raises aborts the transaction, so that an error
  carries no new state. The identifiers the database draws are arguments.

  The ledger is a double-entry book, as long as the amounts have at most twelve decimals: finer ones, which the server accepts,
  are rounded in each account on its own.
\<close>

subsection \<open>Rows\<close>

datatype account_type = Custody | Liability | House | OwnerWithdrawal

record ledger_account =
  la_user :: "string option"
  la_type :: account_type
  la_balance :: real
  la_currency :: string
  allow_negative :: bool
  allow_positive :: bool
  la_version :: int

record ledger_transfer =
  lt_id :: string
  lt_from :: string
  lt_to :: string
  lt_amount :: real
  lt_key :: string

record ledger_entry =
  le_account :: string
  le_transfer :: string
  le_amount :: real
  le_previous :: real
  le_current :: real
  le_version :: int

record ledger =
  accounts :: "(string \<times> ledger_account) list"
  transfers :: "ledger_transfer list"
  entries :: "ledger_entry list"

datatype raised =
    InvalidAmount
  | SameAccount
  | AccountNotFound
  | DifferentCurrencies
  | AccountPolicy
  | IdempotencyKey

datatype sql_error =
    RaisedException raised
  | CheckViolation
  | NumericOverflow
  | UniqueViolation

subsection \<open>Operations\<close>

definition half_away :: "real \<Rightarrow> int" where
  "half_away x = (if x < 0 then - \<lfloor>1 / 2 - x\<rfloor> else \<lfloor>x + 1 / 2\<rfloor>)"

definition numeric12 :: "real \<Rightarrow> sql_error + real" where
  "numeric12 x =
     (let r = of_int (half_away (x * 10 ^ 12)) / 10 ^ 12 in if \<bar>r\<bar> < 10 ^ 15 then Inr r else Inl NumericOverflow)"

definition ledger_check_account_balance_constraints :: "ledger_account \<Rightarrow> sql_error + ledger_account" where
  "ledger_check_account_balance_constraints acc =
     (if \<not> allow_negative acc \<and> la_balance acc < 0 then Inl (RaisedException AccountPolicy)
      else if \<not> allow_positive acc \<and> 0 < la_balance acc then Inl (RaisedException AccountPolicy)
      else Inr acc)"

definition post :: "real \<Rightarrow> ledger_account \<Rightarrow> sql_error + ledger_account" where
  "post x acc = bindE (numeric12 (la_balance acc + x)) (\<lambda>b.
     ledger_check_account_balance_constraints (acc\<lparr>la_balance := b, la_version := la_version acc + 1\<rparr>))"

definition insert_transfer :: "string \<Rightarrow> string \<Rightarrow> string \<Rightarrow> real \<Rightarrow> string \<Rightarrow> ledger \<Rightarrow> sql_error + ledger" where
  "insert_transfer tid src dst amount idem L = bindE (numeric12 amount) (\<lambda>x.
     if x \<le> 0 then Inl CheckViolation
     else if \<exists>t\<in>set (transfers L). lt_key t = idem then Inl (RaisedException IdempotencyKey)
     else if \<exists>t\<in>set (transfers L). lt_id t = tid then Inl UniqueViolation
     else Inr (L\<lparr>transfers := transfers L @ [\<lparr>lt_id = tid, lt_from = src, lt_to = dst, lt_amount = x, lt_key = idem\<rparr>]\<rparr>))"

definition insert_entry :: "string \<Rightarrow> string \<Rightarrow> real \<Rightarrow> ledger_account \<Rightarrow> ledger \<Rightarrow> sql_error + ledger" where
  "insert_entry aid tid x acc L = bindE (numeric12 x) (\<lambda>am. bindE (numeric12 (la_balance acc - x)) (\<lambda>prev.
     if la_balance acc \<noteq> prev + am then Inl CheckViolation
     else Inr (L\<lparr>entries := entries L @ [\<lparr>le_account = aid, le_transfer = tid, le_amount = am, le_previous = prev,
       le_current = la_balance acc, le_version = la_version acc\<rparr>]\<rparr>)))"

definition ledger_create_transfer :: "string \<Rightarrow> string \<Rightarrow> string \<Rightarrow> real \<Rightarrow> string \<Rightarrow> ledger \<Rightarrow> sql_error + ledger" where
  "ledger_create_transfer tid src dst amount idem L =
     (if amount \<le> 0 then Inl (RaisedException InvalidAmount)
      else if src = dst then Inl (RaisedException SameAccount)
      else case map_of (accounts L) src of
        None \<Rightarrow> Inl (RaisedException AccountNotFound)
      | Some f0 \<Rightarrow> (case map_of (accounts L) dst of
          None \<Rightarrow> Inl (RaisedException AccountNotFound)
        | Some t0 \<Rightarrow>
            if la_currency f0 \<noteq> la_currency t0 then Inl (RaisedException DifferentCurrencies)
            else bindE (post (- amount) f0) (\<lambda>f. bindE (post amount t0) (\<lambda>t.
              bindE (insert_transfer tid src dst amount idem
                (L\<lparr>accounts := AList.update dst t (AList.update src f (accounts L))\<rparr>)) (\<lambda>L1.
              bindE (insert_entry src tid (- amount) f L1) (insert_entry dst tid amount t))))))"

text \<open>The errors of the packages \<^verbatim>\<open>finance\<close> and \<^verbatim>\<open>market\<close> that the handlers distinguish; every other one is \<open>OtherError\<close>.\<close>

datatype repo_error =
    ErrAccountNotFound
  | ErrLedgerAccountPolicy
  | ErrSameAccount
  | ErrInvalidAmount
  | ErrIdempotency
  | ErrDifferentCurrencies
  | ErrInsufficientFunds
  | ErrMarketNotFound
  | ErrOutcomeNotFound
  | ErrInvalidQuotedGain
  | ErrInvalidBetAmount
  | ErrNoBetBinaryMarket
  | ErrBetAlreadyPlaced
  | ErrBetNotFound
  | ErrBetAlreadyCashedOut
  | OtherError

fun transfer_error :: "sql_error \<Rightarrow> repo_error" where
  "transfer_error (RaisedException InvalidAmount) = ErrInvalidAmount"
| "transfer_error (RaisedException SameAccount) = ErrSameAccount"
| "transfer_error (RaisedException AccountNotFound) = ErrAccountNotFound"
| "transfer_error (RaisedException DifferentCurrencies) = ErrDifferentCurrencies"
| "transfer_error (RaisedException AccountPolicy) = ErrLedgerAccountPolicy"
| "transfer_error (RaisedException IdempotencyKey) = ErrIdempotency"
| "transfer_error _ = OtherError"

definition TransferMoney :: "string \<Rightarrow> string \<Rightarrow> string \<Rightarrow> real \<Rightarrow> string \<Rightarrow> ledger \<Rightarrow> repo_error + ledger" where
  "TransferMoney tid src dst amount idem L =
     (if amount \<le> 0 then Inl ErrInvalidAmount
      else if src = dst then Inl ErrSameAccount
      else if idem = [] then Inl OtherError
      else case ledger_create_transfer tid src dst amount idem L of
        Inl e \<Rightarrow> Inl (transfer_error e)
      | Inr L' \<Rightarrow> Inr L')"

definition GetLedgerAccountForCurrency :: "string \<Rightarrow> string \<Rightarrow> account_type \<Rightarrow> ledger \<Rightarrow> repo_error + string" where
  "GetLedgerAccountForCurrency user cur ty L =
     (case List.find (\<lambda>(i, acc). la_user acc = Some user \<and> la_currency acc = cur \<and> la_type acc = ty) (accounts L) of
        None \<Rightarrow> Inl OtherError
      | Some (i, acc) \<Rightarrow> Inr i)"

definition GetUserBalanceLiabiliy :: "string \<Rightarrow> string \<Rightarrow> ledger \<Rightarrow> repo_error + real \<times> int" where
  "GetUserBalanceLiabiliy user cur L =
     (case List.find (\<lambda>(i, acc). la_user acc = Some user \<and> la_currency acc = cur \<and> la_type acc = Liability) (accounts L) of
        None \<Rightarrow> Inl ErrAccountNotFound
      | Some (i, acc) \<Rightarrow> Inr (la_balance acc, la_version acc))"

subsection \<open>The interface of a ledger\<close>

text \<open>
  What the clients of a ledger rely on: a transfer that succeeds uses up a key nobody has used, and moves exactly its amount between
  two accounts. Sequences of attempts, of which some are refused, are folds.
\<close>

type_synonym transfer_req = "string \<times> string \<times> string \<times> real \<times> string"

locale transfer_book =
  fixes transfer :: "string \<Rightarrow> string \<Rightarrow> string \<Rightarrow> real \<Rightarrow> string \<Rightarrow> 'l \<Rightarrow> 'e + 'l"
    and balance :: "'l \<Rightarrow> string \<Rightarrow> real option"
    and used :: "'l \<Rightarrow> string set"
    and sound :: "'l \<Rightarrow> bool"
    and fine :: "real \<Rightarrow> bool"
  assumes finite_dom: "finite (dom (balance L))"
    and keeps: "sound L \<Longrightarrow> fine x \<Longrightarrow> transfer tid a b x k L = Inr L' \<Longrightarrow> sound L'"
    and uses: "transfer tid a b x k L = Inr L' \<Longrightarrow> k \<notin> used L \<and> used L' = insert k (used L)"
    and moves: "sound L \<Longrightarrow> fine x \<Longrightarrow> transfer tid a b x k L = Inr L' \<Longrightarrow>
      0 < x \<and> a \<noteq> b \<and> (\<exists>s d. balance L a = Some s \<and> balance L b = Some d \<and> balance L' = (balance L)(a \<mapsto> s - x, b \<mapsto> d + x))"
begin

definition total :: "'l \<Rightarrow> real" where
  "total L = (\<Sum>a\<in>dom (balance L). the (balance L a))"

definition attempt :: "transfer_req \<Rightarrow> 'l \<Rightarrow> 'l" where
  "attempt r L = (case r of (tid, a, b, x, k) \<Rightarrow> (case transfer tid a b x k L of Inl e \<Rightarrow> L | Inr L' \<Rightarrow> L'))"

lemma total_moved:
  assumes "sound L" and "fine x" and "transfer tid a b x k L = Inr L'"
  shows "dom (balance L') = dom (balance L)" and "total L' = total L"
proof -
  obtain s d where m: "a \<noteq> b" "balance L a = Some s" "balance L b = Some d" "balance L' = (balance L)(a \<mapsto> s - x, b \<mapsto> d + x)"
    using moves [OF assms] by blast
  show dom: "dom (balance L') = dom (balance L)" using m by auto
  obtain R where D: "dom (balance L) = insert a (insert b R)" and R: "finite R" "a \<notin> R" "b \<notin> R"
  proof
    show "dom (balance L) = insert a (insert b (dom (balance L) - {a, b}))" using m by auto
  qed (use finite_dom in auto)
  have rest: "(\<Sum>c\<in>R. the (balance L' c)) = (\<Sum>c\<in>R. the (balance L c))"
    using R by (intro sum.cong) (auto simp: m(4))
  have ends: "balance L' a = Some (s - x)" "balance L' b = Some (d + x)" using m(1,4) by simp_all
  have "total L' = (s - x) + ((d + x) + (\<Sum>c\<in>R. the (balance L' c)))"
    unfolding total_def dom D using R m(1) ends by simp
  also have "\<dots> = s + (d + (\<Sum>c\<in>R. the (balance L c)))" unfolding rest by simp
  also have "\<dots> = total L"
    unfolding total_def D using R m(1-3) by simp
  finally show "total L' = total L" .
qed

lemma attempts_sound:
  assumes "sound L" and "\<forall>(tid, a, b, x, k)\<in>set rs. fine x"
  shows "sound (fold attempt rs L) \<and> total (fold attempt rs L) = total L \<and>
    dom (balance (fold attempt rs L)) = dom (balance L) \<and> used L \<subseteq> used (fold attempt rs L)"
  using assms
proof (induction rs arbitrary: L)
  case (Cons r rs)
  obtain tid a b x k where r: "r = (tid, a, b, x, k)" by (cases r)
  show ?case
  proof (cases "transfer tid a b x k L")
    case (Inl e)
    with Cons r show ?thesis by (simp add: attempt_def)
  next
    case (Inr L')
    have "fine x" using Cons.prems r by auto
    note ok = Cons.prems(1) this Inr
    have "sound L'" by (rule keeps [OF ok])
    with Cons.IH [of L'] Cons.prems(2) total_moved [OF ok] uses [OF Inr] Inr r show ?thesis by (auto simp: attempt_def)
  qed
qed simp

lemma key_once: "k \<in> used L \<Longrightarrow> transfer tid a b x k L \<noteq> Inr L'"
  using uses by blast

end

subsection \<open>The ledger of the program keeps double-entry books\<close>

definition grid :: "real \<Rightarrow> bool" where
  "grid x \<longleftrightarrow> (\<exists>k :: int. x = of_int k / 10 ^ 12)"

definition entries_of :: "string \<Rightarrow> ledger \<Rightarrow> ledger_entry list" where
  "entries_of a L = filter (\<lambda>e. le_account e = a) (entries L)"

definition account_ok :: "ledger \<Rightarrow> string \<Rightarrow> ledger_account \<Rightarrow> bool" where
  "account_ok L a acc \<longleftrightarrow> grid (la_balance acc) \<and> la_balance acc = sum_list (map le_amount (entries_of a L)) \<and>
     la_version acc = int (length (entries_of a L)) \<and>
     (\<not> allow_negative acc \<longrightarrow> 0 \<le> la_balance acc) \<and> (\<not> allow_positive acc \<longrightarrow> la_balance acc \<le> 0)"

definition books :: "ledger \<Rightarrow> bool" where
  "books L \<longleftrightarrow> distinct (map lt_key (transfers L)) \<and> distinct (map lt_id (transfers L)) \<and>
     (\<forall>a acc. map_of (accounts L) a = Some acc \<longrightarrow> account_ok L a acc) \<and>
     (\<forall>e\<in>set (entries L). le_transfer e \<in> lt_id ` set (transfers L)) \<and>
     (\<forall>t\<in>set (transfers L). sum_list (map le_amount (filter (\<lambda>e. le_transfer e = lt_id t) (entries L))) = 0)"

definition balance_of :: "ledger \<Rightarrow> string \<Rightarrow> real option" where
  "balance_of L a = map_option la_balance (map_of (accounts L) a)"

definition used_keys :: "ledger \<Rightarrow> string set" where
  "used_keys L = lt_key ` set (transfers L)"

lemma half_away_of_int [simp]: "half_away (of_int k) = k"
proof -
  have "\<lfloor>real_of_int k + 1 / 2\<rfloor> = k" by (simp add: floor_unique)
  moreover have "\<lfloor>1 / 2 - real_of_int k\<rfloor> = - k" by (simp add: floor_unique)
  ultimately show ?thesis by (simp add: half_away_def)
qed

lemma numeric12_grid: "grid x \<Longrightarrow> numeric12 x = (if \<bar>x\<bar> < 10 ^ 15 then Inr x else Inl NumericOverflow)"
  by (auto simp: grid_def numeric12_def)

lemma grid_closed: "grid x \<Longrightarrow> grid y \<Longrightarrow> grid (x + y)" "grid x \<Longrightarrow> grid (- x)" "grid x \<Longrightarrow> grid y \<Longrightarrow> grid (x - y)" "grid 0"
proof -
  show add: "grid (x + y)" if "grid x" "grid y" for x y
    using that unfolding grid_def by (metis add_divide_distrib of_int_add)
  show neg: "grid (- x)" if "grid x" for x
    using that unfolding grid_def by (metis minus_divide_left of_int_minus)
  show "grid (x - y)" if "grid x" "grid y" using add [OF that(1) neg [OF that(2)]] by simp
  show "grid 0" unfolding grid_def by (intro exI [of _ 0]) simp
qed

lemma post_grid:
  assumes "grid (la_balance acc)" and "grid x" and "post x acc = Inr acc'"
  shows "acc' = acc\<lparr>la_balance := la_balance acc + x, la_version := la_version acc + 1\<rparr>"
    and "\<not> allow_negative acc \<longrightarrow> 0 \<le> la_balance acc + x" and "\<not> allow_positive acc \<longrightarrow> la_balance acc + x \<le> 0"
  using assms(3) numeric12_grid [OF grid_closed(1) [OF assms(1,2)]]
  by (auto simp: post_def ledger_check_account_balance_constraints_def split: if_splits)

text \<open>What a transfer that succeeds has written.\<close>

lemma insert_transfer_ok:
  assumes "insert_transfer tid src dst x k L = Inr L'"
  obtains r where "L' = L\<lparr>transfers := transfers L @ [r]\<rparr>" "lt_key r = k" "lt_id r = tid"
    "k \<notin> used_keys L" "tid \<notin> lt_id ` set (transfers L)"
proof -
  have "k \<notin> used_keys L" "tid \<notin> lt_id ` set (transfers L)"
    using assms by (auto simp: insert_transfer_def bindE_eq_Inr used_keys_def split: if_splits)
  moreover obtain y where "L' = L\<lparr>transfers := transfers L @ [\<lparr>lt_id = tid, lt_from = src, lt_to = dst, lt_amount = y, lt_key = k\<rparr>]\<rparr>"
    using assms by (auto simp: insert_transfer_def bindE_eq_Inr split: if_splits)
  ultimately show thesis using that by simp
qed

lemma insert_entry_ok:
  assumes "insert_entry aid tid x acc L = Inr L'"
  obtains e where "L' = L\<lparr>entries := entries L @ [e]\<rparr>" "le_account e = aid" "le_transfer e = tid" "numeric12 x = Inr (le_amount e)"
proof -
  obtain am prev where "numeric12 x = Inr am" "L' = L\<lparr>entries := entries L @ [\<lparr>le_account = aid, le_transfer = tid, le_amount = am,
      le_previous = prev, le_current = la_balance acc, le_version = la_version acc\<rparr>]\<rparr>"
    using assms by (auto simp: insert_entry_def bindE_eq_Inr split: if_splits)
  then show thesis by (intro that [of "\<lparr>le_account = aid, le_transfer = tid, le_amount = am, le_previous = prev,
      le_current = la_balance acc, le_version = la_version acc\<rparr>"]) simp_all
qed

lemma create_success:
  assumes "ledger_create_transfer tid src dst x k L = Inr L'"
  obtains f0 t0 f t r e1 e2 where "0 < x" "src \<noteq> dst" "map_of (accounts L) src = Some f0" "map_of (accounts L) dst = Some t0"
    "post (- x) f0 = Inr f" "post x t0 = Inr t" "k \<notin> used_keys L" "tid \<notin> lt_id ` set (transfers L)"
    "map_of (accounts L') = (map_of (accounts L))(src \<mapsto> f, dst \<mapsto> t)"
    "transfers L' = transfers L @ [r]" "lt_key r = k" "lt_id r = tid"
    "entries L' = entries L @ [e1, e2]" "le_account e1 = src" "le_account e2 = dst" "le_transfer e1 = tid" "le_transfer e2 = tid"
    "numeric12 (- x) = Inr (le_amount e1)" "numeric12 x = Inr (le_amount e2)"
proof -
  obtain f0 t0 f t L1 L2 where c: "0 < x" "src \<noteq> dst" "map_of (accounts L) src = Some f0" "map_of (accounts L) dst = Some t0"
    "post (- x) f0 = Inr f" "post x t0 = Inr t"
    "insert_transfer tid src dst x k (L\<lparr>accounts := AList.update dst t (AList.update src f (accounts L))\<rparr>) = Inr L1"
    "insert_entry src tid (- x) f L1 = Inr L2" "insert_entry dst tid x t L2 = Inr L'"
    using assms by (auto simp: ledger_create_transfer_def bindE_eq_Inr not_le split: if_splits option.splits)
  obtain r where r: "L1 = L\<lparr>accounts := AList.update dst t (AList.update src f (accounts L)), transfers := transfers L @ [r]\<rparr>"
    "lt_key r = k" "lt_id r = tid" "k \<notin> used_keys L" "tid \<notin> lt_id ` set (transfers L)"
    using insert_transfer_ok [OF c(7)] by (auto simp: used_keys_def)
  obtain e1 where e1: "L2 = L1\<lparr>entries := entries L1 @ [e1]\<rparr>" "le_account e1 = src" "le_transfer e1 = tid" "numeric12 (- x) = Inr (le_amount e1)"
    by (rule insert_entry_ok [OF c(8)])
  obtain e2 where e2: "L' = L2\<lparr>entries := entries L2 @ [e2]\<rparr>" "le_account e2 = dst" "le_transfer e2 = tid" "numeric12 x = Inr (le_amount e2)"
    by (rule insert_entry_ok [OF c(9)])
  have "map_of (accounts L') = (map_of (accounts L))(src \<mapsto> f, dst \<mapsto> t)" "transfers L' = transfers L @ [r]" "entries L' = entries L @ [e1, e2]"
    by (simp_all add: e2(1) e1(1) r(1) update_conv')
  then show thesis using that c(1-6) r(2-5) e1(2-4) e2(2-4) by blast
qed

lemma TransferMoney_success:
  "TransferMoney tid src dst x k L = Inr L' \<Longrightarrow> k \<noteq> [] \<and> ledger_create_transfer tid src dst x k L = Inr L'"
  by (auto simp: TransferMoney_def split: if_splits sum.splits)

lemma account_ok_other:
  "entries_of a L' = entries_of a L \<Longrightarrow> account_ok L a acc \<Longrightarrow> account_ok L' a acc"
  by (auto simp: account_ok_def)

lemma account_ok_post:
  assumes "account_ok L a acc" and "grid x" and "post x acc = Inr acc'"
    and "entries_of a L' = entries_of a L @ [e]" and "le_amount e = x"
  shows "account_ok L' a acc' \<and> la_balance acc' = la_balance acc + x"
proof -
  have "grid (la_balance acc)" using assms(1) by (auto simp: account_ok_def)
  note p = post_grid [OF this assms(2,3)]
  show ?thesis using assms(1,4,5) p grid_closed(1) [OF \<open>grid (la_balance acc)\<close> assms(2)] by (auto simp: account_ok_def)
qed

lemma create_books:
  assumes "books L" and "grid x" and "ledger_create_transfer tid src dst x k L = Inr L'"
  shows "books L' \<and> (\<exists>s d. balance_of L src = Some s \<and> balance_of L dst = Some d \<and>
    balance_of L' = (balance_of L)(src \<mapsto> s - x, dst \<mapsto> d + x))"
proof -
  obtain f0 t0 f t r e1 e2 where s: "0 < x" "src \<noteq> dst" "map_of (accounts L) src = Some f0" "map_of (accounts L) dst = Some t0"
    "post (- x) f0 = Inr f" "post x t0 = Inr t" "k \<notin> used_keys L" "tid \<notin> lt_id ` set (transfers L)"
    "map_of (accounts L') = (map_of (accounts L))(src \<mapsto> f, dst \<mapsto> t)"
    "transfers L' = transfers L @ [r]" "lt_key r = k" "lt_id r = tid"
    "entries L' = entries L @ [e1, e2]" "le_account e1 = src" "le_account e2 = dst" "le_transfer e1 = tid" "le_transfer e2 = tid"
    "numeric12 (- x) = Inr (le_amount e1)" "numeric12 x = Inr (le_amount e2)"
    using create_success [OF assms(3)] by blast
  have am: "le_amount e1 = - x" "le_amount e2 = x"
    using s(18,19) numeric12_grid [OF assms(2)] numeric12_grid [OF grid_closed(2) [OF assms(2)]] by (auto split: if_splits)
  have en: "entries_of src L' = entries_of src L @ [e1]" "entries_of dst L' = entries_of dst L @ [e2]"
    "\<And>a. a \<noteq> src \<Longrightarrow> a \<noteq> dst \<Longrightarrow> entries_of a L' = entries_of a L"
    using s(2,13-15) by (simp_all add: entries_of_def)
  have acc: "\<And>a acc. map_of (accounts L) a = Some acc \<Longrightarrow> account_ok L a acc" using assms(1) by (simp add: books_def)
  have src: "account_ok L' src f \<and> la_balance f = la_balance f0 - x"
    using account_ok_post [OF acc [OF s(3)] grid_closed(2) [OF assms(2)] s(5) en(1) am(1)] by simp
  have dst: "account_ok L' dst t \<and> la_balance t = la_balance t0 + x"
    using account_ok_post [OF acc [OF s(4)] assms(2) s(6) en(2) am(2)] .
  have "account_ok L' a ac" if "map_of (accounts L') a = Some ac" for a ac
    using that s(2,9) src dst acc account_ok_other [OF en(3)] by (auto split: if_splits)
  moreover have "sum_list (map le_amount (filter (\<lambda>e. le_transfer e = lt_id u) (entries L'))) = 0" if "u \<in> set (transfers L')" for u
  proof (cases "u = r")
    case True
    have "filter (\<lambda>e. le_transfer e = tid) (entries L) = []"
      using assms(1) s(8) by (auto simp: books_def filter_empty_conv)
    with True show ?thesis using s(12,13,16,17) am by simp
  next
    case False
    with that s(10) have u: "u \<in> set (transfers L)" by simp
    with s(8) have "lt_id u \<noteq> tid" by auto
    with u assms(1) s(13,16,17) show ?thesis by (simp add: books_def)
  qed
  ultimately have "books L'"
    using assms(1) s(7,8,10-13,16,17) by (auto simp: books_def used_keys_def)
  moreover have "balance_of L' = (balance_of L)(src \<mapsto> la_balance f0 - x, dst \<mapsto> la_balance t0 + x)"
    using s(9) src dst by (auto simp: balance_of_def fun_eq_iff)
  ultimately show ?thesis using s(3,4) by (auto simp: balance_of_def)
qed

interpretation ledger_book: transfer_book TransferMoney balance_of used_keys books grid
proof
  show "finite (dom (balance_of L))" for L
    by (rule finite_subset [of _ "dom (map_of (accounts L))"]) (auto simp: balance_of_def finite_dom_map_of)
next
  fix L L' tid a b x k
  assume ok: "TransferMoney tid a b x k L = Inr L'"
  then have c: "ledger_create_transfer tid a b x k L = Inr L'" using TransferMoney_success by blast
  show "k \<notin> used_keys L \<and> used_keys L' = insert k (used_keys L)"
    by (rule create_success [OF c]) (simp add: used_keys_def)
  assume b: "books L" "grid x"
  show "books L'" using create_books [OF b c] by blast
  show "0 < x \<and> a \<noteq> b \<and> (\<exists>s d. balance_of L a = Some s \<and> balance_of L b = Some d \<and>
      balance_of L' = (balance_of L)(a \<mapsto> s - x, b \<mapsto> d + x))"
    using create_books [OF b c] create_success [OF c] by metis
qed

subsection \<open>Properties\<close>

definition total_balance :: "ledger \<Rightarrow> real" where
  "total_balance L = (\<Sum>a\<in>dom (balance_of L). the (balance_of L a))"

definition attempt_transfer :: "transfer_req \<Rightarrow> ledger \<Rightarrow> ledger" where
  "attempt_transfer r L = (case r of (tid, a, b, x, k) \<Rightarrow> (case TransferMoney tid a b x k L of Inl e \<Rightarrow> L | Inr L' \<Rightarrow> L'))"

lemma ledger_attempts:
  assumes "books L" and "\<forall>(tid, a, b, x, k)\<in>set rs. grid x"
  shows "books (fold attempt_transfer rs L)" and "total_balance (fold attempt_transfer rs L) = total_balance L"
    and "used_keys L \<subseteq> used_keys (fold attempt_transfer rs L)"
proof -
  have "attempt_transfer = ledger_book.attempt" by (simp add: fun_eq_iff attempt_transfer_def ledger_book.attempt_def)
  with ledger_book.attempts_sound [OF assms] show "books (fold attempt_transfer rs L)"
    "total_balance (fold attempt_transfer rs L) = total_balance L" "used_keys L \<subseteq> used_keys (fold attempt_transfer rs L)"
    unfolding total_balance_def ledger_book.total_def by metis+
qed


definition demo_account :: "string option \<Rightarrow> account_type \<Rightarrow> ledger_account" where
  "demo_account user ty = \<lparr>la_user = user, la_type = ty, la_balance = 0, la_currency = ''USDT'',
     allow_negative = (ty = Custody), allow_positive = True, la_version = 0\<rparr>"

definition demo_ledger :: ledger where
  "demo_ledger = \<lparr>accounts = [(''bank'', demo_account None Custody), (''ann'', demo_account (Some ''u1'') Liability),
     (''house'', demo_account None House)], transfers = [], entries = []\<rparr>"

lemma demo_books: "books demo_ledger"
  using grid_closed(4)
  by (auto simp: books_def demo_ledger_def demo_account_def account_ok_def entries_of_def split: if_splits)

lemma grid_int: "grid (of_int k)"
  unfolding grid_def by (intro exI [of _ "k * 10 ^ 12"]) simp

lemma numeric12_int: "numeric12 (of_int k) = (if \<bar>real_of_int k\<bar> < 10 ^ 15 then Inr (of_int k) else Inl NumericOverflow)"
  by (rule numeric12_grid [OF grid_int])

lemmas numeric12_numeral = numeric12_int [of "numeral n" for n, simplified] numeric12_int [of "- numeral n" for n, simplified]
  numeric12_int [of 0, simplified] numeric12_int [of 1, simplified] numeric12_int [of "- 1", simplified]

lemmas transfer_defs = TransferMoney_def ledger_create_transfer_def post_def insert_transfer_def insert_entry_def
  ledger_check_account_balance_constraints_def numeric12_numeral


text \<open>
  An amount with half a unit in the thirteenth decimal creates money: the debit is rounded down and the credit up. The stake of a bet,
  whose scale no rule of the server limits, may be such an amount.
\<close>

lemma half_unit_creates_money:
  assumes "grid (la_balance f)" and "grid (la_balance t)" and "0 \<le> la_balance t"
    and "x = (of_int k + 1 / 2) / 10 ^ 12" and "0 \<le> k" and "x \<le> la_balance f"
    and "post (- x) f = Inr f'" and "post x t = Inr t'"
  shows "la_balance f' + la_balance t' = la_balance f + la_balance t + 1 / 10 ^ 12"
proof -
  obtain i j :: int where ij: "la_balance f = of_int i / 10 ^ 12" "la_balance t = of_int j / 10 ^ 12"
    using assms(1,2) by (auto simp: grid_def)
  have d: "(la_balance f - x) * 10 ^ 12 = of_int (i - k) - 1 / 2" "(la_balance t + x) * 10 ^ 12 = of_int (j + k) + 1 / 2"
    unfolding ij assms(4) by (simp_all add: field_simps)
  have "0 \<le> (la_balance f - x) * 10 ^ 12" using assms(6) by simp
  then have "half_away ((la_balance f - x) * 10 ^ 12) = i - k" unfolding d(1) by (simp add: half_away_def)
  moreover have "0 \<le> (la_balance t + x) * 10 ^ 12" using assms(3-5) by simp
  then have "half_away ((la_balance t + x) * 10 ^ 12) = j + k + 1"
    unfolding d(2) by (simp add: half_away_def)
  ultimately have "la_balance f' = of_int (i - k) / 10 ^ 12" "la_balance t' = of_int (j + k + 1) / 10 ^ 12"
    using assms(7,8)
    by (auto simp: post_def numeric12_def Let_def ledger_check_account_balance_constraints_def split: if_splits)
  with ij show ?thesis by (simp add: field_simps)
qed

end
