(* ===== verification/Server.thy ===== *)
theory Server
  imports Engine Ledger
begin

section \<open>Bets on the server\<close>

text \<open>
  \<^verbatim>\<open>src/backend/internal/market/transactions.go\<close>: placing a bet, cashing it out, settling and cancelling a market. The
  database is a record of its tables. A transaction is a function of the state it is serialised in and returns the state it commits,
  or an error and nothing, since the deferred rollback undoes what it wrote. The time of the transaction, the identifiers the
  database draws and the decimals of the market maker are arguments. A value that a numeric column takes is rounded to it; a
  statement the database refuses is the error \<open>OtherError\<close>. Announcements of changes to the other parts of the server are left out.
\<close>

subsection \<open>Tables\<close>

datatype db_status = Draft | Opened | MPaused | MPending | MResolved | Cancelled

record market_row =
  mk_id :: string
  mk_status :: db_status
  mk_close :: "int option"
  mk_house :: string
  mk_alpha :: real
  mk_cap :: real
  mk_version :: int
  mk_volume :: real

record outcomes_row =
  oc_id :: int
  oc_market :: string
  oc_quantity :: real
  oc_volume :: real

record bet_row =
  bt_id :: string
  bt_account :: string
  bt_transfer :: string
  bt_outcome :: int
  bt_side :: bet_side
  bt_payout :: real
  bt_paid :: real
  bt_avg :: real
  bt_key :: string

record cashout_row =
  co_id :: string
  co_bet :: string
  co_transfer :: string
  co_payout :: real
  co_key :: string

record db =
  db_markets :: "market_row list"
  db_outcomes :: "outcomes_row list"
  db_bets :: "bet_row list"
  db_cashouts :: "cashout_row list"
  db_resolutions :: "(string \<times> int) list"
  db_cancellations :: "string list"
  db_wagered :: "(string \<times> real) list"
  db_ledger :: ledger

record bet_request =
  rq_account :: string
  rq_user :: string
  rq_market :: string
  rq_outcome :: int
  rq_side :: bet_side
  rq_amount :: real
  rq_minGain :: real
  rq_key :: string

record cashout_req =
  cr_bet :: string
  cr_user :: string
  cr_minGain :: real
  cr_key :: string

definition sql :: "sql_error + 'a \<Rightarrow> repo_error + 'a" where
  "sql m = (case m of Inl e \<Rightarrow> Inl OtherError | Inr x \<Rightarrow> Inr x)"

text \<open>The column \<^verbatim>\<open>NUMERIC(13, 12)\<close> of an average price.\<close>

definition price_column :: "real \<Rightarrow> sql_error + real" where
  "price_column x = bindE (numeric12 x) (\<lambda>r. if \<bar>r\<bar> < 10 then Inr r else Inl NumericOverflow)"

subsection \<open>Reading a market\<close>

definition not_closed :: "int \<Rightarrow> market_row \<Rightarrow> bool" where
  "not_closed now m = (case mk_close m of None \<Rightarrow> True | Some c \<Rightarrow> now < c)"

definition market_state :: "int \<Rightarrow> string \<Rightarrow> db \<Rightarrow> (market_row \<times> outcomes_row list) option" where
  "market_state now mid d =
     (case List.find (\<lambda>m. mk_id m = mid \<and> mk_status m = Opened \<and> not_closed now m) (db_markets d) of
        None \<Rightarrow> None
      | Some m \<Rightarrow>
          let os = sort_key oc_id (filter (\<lambda>ob. oc_market ob = mid) (db_outcomes d))
          in if os = [] then None else Some (m, os))"

subsection \<open>Placing a bet\<close>

definition insert_bet :: "string \<Rightarrow> string \<Rightarrow> real \<Rightarrow> real \<Rightarrow> bet_request \<Rightarrow> db \<Rightarrow> repo_error + db" where
  "insert_bet bid tid gain avg r d =
     bindE (sql (numeric12 gain)) (\<lambda>payout. bindE (sql (numeric12 (rq_amount r))) (\<lambda>paid. bindE (sql (price_column avg)) (\<lambda>price.
       if payout < 0 then Inl OtherError
       else if \<exists>b\<in>set (db_bets d). bt_key b = rq_key r then Inl ErrBetAlreadyPlaced
       else if \<exists>b\<in>set (db_bets d). bt_id b = bid then Inl OtherError
       else Inr (d\<lparr>db_bets := db_bets d @ [\<lparr>bt_id = bid, bt_account = rq_account r, bt_transfer = tid, bt_outcome = rq_outcome r,
         bt_side = rq_side r, bt_payout = payout, bt_paid = paid, bt_avg = price, bt_key = rq_key r\<rparr>]\<rparr>))))"

text \<open>The update of the quantities: of one outcome, or of every other row of the table.\<close>

definition raised_volume :: "real option \<Rightarrow> real \<Rightarrow> repo_error + real" where
  "raised_volume vol v = (case vol of None \<Rightarrow> Inr v | Some x \<Rightarrow> sql (numeric12 (v + x)))"

definition add_quantity :: "(outcomes_row \<Rightarrow> bool) \<Rightarrow> real \<Rightarrow> real option \<Rightarrow> db \<Rightarrow> repo_error + db" where
  "add_quantity sel shares vol d =
     bindE (mapE (\<lambda>ob. if \<not> sel ob then Inr ob
         else bindE (sql (numeric12 (oc_quantity ob + shares))) (\<lambda>x. bindE (raised_volume vol (oc_volume ob)) (\<lambda>v.
           if x < 0 then Inl OtherError else Inr (ob\<lparr>oc_quantity := x, oc_volume := v\<rparr>)))) (db_outcomes d))
       (\<lambda>os. Inr (d\<lparr>db_outcomes := os\<rparr>))"

definition bump_market :: "int \<Rightarrow> string \<Rightarrow> real option \<Rightarrow> db \<Rightarrow> repo_error + db" where
  "bump_market now mid vol d =
     (if \<not> (\<exists>m\<in>set (db_markets d). mk_id m = mid \<and> not_closed now m) then Inl ErrMarketNotFound
      else bindE (mapE (\<lambda>m. if mk_id m = mid \<and> not_closed now m
          then bindE (raised_volume vol (mk_volume m)) (\<lambda>v. Inr (m\<lparr>mk_version := mk_version m + 1, mk_volume := v\<rparr>))
          else Inr m) (db_markets d))
        (\<lambda>ms. Inr (d\<lparr>db_markets := ms\<rparr>)))"

definition add_wagered :: "string \<Rightarrow> real \<Rightarrow> db \<Rightarrow> repo_error + db" where
  "add_wagered user x d =
     bindE (mapE (\<lambda>(u, w). if u = user then bindE (sql (numeric12 (w + x))) (\<lambda>w'. Inr (u, w')) else Inr (u, w)) (db_wagered d))
       (\<lambda>ws. Inr (d\<lparr>db_wagered := ws\<rparr>))"

definition commit_bet ::
    "int \<Rightarrow> string \<Rightarrow> string \<Rightarrow> string \<Rightarrow> real \<Rightarrow> real \<Rightarrow> bet_request \<Rightarrow> db \<Rightarrow> repo_error + db" where
  "commit_bet now tid bid house gain avg r d =
     bindE (TransferMoney tid (rq_account r) house (rq_amount r) (rq_key r) (db_ledger d)) (\<lambda>L.
     bindE (insert_bet bid tid gain avg r (d\<lparr>db_ledger := L\<rparr>)) (\<lambda>d1.
     bindE (case rq_side r of
         SideY \<Rightarrow> add_quantity (\<lambda>ob. oc_id ob = rq_outcome r) gain (Some (rq_amount r)) d1
       | SideN \<Rightarrow> add_quantity (\<lambda>ob. oc_id ob \<noteq> rq_outcome r) gain (Some (rq_amount r)) d1) (\<lambda>d2.
     bindE (bump_market now (rq_market r) (Some (rq_amount r)) d2) (\<lambda>d3.
     add_wagered (rq_user r) (rq_amount r) d3))))"

definition addBetOnce :: "bigdec \<Rightarrow> int \<Rightarrow> string \<Rightarrow> string \<Rightarrow> bet_request \<Rightarrow> db \<Rightarrow> (repo_error + db) option" where
  "addBetOnce B now tid bid r d =
     (case market_state now (rq_market r) d of
        None \<Rightarrow> Some (Inl ErrMarketNotFound)
      | Some (m, os) \<Rightarrow>
          if length os = 2 \<and> rq_side r = SideN then Some (Inl ErrNoBetBinaryMarket)
          else let idx = findIndex (\<lambda>ob. oc_id ob = rq_outcome r) os in
          if idx = -1 then Some (Inl ErrOutcomeNotFound)
          else case map_of (accounts (db_ledger d)) (rq_account r) of
            None \<Rightarrow> Some (Inl OtherError)
          | Some acc \<Rightarrow>
              if la_balance acc < rq_amount r then Some (Inl ErrInsufficientFunds)
              else (case PossibleGainPriceForBuy B (map oc_quantity os) (nat idx) (rq_side r = SideY) (mk_alpha m) (rq_amount r) (mk_cap m) of
                  None \<Rightarrow> None
                | Some (Inl e) \<Rightarrow> Some (Inl OtherError)
                | Some (Inr (possible, gain, avg)) \<Rightarrow> Some
                    (if \<not> possible then Inl ErrInvalidBetAmount
                     else if gain < rq_minGain r then Inl ErrInvalidQuotedGain
                     else commit_bet now tid bid (mk_house m) gain avg r d)))"

text \<open>
  Up to three attempts. What happens to attempt \<open>i\<close> is an argument: the database aborts it because of a conflict, and the request
  may be cancelled while the server waits to try again, or it runs on a state.
\<close>

datatype run =
    Conflict (cancelled: bool)
  | Runs int string string db

fun bet_attempts :: "bigdec \<Rightarrow> bet_request \<Rightarrow> (nat \<Rightarrow> run) \<Rightarrow> nat list \<Rightarrow> (repo_error + db) option" where
  "bet_attempts B r runs [] = Some (Inl OtherError)"
| "bet_attempts B r runs (i # is) =
     (case runs i of
        Conflict c \<Rightarrow> if is = [] \<or> c then Some (Inl OtherError) else bet_attempts B r runs is
      | Runs now tid bid d \<Rightarrow> addBetOnce B now tid bid r d)"

definition AddBet :: "bigdec \<Rightarrow> bet_request \<Rightarrow> (nat \<Rightarrow> run) \<Rightarrow> (repo_error + db) option" where
  "AddBet B r runs =
     (if rq_amount r < 1 / 10 \<or> 10000 < rq_amount r then Some (Inl ErrInvalidBetAmount)
      else if rq_minGain r \<le> rq_amount r then Some (Inl ErrInvalidQuotedGain)
      else bet_attempts B r runs [0..<3])"

subsection \<open>Cashing out\<close>

definition account_user :: "string \<Rightarrow> db \<Rightarrow> string option" where
  "account_user a d = Option.bind (map_of (accounts (db_ledger d)) a) la_user"

text \<open>The bet to cash out, read outside the transaction, with the market of its outcome.\<close>

definition find_cashable :: "cashout_req \<Rightarrow> db \<Rightarrow> (string \<times> bet_row) option" where
  "find_cashable r d =
     (case List.find (\<lambda>b. bt_id b = cr_bet r \<and> account_user (bt_account b) d = Some (cr_user r) \<and>
          \<not> (\<exists>c\<in>set (db_cashouts d). co_bet c = bt_id b)) (db_bets d) of
        None \<Rightarrow> None
      | Some b \<Rightarrow> map_option (\<lambda>ob. (oc_market ob, b)) (List.find (\<lambda>ob. oc_id ob = bt_outcome b) (db_outcomes d)))"

definition insert_cashout :: "string \<Rightarrow> string \<Rightarrow> real \<Rightarrow> bet_row \<Rightarrow> string \<Rightarrow> db \<Rightarrow> repo_error + db" where
  "insert_cashout cid tid gain b k d =
     bindE (sql (numeric12 gain)) (\<lambda>payout.
       if \<exists>c\<in>set (db_cashouts d). co_key c = k then Inl ErrBetAlreadyCashedOut
       else if \<exists>c\<in>set (db_cashouts d). co_bet c = bt_id b \<or> co_id c = cid then Inl OtherError
       else Inr (d\<lparr>db_cashouts := db_cashouts d @ [\<lparr>co_id = cid, co_bet = bt_id b, co_transfer = tid, co_payout = payout, co_key = k\<rparr>]\<rparr>))"

text \<open>The shares that hedge the bet are added to all other outcomes of the market, whichever side the bet was on.\<close>

definition commit_cashout :: "int \<Rightarrow> string \<Rightarrow> string \<Rightarrow> market_row \<Rightarrow> bet_row \<Rightarrow> real \<Rightarrow> string \<Rightarrow> db \<Rightarrow> repo_error + db" where
  "commit_cashout now tid cid m b gain k d =
     bindE (TransferMoney tid (mk_house m) (bt_account b) gain k (db_ledger d)) (\<lambda>L.
     bindE (insert_cashout cid tid gain b k (d\<lparr>db_ledger := L\<rparr>)) (\<lambda>d1.
     bindE (add_quantity (\<lambda>ob. oc_market ob = mk_id m \<and> oc_id ob \<noteq> bt_outcome b) (bt_payout b) None d1) (\<lambda>d2.
     bump_market now (mk_id m) None d2)))"

definition cashoutBetOnce ::
    "bigdec \<Rightarrow> int \<Rightarrow> string \<Rightarrow> string \<Rightarrow> string \<Rightarrow> bet_row \<Rightarrow> cashout_req \<Rightarrow> db \<Rightarrow> repo_error + db" where
  "cashoutBetOnce B now tid cid mid b r d =
     (case market_state now mid d of
        None \<Rightarrow> Inl ErrMarketNotFound
      | Some (m, os) \<Rightarrow>
          let idx = findIndex (\<lambda>ob. oc_id ob = bt_outcome b) os in
          if idx = -1 then Inl ErrOutcomeNotFound
          else (case PossibleGainForSell B (map oc_quantity os) (nat idx) (bt_side b = SideY) (mk_alpha m) (bt_payout b) (mk_cap m) of
              Inl e \<Rightarrow> Inl OtherError
            | Inr None \<Rightarrow> Inl ErrInvalidBetAmount
            | Inr (Some gain) \<Rightarrow>
                if gain < cr_minGain r \<or> gain \<le> 0 then Inl ErrInvalidQuotedGain
                else commit_cashout now tid cid m b gain (cr_key r) d))"

fun cashout_attempts :: "bigdec \<Rightarrow> string \<Rightarrow> bet_row \<Rightarrow> cashout_req \<Rightarrow> (nat \<Rightarrow> run) \<Rightarrow> nat list \<Rightarrow> repo_error + db" where
  "cashout_attempts B mid b r runs [] = Inl OtherError"
| "cashout_attempts B mid b r runs (i # is) =
     (case runs i of
        Conflict c \<Rightarrow> if is = [] \<or> c then Inl OtherError else cashout_attempts B mid b r runs is
      | Runs now tid cid d \<Rightarrow> cashoutBetOnce B now tid cid mid b r d)"

definition CashoutBet :: "bigdec \<Rightarrow> cashout_req \<Rightarrow> db \<Rightarrow> (nat \<Rightarrow> run) \<Rightarrow> repo_error + db" where
  "CashoutBet B r d runs =
     (case find_cashable r d of
        None \<Rightarrow> Inl ErrBetNotFound
      | Some (mid, b) \<Rightarrow> cashout_attempts B mid b r runs [0..<3])"

subsection \<open>Settling and cancelling\<close>

definition settle_key :: "string \<Rightarrow> string \<Rightarrow> string" where
  "settle_key mid a = ''settle:'' @ mid @ '':'' @ a"

text \<open>The sums of a column of some bets for each account; SQL leaves the order of the groups open, here it is that of their last bets.\<close>

definition per_account :: "(bet_row \<Rightarrow> real) \<Rightarrow> bet_row list \<Rightarrow> (string \<times> real) list" where
  "per_account f bs = map (\<lambda>a. (a, sum_list (map f (filter (\<lambda>b. bt_account b = a) bs)))) (remdups (map bt_account bs))"

definition market_bets :: "string \<Rightarrow> db \<Rightarrow> bet_row list" where
  "market_bets mid d = filter (\<lambda>b. \<exists>ob\<in>set (db_outcomes d). oc_id ob = bt_outcome b \<and> oc_market ob = mid) (db_bets d)"

fun pay_all :: "(nat \<Rightarrow> string) \<Rightarrow> string \<Rightarrow> string \<Rightarrow> nat \<Rightarrow> (string \<times> real) list \<Rightarrow> ledger \<Rightarrow> repo_error + ledger" where
  "pay_all tids house mid i [] L = Inr L"
| "pay_all tids house mid i ((a, x) # ps) L =
     bindE (TransferMoney (tids i) house a x (settle_key mid a) L) (pay_all tids house mid (Suc i) ps)"

definition open_or_paused :: "string \<Rightarrow> db \<Rightarrow> market_row option" where
  "open_or_paused mid d = List.find (\<lambda>m. mk_id m = mid \<and> (mk_status m = Opened \<or> mk_status m = MPaused)) (db_markets d)"

definition set_status :: "string \<Rightarrow> db_status \<Rightarrow> db \<Rightarrow> db" where
  "set_status mid s d = d\<lparr>db_markets := map (\<lambda>m. if mk_id m = mid then m\<lparr>mk_status := s, mk_version := mk_version m + 1\<rparr> else m) (db_markets d)\<rparr>"

definition SettleMarket :: "(nat \<Rightarrow> string) \<Rightarrow> string \<Rightarrow> int \<Rightarrow> db \<Rightarrow> repo_error + db" where
  "SettleMarket tids mid winner d =
     (case List.find (\<lambda>ob. oc_id ob = winner) (db_outcomes d) of
        None \<Rightarrow> Inl ErrOutcomeNotFound
      | Some ob \<Rightarrow>
          if oc_market ob \<noteq> mid then Inl OtherError
          else (case open_or_paused mid d of
              None \<Rightarrow> Inl ErrMarketNotFound
            | Some m \<Rightarrow>
                if mid \<in> fst ` set (db_resolutions d) then Inl OtherError
                else bindE (pay_all tids (mk_house m) mid 0
                    (per_account bt_payout (filter (\<lambda>b. bt_outcome b = winner) (market_bets mid d))) (db_ledger d)) (\<lambda>L.
                  Inr (set_status mid MResolved
                    (d\<lparr>db_resolutions := db_resolutions d @ [(mid, winner)], db_ledger := L\<rparr>)))))"

text \<open>
  The refunds of a cancelled market are transferred while the rows with their amounts are still open. Whether the driver of the
  database accepts another statement on the connection then is an argument.
\<close>

definition CancelMarket :: "bool \<Rightarrow> (nat \<Rightarrow> string) \<Rightarrow> string \<Rightarrow> db \<Rightarrow> repo_error + db" where
  "CancelMarket busy tids mid d =
     (case open_or_paused mid d of
        None \<Rightarrow> Inl ErrMarketNotFound
      | Some m \<Rightarrow>
          if mid \<in> set (db_cancellations d) then Inl OtherError
          else let refunds = per_account bt_paid (market_bets mid d) in
          if busy \<and> refunds \<noteq> [] then Inl OtherError
          else bindE (pay_all tids (mk_house m) mid 0 refunds (db_ledger d)) (\<lambda>L.
            Inr (set_status mid Cancelled (d\<lparr>db_cancellations := db_cancellations d @ [mid], db_ledger := L\<rparr>))))"

subsection \<open>What the statements write\<close>

lemma mapE_list_all2: "mapE f xs = Inr ys \<longleftrightarrow> list_all2 (\<lambda>x y. f x = Inr y) xs ys"
proof (induction xs arbitrary: ys)
  case (Cons x xs)
  then show ?case by (cases ys) (auto simp: bindE_eq_Inr)
qed auto

lemma sql_Inr [simp]: "sql m = Inr x \<longleftrightarrow> m = Inr x"
  by (auto simp: sql_def split: sum.splits)

lemma half_away_mono: "of_int k \<le> x \<Longrightarrow> k \<le> half_away x"
proof -
  assume "of_int k \<le> x"
  then have "0 \<le> x \<Longrightarrow> k \<le> \<lfloor>x + 1 / 2\<rfloor>" "\<lfloor>1 / 2 - x\<rfloor> \<le> - k"
    by (simp_all add: le_floor_iff floor_le_iff)
  then show ?thesis by (auto simp: half_away_def)
qed

lemma numeric12_grid_result: "numeric12 x = Inr r \<Longrightarrow> grid r"
  unfolding grid_def numeric12_def Let_def by (metis Inl_Inr_False Inr_inject)

lemma numeric12_mono:
  assumes "grid y" and "y \<le> x" and "numeric12 x = Inr r"
  shows "y \<le> r"
proof -
  obtain k where k: "y = of_int k / 10 ^ 12" using assms(1) by (auto simp: grid_def)
  with assms(2) have "k \<le> half_away (x * 10 ^ 12)" by (intro half_away_mono) (simp add: divide_le_eq)
  with k assms(3) show ?thesis by (auto simp: numeric12_def Let_def divide_right_mono split: if_splits)
qed

lemma insert_bet_ok:
  assumes "insert_bet bid tid gain avg r d = Inr d'"
  obtains b where "d' = d\<lparr>db_bets := db_bets d @ [b]\<rparr>" "bt_id b = bid" "bt_account b = rq_account r" "bt_transfer b = tid"
    "bt_outcome b = rq_outcome r" "bt_side b = rq_side r" "numeric12 gain = Inr (bt_payout b)"
    "numeric12 (rq_amount r) = Inr (bt_paid b)" "bt_key b = rq_key r"
    "rq_key r \<notin> bt_key ` set (db_bets d)" "bid \<notin> bt_id ` set (db_bets d)"
proof -
  have fresh: "rq_key r \<notin> bt_key ` set (db_bets d)" "bid \<notin> bt_id ` set (db_bets d)"
    using assms by (auto simp: insert_bet_def bindE_eq_Inr split: if_splits)
  obtain payout paid price where c: "numeric12 gain = Inr payout" "numeric12 (rq_amount r) = Inr paid"
    "d' = d\<lparr>db_bets := db_bets d @ [\<lparr>bt_id = bid, bt_account = rq_account r, bt_transfer = tid, bt_outcome = rq_outcome r,
         bt_side = rq_side r, bt_payout = payout, bt_paid = paid, bt_avg = price, bt_key = rq_key r\<rparr>]\<rparr>"
    using assms by (auto simp: insert_bet_def bindE_eq_Inr split: if_splits)
  show thesis by (rule that [OF c(3)]) (simp_all add: c fresh)
qed

definition quantity_added :: "(outcomes_row \<Rightarrow> bool) \<Rightarrow> real \<Rightarrow> outcomes_row \<Rightarrow> outcomes_row \<Rightarrow> bool" where
  "quantity_added sel x ob ob' \<longleftrightarrow> oc_id ob' = oc_id ob \<and> oc_market ob' = oc_market ob \<and>
     (if sel ob then numeric12 (oc_quantity ob + x) = Inr (oc_quantity ob') else ob' = ob)"

lemma add_quantity_ok:
  assumes "add_quantity sel x vol d = Inr d'"
  obtains os where "d' = d\<lparr>db_outcomes := os\<rparr>" "list_all2 (quantity_added sel x) (db_outcomes d) os"
proof -
  obtain os where c: "d' = d\<lparr>db_outcomes := os\<rparr>" "list_all2 (\<lambda>ob y. (if \<not> sel ob then Inr ob
         else bindE (sql (numeric12 (oc_quantity ob + x))) (\<lambda>x. bindE (raised_volume vol (oc_volume ob)) (\<lambda>v.
           if x < 0 then Inl OtherError else Inr (ob\<lparr>oc_quantity := x, oc_volume := v\<rparr>)))) = Inr y) (db_outcomes d) os"
    using assms by (auto simp: add_quantity_def bindE_eq_Inr mapE_list_all2)
  from c(2) have "list_all2 (quantity_added sel x) (db_outcomes d) os"
    by (rule list_all2_mono) (auto simp: quantity_added_def bindE_eq_Inr split: if_splits)
  with c(1) that show thesis by blast
qed

definition bumped :: "int \<Rightarrow> string \<Rightarrow> market_row \<Rightarrow> market_row \<Rightarrow> bool" where
  "bumped now mid m m' \<longleftrightarrow> mk_id m' = mk_id m \<and> mk_status m' = mk_status m \<and> mk_close m' = mk_close m \<and> mk_house m' = mk_house m \<and>
     mk_alpha m' = mk_alpha m \<and> mk_cap m' = mk_cap m \<and>
     mk_version m' = mk_version m + (if mk_id m = mid \<and> not_closed now m then 1 else 0)"

lemma bump_market_ok:
  assumes "bump_market now mid vol d = Inr d'"
  obtains ms where "d' = d\<lparr>db_markets := ms\<rparr>" "list_all2 (bumped now mid) (db_markets d) ms"
proof -
  obtain ms where c: "d' = d\<lparr>db_markets := ms\<rparr>" "list_all2 (\<lambda>m m'. (if mk_id m = mid \<and> not_closed now m
          then bindE (raised_volume vol (mk_volume m)) (\<lambda>v. Inr (m\<lparr>mk_version := mk_version m + 1, mk_volume := v\<rparr>))
          else Inr m) = Inr m') (db_markets d) ms"
    using assms by (auto simp: bump_market_def bindE_eq_Inr mapE_list_all2 split: if_splits)
  from c(2) have "list_all2 (bumped now mid) (db_markets d) ms"
    by (rule list_all2_mono) (auto simp: bumped_def bindE_eq_Inr split: if_splits)
  with c(1) that show thesis by blast
qed

lemma add_wagered_ok:
  assumes "add_wagered user x d = Inr d'"
  obtains ws where "d' = d\<lparr>db_wagered := ws\<rparr>"
  using assms by (auto simp: add_wagered_def bindE_eq_Inr)

text \<open>The rows a No bet adds shares to are all rows but one, in whatever market.\<close>

definition bought_rows :: "bet_request \<Rightarrow> outcomes_row \<Rightarrow> bool" where
  "bought_rows r ob \<longleftrightarrow> (case rq_side r of SideY \<Rightarrow> oc_id ob = rq_outcome r | SideN \<Rightarrow> oc_id ob \<noteq> rq_outcome r)"

text \<open>The effect of a bet that is accepted.\<close>

definition placed :: "int \<Rightarrow> bet_request \<Rightarrow> db \<Rightarrow> db \<Rightarrow> bet_row \<Rightarrow> bool" where
  "placed now r d d' b \<longleftrightarrow>
     (\<exists>L os ms ws house gain. d' = d\<lparr>db_ledger := L, db_bets := db_bets d @ [b], db_outcomes := os, db_markets := ms, db_wagered := ws\<rparr> \<and>
        TransferMoney (bt_transfer b) (rq_account r) house (rq_amount r) (rq_key r) (db_ledger d) = Inr L \<and>
        (\<exists>m\<in>set (db_markets d). mk_id m = rq_market r \<and> mk_status m = Opened \<and> not_closed now m \<and> mk_house m = house) \<and>
        (\<exists>ob\<in>set (db_outcomes d). oc_id ob = rq_outcome r \<and> oc_market ob = rq_market r) \<and>
        rq_minGain r \<le> gain \<and> numeric12 gain = Inr (bt_payout b) \<and> numeric12 (rq_amount r) = Inr (bt_paid b) \<and>
        list_all2 (quantity_added (bought_rows r) gain) (db_outcomes d) os \<and> list_all2 (bumped now (rq_market r)) (db_markets d) ms) \<and>
     bt_account b = rq_account r \<and> bt_outcome b = rq_outcome r \<and> bt_side b = rq_side r \<and> bt_key b = rq_key r \<and>
     rq_key r \<notin> bt_key ` set (db_bets d) \<and> bt_id b \<notin> bt_id ` set (db_bets d)"

lemma commit_bet_eq:
  "commit_bet now tid bid house gain avg r d =
     bindE (TransferMoney tid (rq_account r) house (rq_amount r) (rq_key r) (db_ledger d)) (\<lambda>L.
     bindE (insert_bet bid tid gain avg r (d\<lparr>db_ledger := L\<rparr>)) (\<lambda>d1.
     bindE (add_quantity (bought_rows r) gain (Some (rq_amount r)) d1) (\<lambda>d2.
     bindE (bump_market now (rq_market r) (Some (rq_amount r)) d2) (add_wagered (rq_user r) (rq_amount r)))))"
  by (cases "rq_side r") (simp_all add: commit_bet_def bought_rows_def [abs_def])

lemma commit_bet_ok:
  assumes "commit_bet now tid bid house gain avg r d = Inr d'"
  obtains L b os ms ws where "d' = d\<lparr>db_ledger := L, db_bets := db_bets d @ [b], db_outcomes := os, db_markets := ms, db_wagered := ws\<rparr>"
    "TransferMoney (bt_transfer b) (rq_account r) house (rq_amount r) (rq_key r) (db_ledger d) = Inr L"
    "list_all2 (quantity_added (bought_rows r) gain) (db_outcomes d) os" "list_all2 (bumped now (rq_market r)) (db_markets d) ms"
    "numeric12 gain = Inr (bt_payout b)" "numeric12 (rq_amount r) = Inr (bt_paid b)"
    "bt_account b = rq_account r" "bt_outcome b = rq_outcome r" "bt_side b = rq_side r" "bt_key b = rq_key r"
    "rq_key r \<notin> bt_key ` set (db_bets d)" "bt_id b \<notin> bt_id ` set (db_bets d)"
proof -
  obtain L d1 d2 d3 where c: "TransferMoney tid (rq_account r) house (rq_amount r) (rq_key r) (db_ledger d) = Inr L"
    "insert_bet bid tid gain avg r (d\<lparr>db_ledger := L\<rparr>) = Inr d1" "add_quantity (bought_rows r) gain (Some (rq_amount r)) d1 = Inr d2"
    "bump_market now (rq_market r) (Some (rq_amount r)) d2 = Inr d3" "add_wagered (rq_user r) (rq_amount r) d3 = Inr d'"
    using assms by (auto simp: commit_bet_eq bindE_eq_Inr)
  obtain b where b: "d1 = d\<lparr>db_ledger := L, db_bets := db_bets d @ [b]\<rparr>" "bt_id b = bid" "bt_account b = rq_account r" "bt_transfer b = tid"
    "bt_outcome b = rq_outcome r" "bt_side b = rq_side r" "numeric12 gain = Inr (bt_payout b)"
    "numeric12 (rq_amount r) = Inr (bt_paid b)" "bt_key b = rq_key r"
    "rq_key r \<notin> bt_key ` set (db_bets d)" "bid \<notin> bt_id ` set (db_bets d)"
    by (rule insert_bet_ok [OF c(2)]) simp
  obtain os where os: "d2 = d1\<lparr>db_outcomes := os\<rparr>" "list_all2 (quantity_added (bought_rows r) gain) (db_outcomes d1) os"
    by (rule add_quantity_ok [OF c(3)])
  obtain ms where ms: "d3 = d2\<lparr>db_markets := ms\<rparr>" "list_all2 (bumped now (rq_market r)) (db_markets d2) ms"
    by (rule bump_market_ok [OF c(4)])
  obtain ws where ws: "d' = d3\<lparr>db_wagered := ws\<rparr>" by (rule add_wagered_ok [OF c(5)])
  have "d' = d\<lparr>db_ledger := L, db_bets := db_bets d @ [b], db_outcomes := os, db_markets := ms, db_wagered := ws\<rparr>"
    by (simp add: ws ms(1) os(1) b(1))
  then show thesis
    by (rule that [where b = b and os = os and ms = ms]) (use c(1) b os(2) ms(2) in \<open>simp_all add: os(1) b(1)\<close>)
qed

lemma market_state_ok:
  assumes "market_state now mid d = Some (m, os)"
  shows "m \<in> set (db_markets d)" "mk_id m = mid" "mk_status m = Opened" "not_closed now m"
    "set os = {ob \<in> set (db_outcomes d). oc_market ob = mid}"
  using assms by (auto simp: market_state_def Let_def find_Some_iff split: option.splits if_splits)

lemma addBetOnce_placed:
  assumes "addBetOnce B now tid bid r d = Some (Inr d')"
  shows "\<exists>b. placed now r d d' b"
proof -
  obtain m os acc gain avg where c: "market_state now (rq_market r) d = Some (m, os)"
    "findIndex (\<lambda>ob. oc_id ob = rq_outcome r) os \<noteq> -1" "map_of (accounts (db_ledger d)) (rq_account r) = Some acc"
    "rq_amount r \<le> la_balance acc" "rq_minGain r \<le> gain" "commit_bet now tid bid (mk_house m) gain avg r d = Inr d'"
    using assms by (auto simp: addBetOnce_def Let_def not_less split: option.splits if_splits sum.splits prod.splits)
  note m = market_state_ok [OF c(1)]
  have "\<exists>ob\<in>set os. oc_id ob = rq_outcome r" using c(2) findIndex_miss by blast
  then have ob: "\<exists>ob\<in>set (db_outcomes d). oc_id ob = rq_outcome r \<and> oc_market ob = rq_market r" using m(5) by auto
  show ?thesis
    by (rule commit_bet_ok [OF c(6)]) (use c(5) ob m in \<open>unfold placed_def, blast\<close>)
qed

lemma bet_attempts_run:
  "bet_attempts B r runs is = Some (Inr d') \<Longrightarrow>
     \<exists>i\<in>set is. \<exists>now tid bid d. runs i = Runs now tid bid d \<and> addBetOnce B now tid bid r d = Some (Inr d')"
proof (induction "is")
  case (Cons i "is")
  then show ?case by (cases "runs i") (auto split: if_splits)
qed simp

lemma insert_cashout_ok:
  assumes "insert_cashout cid tid gain b k d = Inr d'"
  obtains c where "d' = d\<lparr>db_cashouts := db_cashouts d @ [c]\<rparr>" "co_id c = cid" "co_bet c = bt_id b" "co_key c = k"
    "k \<notin> co_key ` set (db_cashouts d)" "bt_id b \<notin> co_bet ` set (db_cashouts d)"
proof -
  have fresh: "k \<notin> co_key ` set (db_cashouts d)" "bt_id b \<notin> co_bet ` set (db_cashouts d)"
    using assms by (auto simp: insert_cashout_def bindE_eq_Inr split: if_splits)
  obtain payout where c: "d' = d\<lparr>db_cashouts := db_cashouts d @ [\<lparr>co_id = cid, co_bet = bt_id b, co_transfer = tid, co_payout = payout, co_key = k\<rparr>]\<rparr>"
    using assms by (auto simp: insert_cashout_def bindE_eq_Inr split: if_splits)
  show thesis by (rule that [OF c]) (simp_all add: fresh)
qed

lemma sell_grid:
  assumes "PossibleGainForSell exact_big q idx yes al n cap = Inr (Some gain)"
  shows "grid gain"
proof -
  obtain x where "gain = round_dp ROUND_DOWN 12 x"
    using assms by (auto simp: PossibleGainForSell_def TruncatePrecision_def bindE_eq_Inr split: if_splits)
  then show ?thesis by (auto simp: round_dp_def grid_def)
qed

definition cashed :: "cashout_req \<Rightarrow> bet_row \<Rightarrow> db \<Rightarrow> db \<Rightarrow> bool" where
  "cashed r b d d' \<longleftrightarrow>
     (\<exists>L c os ms now m gain tid. d' = d\<lparr>db_ledger := L, db_cashouts := db_cashouts d @ [c], db_outcomes := os, db_markets := ms\<rparr> \<and>
        TransferMoney tid (mk_house m) (bt_account b) gain (cr_key r) (db_ledger d) = Inr L \<and> grid gain \<and> 0 < gain \<and> cr_minGain r \<le> gain \<and>
        m \<in> set (db_markets d) \<and> mk_status m = Opened \<and> not_closed now m \<and>
        co_bet c = bt_id b \<and> co_key c = cr_key r \<and> cr_key r \<notin> co_key ` set (db_cashouts d) \<and> bt_id b \<notin> co_bet ` set (db_cashouts d) \<and>
        list_all2 (quantity_added (\<lambda>ob. oc_market ob = mk_id m \<and> oc_id ob \<noteq> bt_outcome b) (bt_payout b)) (db_outcomes d) os \<and>
        list_all2 (bumped now (mk_id m)) (db_markets d) ms)"

lemma cashoutBetOnce_cashed:
  assumes "cashoutBetOnce exact_big now tid cid mid b r d = Inr d'"
  shows "cashed r b d d'"
proof -
  obtain m os idx gain where c: "market_state now mid d = Some (m, os)"
    "PossibleGainForSell exact_big (map oc_quantity os) idx (bt_side b = SideY) (mk_alpha m) (bt_payout b) (mk_cap m) = Inr (Some gain)"
    "cr_minGain r \<le> gain" "0 < gain" "commit_cashout now tid cid m b gain (cr_key r) d = Inr d'"
    using assms by (auto simp: cashoutBetOnce_def Let_def not_less not_le split: option.splits if_splits sum.splits)
  note m = market_state_ok [OF c(1)]
  obtain L d1 d2 where e: "TransferMoney tid (mk_house m) (bt_account b) gain (cr_key r) (db_ledger d) = Inr L"
    "insert_cashout cid tid gain b (cr_key r) (d\<lparr>db_ledger := L\<rparr>) = Inr d1"
    "add_quantity (\<lambda>ob. oc_market ob = mk_id m \<and> oc_id ob \<noteq> bt_outcome b) (bt_payout b) None d1 = Inr d2"
    "bump_market now (mk_id m) None d2 = Inr d'"
    using c(5) by (auto simp: commit_cashout_def bindE_eq_Inr)
  obtain co where co: "d1 = d\<lparr>db_ledger := L, db_cashouts := db_cashouts d @ [co]\<rparr>" "co_bet co = bt_id b" "co_key co = cr_key r"
    "cr_key r \<notin> co_key ` set (db_cashouts d)" "bt_id b \<notin> co_bet ` set (db_cashouts d)"
    by (rule insert_cashout_ok [OF e(2)]) simp
  obtain ros where ros: "d2 = d1\<lparr>db_outcomes := ros\<rparr>" "list_all2 (quantity_added (\<lambda>ob. oc_market ob = mk_id m \<and> oc_id ob \<noteq> bt_outcome b)
      (bt_payout b)) (db_outcomes d1) ros"
    by (rule add_quantity_ok [OF e(3)])
  obtain ms where ms: "d' = d2\<lparr>db_markets := ms\<rparr>" "list_all2 (bumped now (mk_id m)) (db_markets d2) ms"
    by (rule bump_market_ok [OF e(4)])
  have "d' = d\<lparr>db_ledger := L, db_cashouts := db_cashouts d @ [co], db_outcomes := ros, db_markets := ms\<rparr>"
    by (simp add: ms(1) ros(1) co(1))
  moreover have "list_all2 (quantity_added (\<lambda>ob. oc_market ob = mk_id m \<and> oc_id ob \<noteq> bt_outcome b) (bt_payout b)) (db_outcomes d) ros"
    "list_all2 (bumped now (mk_id m)) (db_markets d) ms"
    using ros(2) ms(2) by (simp_all add: ros(1) co(1))
  ultimately show ?thesis
    unfolding cashed_def using e(1) sell_grid [OF c(2)] c(3,4) m(1,3,4) co(2-5) by blast
qed

subsection \<open>Paying many accounts\<close>

definition due :: "(string \<times> real) list \<Rightarrow> string \<Rightarrow> real" where
  "due ps a = (case map_of ps a of None \<Rightarrow> 0 | Some x \<Rightarrow> x)"

lemma pay_all_ok:
  assumes "books L" and "\<forall>(a, x)\<in>set ps. grid x" and "distinct (map fst ps)" and "pay_all tids house mid i ps L = Inr L'"
  shows "books L' \<and> total_balance L' = total_balance L \<and> used_keys L' = used_keys L \<union> settle_key mid ` fst ` set ps \<and>
    house \<notin> fst ` set ps \<and> balance_of L' house = map_option (\<lambda>b. b - sum_list (map snd ps)) (balance_of L house) \<and>
    (\<forall>a. a \<noteq> house \<longrightarrow> balance_of L' a = map_option (\<lambda>b. b + due ps a) (balance_of L a))"
  using assms
proof (induction ps arbitrary: L i)
  case Nil
  then show ?case by (simp add: due_def option.map_ident)
next
  case (Cons p ps)
  obtain a x where p: "p = (a, x)" by (cases p)
  with Cons.prems(4) obtain L1 where t: "TransferMoney (tids i) house a x (settle_key mid a) L = Inr L1"
    and rest: "pay_all tids house mid (Suc i) ps L1 = Inr L'" by (auto simp: bindE_eq_Inr)
  have g: "grid x" using Cons.prems(2) p by simp
  note k = ledger_book.keeps [OF Cons.prems(1) g t] and u = ledger_book.uses [OF t]
  have tot: "total_balance L1 = total_balance L"
    using ledger_book.total_moved(2) [OF Cons.prems(1) g t] by (simp add: total_balance_def ledger_book.total_def)
  obtain s e where m: "house \<noteq> a" "balance_of L house = Some s" "balance_of L a = Some e"
    "balance_of L1 = (balance_of L)(house \<mapsto> s - x, a \<mapsto> e + x)"
    using ledger_book.moves [OF Cons.prems(1) g t] by blast
  have new: "a \<notin> fst ` set ps" using Cons.prems(3) p by simp
  then have "map_of ps a = None" by (simp add: map_of_eq_None_iff)
  with Cons.IH [OF k _ _ rest] Cons.prems(2,3) p tot u m new show ?case
    by (auto simp: due_def)
qed

lemma per_account_facts:
  shows "distinct (map fst (per_account f bs))"
    and "due (per_account f bs) a = sum_list (map f (filter (\<lambda>b. bt_account b = a) bs))"
proof -
  show "distinct (map fst (per_account f bs))" by (simp add: per_account_def comp_def)
  show "due (per_account f bs) a = sum_list (map f (filter (\<lambda>b. bt_account b = a) bs))"
  proof (cases "a \<in> bt_account ` set bs")
    case True
    then have "map_of (per_account f bs) a = Some (sum_list (map f (filter (\<lambda>b. bt_account b = a) bs)))"
      unfolding per_account_def map_of_map_restrict by (simp add: restrict_map_def)
    then show ?thesis by (simp add: due_def)
  next
    case False
    then have "map_of (per_account f bs) a = None" "filter (\<lambda>b. bt_account b = a) bs = []"
      by (auto simp: per_account_def map_of_eq_None_iff filter_empty_conv image_iff)
    then show ?thesis by (simp add: due_def)
  qed
qed

lemma grid_sum: "(\<forall>b\<in>set bs. grid (f b)) \<Longrightarrow> grid (sum_list (map f bs))"
  by (induction bs) (simp_all add: grid_closed)

lemma per_account_grid: "(\<forall>b\<in>set bs. grid (f b)) \<Longrightarrow> \<forall>(a, x)\<in>set (per_account f bs). grid x"
  by (auto simp: per_account_def intro!: grid_sum)

subsection \<open>The invariant of the database\<close>

definition bets_ok :: "string set \<Rightarrow> bet_row list \<Rightarrow> bool" where
  "bets_ok used bs \<longleftrightarrow> distinct (map bt_key bs) \<and> distinct (map bt_id bs) \<and>
     (\<forall>b\<in>set bs. bt_key b \<in> used \<and> grid (bt_payout b) \<and> grid (bt_paid b))"

definition cashouts_ok :: "string set \<Rightarrow> bet_row list \<Rightarrow> cashout_row list \<Rightarrow> bool" where
  "cashouts_ok used bs cs \<longleftrightarrow> distinct (map co_bet cs) \<and> distinct (map co_key cs) \<and>
     (\<forall>c\<in>set cs. co_key c \<in> used \<and> co_bet c \<in> bt_id ` set bs)"

definition markets_ok :: "(string \<times> int) list \<Rightarrow> string list \<Rightarrow> market_row list \<Rightarrow> bool" where
  "markets_ok res can ms \<longleftrightarrow> distinct (map mk_id ms) \<and>
     (\<forall>m\<in>set ms. (mk_id m \<in> fst ` set res \<longrightarrow> mk_status m = MResolved) \<and> (mk_id m \<in> set can \<longrightarrow> mk_status m = Cancelled))"

definition db_ok :: "db \<Rightarrow> bool" where
  "db_ok d \<longleftrightarrow> books (db_ledger d) \<and> bets_ok (used_keys (db_ledger d)) (db_bets d) \<and>
     cashouts_ok (used_keys (db_ledger d)) (db_bets d) (db_cashouts d) \<and> distinct (map oc_id (db_outcomes d)) \<and>
     markets_ok (db_resolutions d) (db_cancellations d) (db_markets d)"

lemma bets_ok_more: "bets_ok used bs \<Longrightarrow> used \<subseteq> used' \<Longrightarrow> bets_ok used' bs"
  by (auto simp: bets_ok_def)

lemma cashouts_ok_more: "cashouts_ok used bs cs \<Longrightarrow> used \<subseteq> used' \<Longrightarrow> set bs \<subseteq> set bs' \<Longrightarrow> cashouts_ok used' bs' cs"
  unfolding cashouts_ok_def by (meson image_mono subset_iff)

lemma quantity_added_ids: "list_all2 (quantity_added sel x) os os' \<Longrightarrow> map oc_id os' = map oc_id os"
  by (induction rule: list_all2_induct) (simp_all add: quantity_added_def)

lemma bumped_ids: "list_all2 (bumped now mid) ms ms' \<Longrightarrow> map mk_id ms' = map mk_id ms"
  by (induction rule: list_all2_induct) (simp_all add: bumped_def)

lemma bumped_markets_ok: "list_all2 (bumped now mid) ms ms' \<Longrightarrow> markets_ok res can ms \<Longrightarrow> markets_ok res can ms'"
proof -
  assume b: "list_all2 (bumped now mid) ms ms'" and ok: "markets_ok res can ms"
  from b have "\<forall>m'\<in>set ms'. \<exists>m\<in>set ms. mk_id m = mk_id m' \<and> mk_status m = mk_status m'"
    by (induction rule: list_all2_induct) (auto simp: bumped_def)
  with ok bumped_ids [OF b] show ?thesis unfolding markets_ok_def by metis
qed

lemma transfer_ok:
  assumes "books L" and "grid x" and "TransferMoney tid a b x k L = Inr L'"
  shows "books L'" and "used_keys L' = insert k (used_keys L)" and "total_balance L' = total_balance L"
  using ledger_book.keeps [OF assms] ledger_book.uses [OF assms(3)] ledger_book.total_moved(2) [OF assms]
  by (simp_all add: total_balance_def ledger_book.total_def)

lemma placed_ok:
  assumes "db_ok d" and "grid (rq_amount r)" and "placed now r d d' b"
  shows "db_ok d' \<and> total_balance (db_ledger d') = total_balance (db_ledger d)"
proof -
  obtain L os ms ws house gain where p:
    "d' = d\<lparr>db_ledger := L, db_bets := db_bets d @ [b], db_outcomes := os, db_markets := ms, db_wagered := ws\<rparr>"
    "TransferMoney (bt_transfer b) (rq_account r) house (rq_amount r) (rq_key r) (db_ledger d) = Inr L"
    "numeric12 gain = Inr (bt_payout b)" "numeric12 (rq_amount r) = Inr (bt_paid b)"
    "list_all2 (quantity_added (bought_rows r) gain) (db_outcomes d) os" "list_all2 (bumped now (rq_market r)) (db_markets d) ms"
    "bt_key b = rq_key r" "rq_key r \<notin> bt_key ` set (db_bets d)" "bt_id b \<notin> bt_id ` set (db_bets d)"
    using assms(3) unfolding placed_def by blast
  from assms(1) have ok: "books (db_ledger d)" "bets_ok (used_keys (db_ledger d)) (db_bets d)"
    "cashouts_ok (used_keys (db_ledger d)) (db_bets d) (db_cashouts d)" "distinct (map oc_id (db_outcomes d))"
    "markets_ok (db_resolutions d) (db_cancellations d) (db_markets d)"
    by (simp_all add: db_ok_def)
  note t = transfer_ok [OF ok(1) assms(2) p(2)]
  have "grid (bt_payout b)" "grid (bt_paid b)" using numeric12_grid_result p(3,4) by blast+
  with ok(2) p(7-9) t(2) have "bets_ok (used_keys L) (db_bets d @ [b])" by (auto simp: bets_ok_def)
  moreover have "cashouts_ok (used_keys L) (db_bets d @ [b]) (db_cashouts d)"
    using t(2) by (intro cashouts_ok_more [OF ok(3)]) auto
  ultimately show ?thesis
    using t(1,3) ok(4) quantity_added_ids [OF p(5)] bumped_markets_ok [OF p(6) ok(5)] by (simp add: db_ok_def p(1))
qed

lemma cashed_ok:
  assumes "db_ok d" and "b \<in> set (db_bets d)" and "cashed r b d d'"
  shows "db_ok d' \<and> total_balance (db_ledger d') = total_balance (db_ledger d)"
proof -
  obtain L c os ms now gain tid and m :: market_row where p:
    "d' = d\<lparr>db_ledger := L, db_cashouts := db_cashouts d @ [c], db_outcomes := os, db_markets := ms\<rparr>"
    "TransferMoney tid (mk_house m) (bt_account b) gain (cr_key r) (db_ledger d) = Inr L" "grid gain"
    "co_bet c = bt_id b" "co_key c = cr_key r" "cr_key r \<notin> co_key ` set (db_cashouts d)" "bt_id b \<notin> co_bet ` set (db_cashouts d)"
    "list_all2 (quantity_added (\<lambda>ob. oc_market ob = mk_id m \<and> oc_id ob \<noteq> bt_outcome b) (bt_payout b)) (db_outcomes d) os"
    "list_all2 (bumped now (mk_id m)) (db_markets d) ms"
    using assms(3) unfolding cashed_def by blast
  from assms(1) have ok: "books (db_ledger d)" "bets_ok (used_keys (db_ledger d)) (db_bets d)"
    "cashouts_ok (used_keys (db_ledger d)) (db_bets d) (db_cashouts d)" "distinct (map oc_id (db_outcomes d))"
    "markets_ok (db_resolutions d) (db_cancellations d) (db_markets d)"
    by (simp_all add: db_ok_def)
  note t = transfer_ok [OF ok(1) p(3,2)]
  have "bets_ok (used_keys L) (db_bets d)" using t(2) by (intro bets_ok_more [OF ok(2)]) auto
  moreover have "cashouts_ok (used_keys L) (db_bets d) (db_cashouts d @ [c])"
    using ok(3) t(2) p(4-7) assms(2) by (auto simp: cashouts_ok_def)
  ultimately show ?thesis
    using t(1,3) ok(4) quantity_added_ids [OF p(8)] bumped_markets_ok [OF p(9) ok(5)] by (simp add: db_ok_def p(1))
qed

lemma set_status_row:
  assumes "m' \<in> set (db_markets (set_status mid s d))"
  shows "mk_id m' = mid \<and> mk_status m' = s \<or> mk_id m' \<noteq> mid \<and> m' \<in> set (db_markets d)"
proof -
  have "m' \<in> (\<lambda>m. if mk_id m = mid then m\<lparr>mk_status := s, mk_version := mk_version m + 1\<rparr> else m) ` set (db_markets d)"
    using assms by (simp add: set_status_def)
  then obtain m where "m \<in> set (db_markets d)"
    "m' = (if mk_id m = mid then m\<lparr>mk_status := s, mk_version := mk_version m + 1\<rparr> else m)"
    by (rule imageE)
  then show ?thesis by (cases "mk_id m = mid") simp_all
qed

lemma set_status_ok:
  assumes "markets_ok res can (db_markets d)" and "open_or_paused mid d = Some m"
    and "s = MResolved \<and> set res' = insert (mid, w) (set res) \<and> set can' = set can \<or>
      s = Cancelled \<and> set res' = set res \<and> set can' = insert mid (set can)"
  shows "markets_ok res' can' (db_markets (set_status mid s d))"
  unfolding markets_ok_def
proof (intro conjI ballI)
  have "mk_id \<circ> (\<lambda>m :: market_row. if mk_id m = mid then m\<lparr>mk_status := s, mk_version := mk_version m + 1\<rparr> else m) = mk_id"
    by (simp add: fun_eq_iff)
  with assms(1) show "distinct (map mk_id (db_markets (set_status mid s d)))" by (simp add: markets_ok_def set_status_def)
  have m: "m \<in> set (db_markets d)" "mk_id m = mid" "mk_status m = Opened \<or> mk_status m = MPaused"
    using assms(2) by (auto simp: open_or_paused_def find_Some_iff)
  with assms(1) have fresh: "mid \<notin> fst ` set res" "mid \<notin> set can" unfolding markets_ok_def by force+
  fix m' assume "m' \<in> set (db_markets (set_status mid s d))"
  then consider "mk_id m' = mid" "mk_status m' = s" | "mk_id m' \<noteq> mid" "m' \<in> set (db_markets d)"
    using set_status_row by blast
  note row = this
  have sets: "fst ` set res' = (if s = MResolved then insert mid (fst ` set res) else fst ` set res)"
    "set can' = (if s = Cancelled then insert mid (set can) else set can)" "s = MResolved \<or> s = Cancelled"
    using assms(3) by auto
  have old: "m' \<in> set (db_markets d) \<Longrightarrow> mk_id m' \<in> fst ` set res \<Longrightarrow> mk_status m' = MResolved"
    "m' \<in> set (db_markets d) \<Longrightarrow> mk_id m' \<in> set can \<Longrightarrow> mk_status m' = Cancelled"
    using assms(1) by (simp_all add: markets_ok_def)
  from row show "mk_id m' \<in> fst ` set res' \<longrightarrow> mk_status m' = MResolved"
    by cases (use sets fresh old in \<open>simp_all split: if_splits\<close>)
  from row show "mk_id m' \<in> set can' \<longrightarrow> mk_status m' = Cancelled"
    by cases (use sets fresh old in \<open>simp_all split: if_splits\<close>)
qed

lemma set_status_sel [simp]:
  "db_ledger (set_status mid s d) = db_ledger d" "db_bets (set_status mid s d) = db_bets d"
  "db_cashouts (set_status mid s d) = db_cashouts d" "db_outcomes (set_status mid s d) = db_outcomes d"
  "db_resolutions (set_status mid s d) = db_resolutions d" "db_cancellations (set_status mid s d) = db_cancellations d"
  by (simp_all add: set_status_def)

text \<open>Both ends of a market pay a list of sums per account from its house and give it a final status.\<close>

lemma payments_ok:
  assumes "db_ok d" and "set bs \<subseteq> set (db_bets d)" and "f = bt_payout \<or> f = bt_paid"
    and "pay_all tids house mid 0 (per_account f bs) (db_ledger d) = Inr L"
  shows "books L" and "total_balance L = total_balance (db_ledger d)" and "used_keys (db_ledger d) \<subseteq> used_keys L"
    and "balance_of L house = map_option (\<lambda>x. x - sum_list (map snd (per_account f bs))) (balance_of (db_ledger d) house)"
    and "a \<noteq> house \<Longrightarrow> balance_of L a = map_option (\<lambda>x. x + sum_list (map f (filter (\<lambda>b. bt_account b = a) bs))) (balance_of (db_ledger d) a)"
proof -
  have "\<forall>b\<in>set bs. grid (f b)" using assms(1-3) by (auto simp: db_ok_def bets_ok_def)
  note g = per_account_grid [OF this]
  have "books (db_ledger d)" using assms(1) by (simp add: db_ok_def)
  note p = pay_all_ok [OF this g per_account_facts(1) assms(4)]
  then show "books L" "total_balance L = total_balance (db_ledger d)" "used_keys (db_ledger d) \<subseteq> used_keys L"
    "balance_of L house = map_option (\<lambda>x. x - sum_list (map snd (per_account f bs))) (balance_of (db_ledger d) house)"
    "a \<noteq> house \<Longrightarrow> balance_of L a = map_option (\<lambda>x. x + sum_list (map f (filter (\<lambda>b. bt_account b = a) bs))) (balance_of (db_ledger d) a)"
    by (auto simp: per_account_facts(2))
qed

lemma find_Some: "List.find P xs = Some x \<Longrightarrow> x \<in> set xs \<and> P x"
  by (auto simp: find_Some_iff)

lemma settle_cases:
  assumes "SettleMarket tids mid winner d = Inr d'"
  obtains m ob L where "open_or_paused mid d = Some m" "ob \<in> set (db_outcomes d)" "oc_id ob = winner" "oc_market ob = mid"
    "mid \<notin> fst ` set (db_resolutions d)"
    "pay_all tids (mk_house m) mid 0 (per_account bt_payout (filter (\<lambda>b. bt_outcome b = winner) (market_bets mid d))) (db_ledger d) = Inr L"
    "d' = set_status mid MResolved (d\<lparr>db_resolutions := db_resolutions d @ [(mid, winner)], db_ledger := L\<rparr>)"
proof -
  obtain ob where ob: "List.find (\<lambda>ob. oc_id ob = winner) (db_outcomes d) = Some ob"
    using assms by (auto simp: SettleMarket_def split: option.splits)
  obtain m L where "oc_market ob = mid" "open_or_paused mid d = Some m" "mid \<notin> fst ` set (db_resolutions d)"
    "pay_all tids (mk_house m) mid 0 (per_account bt_payout (filter (\<lambda>b. bt_outcome b = winner) (market_bets mid d))) (db_ledger d) = Inr L"
    "d' = set_status mid MResolved (d\<lparr>db_resolutions := db_resolutions d @ [(mid, winner)], db_ledger := L\<rparr>)"
    using assms ob by (auto simp: SettleMarket_def bindE_eq_Inr split: option.splits if_splits)
  with find_Some [OF ob] that show thesis by blast
qed

lemma cancel_cases:
  assumes "CancelMarket busy tids mid d = Inr d'"
  obtains m L where "open_or_paused mid d = Some m"
    "pay_all tids (mk_house m) mid 0 (per_account bt_paid (market_bets mid d)) (db_ledger d) = Inr L"
    "d' = set_status mid Cancelled (d\<lparr>db_cancellations := db_cancellations d @ [mid], db_ledger := L\<rparr>)"
  using assms by (auto simp: CancelMarket_def Let_def bindE_eq_Inr split: option.splits if_splits)

lemma set_status_closed: "s \<noteq> Opened \<Longrightarrow> s \<noteq> MPaused \<Longrightarrow> open_or_paused mid (set_status mid s d) = None"
  unfolding open_or_paused_def find_None_iff using set_status_row by metis

lemma closed_market:
  "open_or_paused mid d = None \<Longrightarrow> SettleMarket tids mid w d \<noteq> Inr d' \<and> CancelMarket busy tids mid d \<noteq> Inr d'"
  by (auto simp: SettleMarket_def CancelMarket_def split: option.splits)

lemma settle_ok:
  assumes "db_ok d" and "SettleMarket tids mid winner d = Inr d'"
  shows "db_ok d' \<and> total_balance (db_ledger d') = total_balance (db_ledger d)"
proof -
  obtain m L where s: "open_or_paused mid d = Some m"
    "pay_all tids (mk_house m) mid 0 (per_account bt_payout (filter (\<lambda>b. bt_outcome b = winner) (market_bets mid d))) (db_ledger d) = Inr L"
    "d' = set_status mid MResolved (d\<lparr>db_resolutions := db_resolutions d @ [(mid, winner)], db_ledger := L\<rparr>)"
    by (rule settle_cases [OF assms(2)])
  have "set (filter (\<lambda>b. bt_outcome b = winner) (market_bets mid d)) \<subseteq> set (db_bets d)" by (auto simp: market_bets_def)
  note p = payments_ok [OF assms(1) this disjI1 [OF refl] s(2)]
  have "markets_ok (db_resolutions d @ [(mid, winner)]) (db_cancellations d) (db_markets d')"
    unfolding s(3) by (rule set_status_ok [of "db_resolutions d" "db_cancellations d" _ mid m])
      (use assms(1) s(1) in \<open>auto simp: db_ok_def open_or_paused_def\<close>)
  with assms(1) p(1-3) show ?thesis
    using bets_ok_more cashouts_ok_more by (auto simp: db_ok_def s(3))
qed

lemma cancel_ok:
  assumes "db_ok d" and "CancelMarket busy tids mid d = Inr d'"
  shows "db_ok d' \<and> total_balance (db_ledger d') = total_balance (db_ledger d)"
proof -
  obtain m L where s: "open_or_paused mid d = Some m"
    "pay_all tids (mk_house m) mid 0 (per_account bt_paid (market_bets mid d)) (db_ledger d) = Inr L"
    "d' = set_status mid Cancelled (d\<lparr>db_cancellations := db_cancellations d @ [mid], db_ledger := L\<rparr>)"
    by (rule cancel_cases [OF assms(2)])
  have "set (market_bets mid d) \<subseteq> set (db_bets d)" by (auto simp: market_bets_def)
  note p = payments_ok [OF assms(1) this disjI2 [OF refl] s(2)]
  have "markets_ok (db_resolutions d) (db_cancellations d @ [mid]) (db_markets d')"
    unfolding s(3) by (rule set_status_ok [of "db_resolutions d" "db_cancellations d" _ mid m])
      (use assms(1) s(1) in \<open>auto simp: db_ok_def open_or_paused_def\<close>)
  with assms(1) p(1-3) show ?thesis
    using bets_ok_more cashouts_ok_more by (auto simp: db_ok_def s(3))
qed

subsection \<open>Runs of the server\<close>

text \<open>
  Committed transactions, in the order they are serialised in. A bet that is cashed out may have been read in an earlier state. The
  stakes are amounts of at most twelve decimals.
\<close>

inductive server_step :: "db \<Rightarrow> db \<Rightarrow> bool" where
  bet: "addBetOnce exact_big now tid bid r d = Some (Inr d') \<Longrightarrow> grid (rq_amount r) \<Longrightarrow> server_step d d'"
| cashout: "find_cashable r d0 = Some (mid, b) \<Longrightarrow> set (db_bets d0) \<subseteq> set (db_bets d) \<Longrightarrow>
    cashoutBetOnce exact_big now tid cid mid b r d = Inr d' \<Longrightarrow> server_step d d'"
| settle: "SettleMarket tids mid winner d = Inr d' \<Longrightarrow> server_step d d'"
| cancel: "CancelMarket busy tids mid d = Inr d' \<Longrightarrow> server_step d d'"

lemma step_ok:
  assumes "server_step d d'" and "db_ok d"
  shows "db_ok d' \<and> total_balance (db_ledger d') = total_balance (db_ledger d) \<and> set (db_bets d) \<subseteq> set (db_bets d')"
  using assms
proof cases
  case (bet now tid bid r)
  then obtain b where b: "placed now r d d' b" using addBetOnce_placed by blast
  then have "set (db_bets d) \<subseteq> set (db_bets d')" by (auto simp: placed_def)
  with placed_ok [OF assms(2) bet(2) b] show ?thesis by blast
next
  case (cashout r d0 mid b now tid cid)
  have "b \<in> set (db_bets d0)" using cashout(1) find_Some by (fastforce simp: find_cashable_def split: option.splits)
  with cashout(2) have b: "b \<in> set (db_bets d)" by blast
  have c: "cashed r b d d'" by (rule cashoutBetOnce_cashed [OF cashout(3)])
  then have "db_bets d' = db_bets d" by (auto simp: cashed_def)
  with cashed_ok [OF assms(2) b c] show ?thesis by simp
next
  case (settle tids mid winner)
  then have "db_bets d' = db_bets d" by (auto elim!: settle_cases)
  with settle_ok [OF assms(2) settle] show ?thesis by simp
next
  case (cancel busy tids mid)
  then have "db_bets d' = db_bets d" by (auto elim!: cancel_cases)
  with cancel_ok [OF assms(2) cancel] show ?thesis by simp
qed

subsection \<open>Properties\<close>


text \<open>
  C12. A bet the server accepts is the bet that was asked for: its stake lies between a tenth and ten thousand, the database has one more
  bet, with the account, outcome, side and the so far unused key of the request, whose payout is at least the gain the request demands,
  and the stake has moved from the account to the house of a market that was open. Shares are added to the outcome of a Yes bet only; a
  No bet adds them to every other row of the table of outcomes, also to those of other markets.
\<close>

theorem accepted_bet:
  assumes "AddBet B r runs = Some (Inr d')" and "grid (rq_amount r)" and "grid (rq_minGain r)"
    and "\<forall>i now tid bid d. runs i = Runs now tid bid d \<longrightarrow> db_ok d"
  shows "1 / 10 \<le> rq_amount r \<and> rq_amount r \<le> 10000 \<and>
    (\<exists>i<3. \<exists>now tid bid d b house gain s h. runs i = Runs now tid bid d \<and> db_bets d' = db_bets d @ [b] \<and>
       rq_key r \<notin> bt_key ` set (db_bets d) \<and> bt_key b = rq_key r \<and> bt_account b = rq_account r \<and> bt_outcome b = rq_outcome r \<and>
       bt_side b = rq_side r \<and> bt_paid b = rq_amount r \<and> rq_minGain r \<le> bt_payout b \<and>
       (\<exists>m\<in>set (db_markets d). mk_id m = rq_market r \<and> mk_status m = Opened \<and> not_closed now m \<and> mk_house m = house) \<and>
       balance_of (db_ledger d) (rq_account r) = Some s \<and> balance_of (db_ledger d) house = Some h \<and>
       balance_of (db_ledger d') = (balance_of (db_ledger d))(rq_account r \<mapsto> s - rq_amount r, house \<mapsto> h + rq_amount r) \<and>
       list_all2 (quantity_added (\<lambda>ob. if rq_side r = SideY then oc_id ob = rq_outcome r else oc_id ob \<noteq> rq_outcome r) gain)
         (db_outcomes d) (db_outcomes d'))"
proof -
  from assms(1) have lim: "1 / 10 \<le> rq_amount r" "rq_amount r \<le> 10000" "bet_attempts B r runs [0..<3] = Some (Inr d')"
    by (auto simp: AddBet_def split: if_splits)
  from bet_attempts_run [OF lim(3)] obtain i now tid bid d where i: "i < 3" "runs i = Runs now tid bid d"
    and "addBetOnce B now tid bid r d = Some (Inr d')" by auto
  then obtain b where "placed now r d d' b" using addBetOnce_placed by blast
  then obtain L os ms ws house gain where p:
    "d' = d\<lparr>db_ledger := L, db_bets := db_bets d @ [b], db_outcomes := os, db_markets := ms, db_wagered := ws\<rparr>"
    "TransferMoney (bt_transfer b) (rq_account r) house (rq_amount r) (rq_key r) (db_ledger d) = Inr L"
    "\<exists>m\<in>set (db_markets d). mk_id m = rq_market r \<and> mk_status m = Opened \<and> not_closed now m \<and> mk_house m = house"
    "rq_minGain r \<le> gain" "numeric12 gain = Inr (bt_payout b)" "numeric12 (rq_amount r) = Inr (bt_paid b)"
    "list_all2 (quantity_added (bought_rows r) gain) (db_outcomes d) os"
    "bt_account b = rq_account r" "bt_outcome b = rq_outcome r" "bt_side b = rq_side r" "bt_key b = rq_key r"
    "rq_key r \<notin> bt_key ` set (db_bets d)"
    unfolding placed_def by blast
  have bk: "books (db_ledger d)" using assms(4) i(2) by (simp add: db_ok_def)
  obtain s h where "balance_of (db_ledger d) (rq_account r) = Some s" "balance_of (db_ledger d) house = Some h"
    "balance_of L = (balance_of (db_ledger d))(rq_account r \<mapsto> s - rq_amount r, house \<mapsto> h + rq_amount r)"
    using ledger_book.moves [OF bk assms(2) p(2)] by blast
  moreover have "bt_paid b = rq_amount r" using p(6) numeric12_grid [OF assms(2)] by (auto split: if_splits)
  moreover have "list_all2 (quantity_added (\<lambda>ob. if rq_side r = SideY then oc_id ob = rq_outcome r else oc_id ob \<noteq> rq_outcome r) gain)
      (db_outcomes d) os"
    using p(7) by (cases "rq_side r") (simp_all add: bought_rows_def [abs_def])
  moreover have "db_bets d' = db_bets d @ [b]" "db_ledger d' = L" "db_outcomes d' = os" by (simp_all add: p(1))
  ultimately show ?thesis
    using lim(1,2) i p(3,8-12) numeric12_mono [OF assms(3) p(4,5)] by blast
qed

text \<open>
  C14. Settling a market pays every account the payouts of all its bets on the winning outcome, from the house of the market, and ends the
  market: it can neither be settled nor cancelled again. What is paid depends neither on the side of a bet nor on whether it was cashed
  out: a bet against the winner is paid like one on it, a bet against a loser is not paid, and a bet that was cashed out is
  paid a second time.
\<close>

theorem settlement_pays:
  assumes "db_ok d" and "SettleMarket tids mid winner d = Inr d'"
  shows "\<exists>m\<in>set (db_markets d). mk_id m = mid \<and> (mk_status m = Opened \<or> mk_status m = MPaused) \<and>
    (\<forall>a. a \<noteq> mk_house m \<longrightarrow> balance_of (db_ledger d') a =
       map_option (\<lambda>x. x + sum_list (map bt_payout (filter (\<lambda>b. bt_outcome b = winner \<and> bt_account b = a) (db_bets d)))) (balance_of (db_ledger d) a)) \<and>
    total_balance (db_ledger d') = total_balance (db_ledger d) \<and> (mid, winner) \<in> set (db_resolutions d') \<and>
    (\<forall>tids' w d''. SettleMarket tids' mid w d' \<noteq> Inr d'') \<and> (\<forall>busy tids' d''. CancelMarket busy tids' mid d' \<noteq> Inr d'')"
proof -
  obtain m ob L where s: "open_or_paused mid d = Some m" "ob \<in> set (db_outcomes d)" "oc_id ob = winner" "oc_market ob = mid"
    "pay_all tids (mk_house m) mid 0 (per_account bt_payout (filter (\<lambda>b. bt_outcome b = winner) (market_bets mid d))) (db_ledger d) = Inr L"
    "d' = set_status mid MResolved (d\<lparr>db_resolutions := db_resolutions d @ [(mid, winner)], db_ledger := L\<rparr>)"
    by (rule settle_cases [OF assms(2)])
  have bets: "filter (\<lambda>b. bt_outcome b = winner) (market_bets mid d) = filter (\<lambda>b. bt_outcome b = winner) (db_bets d)"
    using s(2-4) by (auto simp: market_bets_def intro!: filter_cong)
  have "set (filter (\<lambda>b. bt_outcome b = winner) (market_bets mid d)) \<subseteq> set (db_bets d)" by (auto simp: bets)
  note p = payments_ok [OF assms(1) this disjI1 [OF refl] s(5), unfolded bets filter_filter]
  have closed: "open_or_paused mid d' = None" unfolding s(6) by (rule set_status_closed) simp_all
  then have "\<forall>tids' w d''. SettleMarket tids' mid w d' \<noteq> Inr d''" "\<forall>busy tids' d''. CancelMarket busy tids' mid d' \<noteq> Inr d''"
    using closed_market by blast+
  moreover have "m \<in> set (db_markets d) \<and> mk_id m = mid \<and> (mk_status m = Opened \<or> mk_status m = MPaused)"
    using find_Some s(1) unfolding open_or_paused_def by fastforce
  ultimately show ?thesis
    using p(2,5) by (intro bexI [of _ m]) (auto simp: s(6) conj_commute)
qed

subsection \<open>A concrete database\<close>

text \<open>Ann has a bet that was cashed out; a second market has one outcome.\<close>

definition demo_money :: ledger where
  "demo_money = fold attempt_transfer [(''t1'', ''bank'', ''ann'', 5, ''k1''), (''t2'', ''bank'', ''house'', 9, ''k2''),
     (''t3'', ''ann'', ''house'', 2, ''kb''), (''t4'', ''house'', ''ann'', 1, ''kc'')] demo_ledger"

definition demo_state :: "real \<Rightarrow> db" where
  "demo_state x =
     \<lparr>db_markets = [\<lparr>mk_id = ''m'', mk_status = Opened, mk_close = None, mk_house = ''house'', mk_alpha = 1 / 4, mk_cap = 3,
        mk_version = 0, mk_volume = 0\<rparr>],
      db_outcomes = [\<lparr>oc_id = 1, oc_market = ''m'', oc_quantity = x, oc_volume = 0\<rparr>, \<lparr>oc_id = 2, oc_market = ''m'', oc_quantity = 2, oc_volume = 0\<rparr>,
        \<lparr>oc_id = 3, oc_market = ''other'', oc_quantity = 5, oc_volume = 0\<rparr>],
      db_bets = [\<lparr>bt_id = ''b0'', bt_account = ''ann'', bt_transfer = ''t3'', bt_outcome = 1, bt_side = SideY, bt_payout = 3, bt_paid = 2,
        bt_avg = 2 / 3, bt_key = ''kb''\<rparr>],
      db_cashouts = [\<lparr>co_id = ''c0'', co_bet = ''b0'', co_transfer = ''t4'', co_payout = 1, co_key = ''kc''\<rparr>],
      db_resolutions = [], db_cancellations = [], db_wagered = [(''u1'', 2)], db_ledger = demo_money\<rparr>"

abbreviation demo_db :: db where
  "demo_db \<equiv> demo_state 2"

lemma demo_money_facts:
  "books demo_money" "used_keys demo_money = {''k1'', ''k2'', ''kb'', ''kc''}"
  "balance_of demo_money ''ann'' = Some 4" "balance_of demo_money ''house'' = Some 10"
proof -
  have "grid 5" "grid 9" "grid 2" "grid 1" using grid_int [of 5] grid_int [of 9] grid_int [of 2] grid_int [of 1] by simp_all
  then show "books demo_money" unfolding demo_money_def by (intro ledger_attempts(1) demo_books) simp
  note ev = demo_money_def attempt_transfer_def transfer_defs demo_ledger_def demo_account_def
  show "used_keys demo_money = {''k1'', ''k2'', ''kb'', ''kc''}" by (auto simp: ev used_keys_def)
  show "balance_of demo_money ''ann'' = Some 4" "balance_of demo_money ''house'' = Some 10" by (simp_all add: ev balance_of_def)
qed

lemma demo_db_ok: "db_ok (demo_state x)"
proof -
  have "grid 3" "grid 2" using grid_int [of 3] grid_int [of 2] by simp_all
  then show ?thesis
    using demo_money_facts(1,2) by (simp add: db_ok_def demo_state_def bets_ok_def cashouts_ok_def markets_ok_def)
qed

lemma demo_settled: "\<exists>d'. SettleMarket (\<lambda>i. ''s'' @ show_nat i) ''m'' 1 demo_db = Inr d'"
  by (simp add: SettleMarket_def demo_state_def open_or_paused_def market_bets_def per_account_def demo_money_def
      attempt_transfer_def transfer_defs demo_ledger_def demo_account_def settle_key_def show_nat.simps digit_char_def)


text \<open>Ann, who has cashed out her bet, is paid for it again.\<close>

theorem settlement_pays_witness:
  "\<exists>d'. SettleMarket (\<lambda>i. ''s'' @ show_nat i) ''m'' 1 demo_db = Inr d' \<and> ''b0'' \<in> co_bet ` set (db_cashouts demo_db) \<and>
     balance_of (db_ledger demo_db) ''ann'' = Some 4 \<and> balance_of (db_ledger d') ''ann'' = Some 7"
proof -
  obtain d' where d': "SettleMarket (\<lambda>i. ''s'' @ show_nat i) ''m'' 1 demo_db = Inr d'" using demo_settled by blast
  from settlement_pays [OF demo_db_ok d'] have "balance_of (db_ledger d') ''ann'' = Some 7"
    using demo_money_facts(3) by (simp add: demo_state_def)
  with d' demo_money_facts(3) show ?thesis by (simp add: demo_state_def)
qed

text \<open>A bet of one that demands a gain of at least \<open>1.04\<close> is accepted.\<close>

lemma ln_2_le: "ln (2 :: real) \<le> 7 / 10"
proof -
  have "(1 + 7 / 40 + (7 / 40)\<^sup>2 / 2) ^ 4 \<le> exp (7 / 40 :: real) ^ 4"
    using exp_lower_Taylor_quadratic [of "7 / 40"] by (intro power_mono) (simp_all add: power2_eq_square)
  moreover have "exp (7 / 40 :: real) ^ 4 = exp (7 / 10)" by (simp flip: exp_of_nat_mult)
  ultimately have "2 \<le> exp (7 / 10 :: real)" by (simp add: power2_eq_square power4_eq_xxxx)
  then have "ln (2 :: real) \<le> ln (exp (7 / 10))" by (subst ln_le_cancel_iff) simp_all
  then show ?thesis by simp
qed

lemma demo_price: "side_price (shift_r [2, 2] 0 SideY (21 / 20)) (1 / 4) 0 SideY \<le> 37 / 40"
proof -
  let ?q = "shift_r [2, 2] 0 SideY (21 / 20)"
  have q: "?q = [61 / 20, 2]" by (simp add: shift_r_def hit_def)
  have l: "live ?q (1 / 4)" by (simp add: q live_def)
  have e: "exp (21 / 20 / (101 / 80)) \<le> (3 :: real)" by (rule exp_le_3) simp
  have "lmsr_soft ?q (1 / 4) 0 = exp (61 / 20 / (101 / 80)) / (exp (61 / 20 / (101 / 80)) + exp (2 / (101 / 80)))"
    by (simp add: q lmsr_soft_def lmsr_Z_def lmsr_b_def)
  also have "exp (61 / 20 / (101 / 80)) = exp (21 / 20 / (101 / 80)) * exp (2 / (101 / 80) :: real)"
    by (simp flip: exp_add)
  also have "exp (21 / 20 / (101 / 80)) * exp (2 / (101 / 80)) / (exp (21 / 20 / (101 / 80)) * exp (2 / (101 / 80)) + exp (2 / (101 / 80) :: real))
      = exp (21 / 20 / (101 / 80)) / (exp (21 / 20 / (101 / 80)) + 1)"
  proof -
    have "x * y / (x * y + y) = x / (x + 1)" if "0 < y" "0 < x" for x y :: real
    proof -
      have "x * y + y = (x + 1) * y" by (simp add: distrib_right)
      with that show ?thesis by simp
    qed
    then show ?thesis by simp
  qed
  also have "\<dots> \<le> 3 / 4"
  proof -
    have "x / (x + 1) \<le> 3 / 4" if "x \<le> 3" "0 < x" for x :: real using that by (simp add: field_simps)
    with e show ?thesis by simp
  qed
  finally have "lmsr_soft ?q (1 / 4) 0 \<le> 3 / 4" .
  moreover have "lmsr_entropy ?q (1 / 4) \<le> 7 / 10" using lmsr_entropy_le [OF l] ln_2_le by (simp add: numeral_2_eq_2)
  ultimately have "lmsr_price ?q (1 / 4) 0 \<le> 37 / 40" by (simp add: lmsr_price_def)
  then show ?thesis by (subst side_price_Y) simp_all
qed

lemma demo_costs:
  shows "buy_cost [2, 2] (1 / 4) 0 SideY (21 / 20) \<le> 37 / 40 * (21 / 20)"
    and "0 \<le> g \<Longrightarrow> buy_cost [2, 2] (1 / 4) 0 SideY g \<le> 1 \<Longrightarrow> g \<le> 2"
proof -
  have l: "live [2, 2] (1 / 4)" by (simp add: live_def)
  show "buy_cost [2, 2] (1 / 4) 0 SideY (21 / 20) \<le> 37 / 40 * (21 / 20)"
    using cost_shift_le [OF l shift_r_live [OF l], of "21 / 20" 0 SideY] demo_price by (simp add: buy_cost_def)
  assume g: "0 \<le> g" "buy_cost [2, 2] (1 / 4) 0 SideY g \<le> 1"
  have "1 / 2 \<le> side_price [2, 2] (1 / 4) 0 SideY"
    using lmsr_entropy_nonneg [OF l] by (simp add: side_price_Y lmsr_price_def lmsr_soft_def lmsr_Z_def)
  then have "1 / 2 * g \<le> side_price [2, 2] (1 / 4) 0 SideY * g" using g(1) by (intro mult_right_mono)
  with cost_shift_ge [OF l shift_r_live [OF l g(1)], of 0 SideY] g(2) show "g \<le> 2" by (simp add: buy_cost_def)
qed

text \<open>The payout of a stake of one when the other outcome has two shares, between two bounds on the costs of shares.\<close>

lemma demo_gain:
  assumes "0 \<le> x" and "0 < lo" and "buy_cost [x, 2] (1 / 4) 0 SideY (lo + 1 / 100) < 1"
    and "\<And>g. 0 \<le> g \<Longrightarrow> buy_cost [x, 2] (1 / 4) 0 SideY g \<le> 1 \<Longrightarrow> g \<le> hi"
  obtains g where "PossibleGainPriceForBuy exact_big [x, 2] 0 True (1 / 4) 1 3 = Some (Inr (True, g, round_dp ROUND_UP 12 (1 / g)))"
    "lo \<le> g" "g \<le> hi" "grid g"
proof -
  have s: "stocked [x, 2] (1 / 4)" using assms(1) by (simp add: stocked_def live_def)
  note l = stocked_live [OF s]
  obtain g where g: "GetMaxSharesCanBuy exact_big True [x, 2] 0 (1 / 4) 1 = Some (Inr g)" "0 \<le> g" "round_dp ROUND_DOWN 12 g = g"
    "buy_cost [x, 2] (1 / 4) 0 SideY g \<le> 1" "\<And>r. g + 2 / 10 ^ 12 \<le> r \<Longrightarrow> 1 \<le> buy_cost [x, 2] (1 / 4) 0 SideY r"
    using GetMaxSharesCanBuy_exact [OF s, of 0 True 1] by auto
  have low: "lo \<le> g" using g(5) [of "lo + 1 / 100"] assms(3) by (cases "lo \<le> g") simp_all
  have "live (shift_r [x, 2] 0 SideY g) (1 / 4)" by (rule shift_r_live [OF l g(2)])
  then have "\<not> (\<exists>j<2. 3 \<le> lmsr_price (shift_r [x, 2] 0 SideY g) (1 / 4) j)" by (rule no_price_3) simp
  then have "PossibleGainPriceForBuy exact_big [x, 2] 0 True (1 / 4) 1 3 = Some (Inr (True, g, round_dp ROUND_UP 12 (1 / g)))"
    using PossibleGainPriceForBuy_exact [OF s _ _ _ g(1) _ g(3), of 3] low assms(2) by (simp add: numeral_2_eq_2)
  moreover have "grid g" unfolding grid_def by (subst g(3) [symmetric]) (auto simp: round_dp_def)
  ultimately show thesis using low assms(4) [OF g(2,4)] that by blast
qed

definition demo_req :: "string \<Rightarrow> real \<Rightarrow> bet_request" where
  "demo_req k mg = \<lparr>rq_account = ''ann'', rq_user = ''u1'', rq_market = ''m'', rq_outcome = 1, rq_side = SideY, rq_amount = 1,
     rq_minGain = mg, rq_key = k\<rparr>"

definition demo_runs :: "nat \<Rightarrow> run" where
  "demo_runs i = (if i = 0 then Conflict False else Runs 0 ''t5'' ''b1'' demo_db)"

lemma price_column_small:
  assumes "26 / 25 \<le> g"
  shows "\<exists>x. price_column (round_dp ROUND_UP 12 (1 / g)) = Inr x"
proof -
  let ?y = "round_dp ROUND_UP 12 (1 / g)"
  have "grid ?y" by (auto simp: grid_def round_dp_def)
  moreover have "0 \<le> round_dp ROUND_UP 12 y \<and> round_dp ROUND_UP 12 y \<le> 1" if y: "0 \<le> y" "y \<le> 1" for y
  proof -
    have "0 \<le> y * 10 ^ 12" "y * 10 ^ 12 \<le> 10 ^ 12" using y by simp_all
    then have "0 \<le> \<lceil>y * 10 ^ 12\<rceil>" "\<lceil>y * 10 ^ 12\<rceil> \<le> 10 ^ 12" by (simp_all add: ceiling_le_iff le_ceiling_iff)
    then have "real_of_int 0 \<le> real_of_int \<lceil>y * 10 ^ 12\<rceil>" "real_of_int \<lceil>y * 10 ^ 12\<rceil> \<le> real_of_int (10 ^ 12)"
      by (simp_all only: of_int_le_iff)
    with y show ?thesis by (simp add: round_dp_def round_int_def round_mag_def divide_le_eq)
  qed
  from this [of "1 / g"] have "0 \<le> ?y" "?y \<le> 1" using assms by simp_all
  ultimately show ?thesis by (simp add: price_column_def numeric12_grid)
qed

lemma demo_transfer:
  assumes "k \<notin> {[], ''k1'', ''k2'', ''kb'', ''kc''}"
  shows "\<exists>L. TransferMoney ''t5'' ''ann'' ''house'' 1 k demo_money = Inr L"
  using assms by (simp add: demo_money_def attempt_transfer_def transfer_defs demo_ledger_def demo_account_def) metis

lemma demo_once:
  assumes g: "PossibleGainPriceForBuy exact_big [x, 2] 0 True (1 / 4) 1 3 = Some (Inr (True, g, round_dp ROUND_UP 12 (1 / g)))"
    "26 / 25 \<le> g" "g \<le> 4" "grid g" and x: "0 \<le> x" "x \<le> 2" "grid x" and k: "k \<notin> {[], ''k1'', ''k2'', ''kb'', ''kc''}"
    and mg: "mg \<le> g"
  shows "\<exists>d'. addBetOnce exact_big 0 ''t5'' ''b1'' (demo_req k mg) (demo_state x) = Some (Inr d')"
proof -
  obtain L where L: "TransferMoney ''t5'' ''ann'' ''house'' 1 k demo_money = Inr L" using demo_transfer [OF k] by blast
  obtain y where y: "price_column (round_dp ROUND_UP 12 (1 / g)) = Inr y" using price_column_small [OF g(2)] by blast
  have "grid (x + g)" by (rule grid_closed(1) [OF x(3) g(4)])
  then have n: "numeric12 g = Inr g" "numeric12 (x + g) = Inr (x + g)" using g(2-4) x by (simp_all add: numeric12_grid)
  obtain acc where acc: "map_of (accounts demo_money) ''ann'' = Some acc" "la_balance acc = 4"
    using demo_money_facts(3) by (auto simp: balance_of_def)
  have st: "market_state 0 ''m'' (demo_state x) = Some (hd (db_markets (demo_state x)), take 2 (db_outcomes (demo_state x)))"
    by (simp add: market_state_def demo_state_def not_closed_def)
  have "''kb'' \<noteq> k" using k by blast
  then have "\<exists>d'. commit_bet 0 ''t5'' ''b1'' ''house'' g (round_dp ROUND_UP 12 (1 / g)) (demo_req k mg) (demo_state x) = Inr d'"
    using L y n g(2) x by (simp add: commit_bet_def demo_req_def demo_state_def insert_bet_def sql_def add_quantity_def raised_volume_def
        bump_market_def not_closed_def add_wagered_def numeric12_numeral)
  then show ?thesis
    using g(1,2) st acc mg by (simp add: addBetOnce_def demo_req_def demo_state_def findIndex_def)
qed

lemma demo_accepted: "\<exists>d'. AddBet exact_big (demo_req ''new'' (26 / 25)) demo_runs = Some (Inr d')"
proof -
  obtain g where g: "PossibleGainPriceForBuy exact_big [2, 2] 0 True (1 / 4) 1 3 = Some (Inr (True, g, round_dp ROUND_UP 12 (1 / g)))"
    "26 / 25 \<le> g" "g \<le> 2" "grid g"
    by (rule demo_gain [of 2 "26 / 25" 2]) (use demo_costs in \<open>simp_all add: field_simps\<close>)
  have "grid 2" using grid_int [of 2] by simp
  then have "\<exists>d'. addBetOnce exact_big 0 ''t5'' ''b1'' (demo_req ''new'' (26 / 25)) demo_db = Some (Inr d')"
    using demo_once [OF g(1,2) _ g(4), of "''new''" "26 / 25"] g(2,3) by simp
  then show ?thesis by (simp add: AddBet_def demo_runs_def numeral_3_eq_3 upt_rec demo_req_def)
qed

theorem accepted_bet_witness:
  "\<exists>d' b. AddBet exact_big (demo_req ''new'' (26 / 25)) demo_runs = Some (Inr d') \<and> db_bets d' = db_bets demo_db @ [b] \<and> bt_key b = ''new'' \<and>
     26 / 25 \<le> bt_payout b \<and> balance_of (db_ledger d') ''ann'' = Some 3"
proof -
  let ?r = "demo_req ''new'' (26 / 25)"
  obtain d' where d': "AddBet exact_big (demo_req ''new'' (26 / 25)) demo_runs = Some (Inr d')" using demo_accepted by blast
  have r: "rq_amount ?r = 1" "rq_minGain ?r = 26 / 25" "rq_key ?r = ''new''" "rq_account ?r = ''ann''"
    by (simp_all add: demo_req_def)
  have "grid (rq_amount ?r)" using grid_int [of 1] by (simp add: r)
  moreover have "grid (rq_minGain ?r)" unfolding r grid_def by (intro exI [of _ 1040000000000]) simp
  moreover have "\<forall>i now tid bid d. demo_runs i = Runs now tid bid d \<longrightarrow> db_ok d"
    using demo_db_ok by (simp add: demo_runs_def)
  ultimately obtain i b now tid bid d house h s where "demo_runs i = Runs now tid bid d" "db_bets d' = db_bets d @ [b]"
    "bt_key b = rq_key ?r" "rq_minGain ?r \<le> bt_payout b" "balance_of (db_ledger d) (rq_account ?r) = Some s"
    "balance_of (db_ledger d) house = Some h"
    "balance_of (db_ledger d') = (balance_of (db_ledger d))(rq_account ?r \<mapsto> s - rq_amount ?r, house \<mapsto> h + rq_amount ?r)"
    "\<exists>m\<in>set (db_markets d). mk_id m = rq_market ?r \<and> mk_status m = Opened \<and> not_closed now m \<and> mk_house m = house"
    using accepted_bet [OF d'] by blast
  note e = this [unfolded r]
  from e(1) have d: "d = demo_db" by (auto simp: demo_runs_def split: if_splits)
  with e(8) have "house = ''house''" by (simp add: demo_state_def)
  moreover have "s = 4" using e(5) d demo_money_facts(3) by (simp add: demo_state_def)
  ultimately show ?thesis using d' e d by auto
qed

end
