(* ===== verification/Betting.thy ===== *)
theory Betting
  imports BetForms Server
begin

section \<open>A bet from the form to the database\<close>

text \<open>
  The handler of a bet, \<^verbatim>\<open>PlaceBet\<close> in \<^verbatim>\<open>src/backend/internal/handlers/transactions.go\<close>, with the checks of its request
  and the answers it gives to errors, and the two ends together: the form of \<open>BetForms\<close> sends its requests over a network that
  may lose an answer, the server carries them out on the database of \<open>Server\<close> while others use it, and the function
  \<open>postBet\<close> of \<open>Api\<close> tells the form what came back.
\<close>

subsection \<open>The request on the server\<close>

text \<open>
  What the body of a request looks like on the wire and how the packages of the server read it are arguments: the text of a value that is
  written as a string, the value of a decimal with the number of characters after its point, and the canonical form of a
  UUID.
\<close>

record 'd bet_wire =
  w_text :: "'d jv \<Rightarrow> string option"
  w_decimal :: "'d jv \<Rightarrow> (real \<times> nat) option"
  w_uuid :: "string \<Rightarrow> string option"

record betReq =
  bq_betAmount :: "(real \<times> nat) option"
  bq_minWantedGain :: "(real \<times> nat) option"
  bq_marketID :: string
  bq_outcomeID :: int
  bq_side :: string
  bq_currency :: string
  bq_idempotencyKey :: string

definition nil_uuid :: string where
  "nil_uuid = ''00000000-0000-0000-0000-000000000000''"

definition zero_betReq :: betReq where
  "zero_betReq = \<lparr>bq_betAmount = None, bq_minWantedGain = None, bq_marketID = nil_uuid, bq_outcomeID = 0, bq_side = [],
     bq_currency = [], bq_idempotencyKey = []\<rparr>"

text \<open>
  The decoder of the language: the names of fields are compared without regard to case, a later entry overwrites an earlier one,
  null leaves a field that is not a pointer as it is, an unknown field is an error. Numbers that are not finite are written as null, and an
  entry that is undefined is not written.
\<close>

definition fold_case :: "string \<Rightarrow> string" where
  "fold_case = map (\<lambda>c. if 65 \<le> (of_char c :: nat) \<and> (of_char c :: nat) \<le> 90 then char_of (of_char c + 32 :: nat) else c)"

definition is_null :: "'d jv \<Rightarrow> bool" where
  "is_null v = (case v of JNull \<Rightarrow> True | JNum (Fin x) \<Rightarrow> False | JNum _ \<Rightarrow> True | _ \<Rightarrow> False)"

definition int64_of :: "'d jv \<Rightarrow> int option" where
  "int64_of v =
     (case v of
        JNum (Fin x) \<Rightarrow> if x = of_int \<lfloor>x\<rfloor> \<and> - (2 ^ 63) \<le> \<lfloor>x\<rfloor> \<and> \<lfloor>x\<rfloor> < 2 ^ 63 then Some \<lfloor>x\<rfloor> else None
      | _ \<Rightarrow> None)"

definition set_field :: "'d bet_wire \<Rightarrow> string \<times> 'd jv \<Rightarrow> betReq \<Rightarrow> betReq option" where
  "set_field W e b =
     (let k = fold_case (fst e); v = snd e in
      if v = JUndef then Some b
      else if k = ''betamount'' then
        (if is_null v then Some (b\<lparr>bq_betAmount := None\<rparr>) else map_option (\<lambda>x. b\<lparr>bq_betAmount := Some x\<rparr>) (w_decimal W v))
      else if k = ''minwantedgain'' then
        (if is_null v then Some (b\<lparr>bq_minWantedGain := None\<rparr>) else map_option (\<lambda>x. b\<lparr>bq_minWantedGain := Some x\<rparr>) (w_decimal W v))
      else if k \<notin> {''marketid'', ''outcomeid'', ''side'', ''currency'', ''idempotencykey''} then None
      else if is_null v then Some b
      else if k = ''marketid'' then map_option (\<lambda>u. b\<lparr>bq_marketID := u\<rparr>) (Option.bind (w_text W v) (w_uuid W))
      else if k = ''outcomeid'' then map_option (\<lambda>i. b\<lparr>bq_outcomeID := i\<rparr>) (int64_of v)
      else if k = ''side'' then map_option (\<lambda>s. b\<lparr>bq_side := s\<rparr>) (w_text W v)
      else if k = ''currency'' then map_option (\<lambda>s. b\<lparr>bq_currency := s\<rparr>) (w_text W v)
      else map_option (\<lambda>s. b\<lparr>bq_idempotencyKey := s\<rparr>) (w_text W v))"

definition decode_betReq :: "'d bet_wire \<Rightarrow> 'd jv \<Rightarrow> betReq option" where
  "decode_betReq W v =
     (case v of
        JObj kvs \<Rightarrow> fold (\<lambda>e acc. Option.bind acc (set_field W e)) kvs (Some zero_betReq)
      | JNull \<Rightarrow> Some zero_betReq
      | _ \<Rightarrow> None)"

text \<open>The fields that do not pass the checks of their tags. The stake has no check but that it is there.\<close>

definition invalid_fields :: "betReq \<Rightarrow> string list" where
  "invalid_fields b =
     shown (bq_betAmount b = None) [''betAmount''] @
     shown (case bq_minWantedGain b of None \<Rightarrow> True | Some (g, n) \<Rightarrow> \<not> (n \<le> 2 \<and> 1 / 10 \<le> g \<and> g \<le> 1000000)) [''minWantedGain''] @
     shown (bq_marketID b = nil_uuid) [''marketId''] @
     shown (bq_outcomeID b = 0) [''outcomeId''] @
     shown (bq_side b \<noteq> ''y'' \<and> bq_side b \<noteq> ''n'') [''side''] @
     shown (bq_currency b \<noteq> ''USDT'') [''currency''] @
     shown (bq_idempotencyKey b = [] \<or> 36 < length (bq_idempotencyKey b)) [''idempotencyKey'']"

definition http_error :: "int \<Rightarrow> string \<Rightarrow> 'd response" where
  "http_error code msg = \<lparr>resp_status = code, resp_body = Some (JObj [(''message'', JStr msg)])\<rparr>"

definition ParseAndValidateJSON :: "'d bet_wire \<Rightarrow> 'd jv \<Rightarrow> 'd response + betReq" where
  "ParseAndValidateJSON W v =
     (case decode_betReq W v of
        None \<Rightarrow> Inl (http_error 400 ''invalid JSON request body'')
      | Some b \<Rightarrow>
          if invalid_fields b = [] then Inr b
          else Inl \<lparr>resp_status = 400, resp_body = Some (JObj
            [(''error'', JStr ''validation failed''), (''invalid_fields'', JArr (map JStr (invalid_fields b)))])\<rparr>)"

fun mapErrorRepo :: "repo_error \<Rightarrow> 'd response" where
  "mapErrorRepo ErrIdempotency = http_error 400 ''idemptotency key already used''"
| "mapErrorRepo ErrMarketNotFound = http_error 400 ''market not found''"
| "mapErrorRepo ErrOutcomeNotFound = http_error 400 ''failed to find provided outcome''"
| "mapErrorRepo ErrInvalidQuotedGain = http_error 400 ''invalid quoted gain''"
| "mapErrorRepo ErrInvalidBetAmount = http_error 400 ''invalid bet amount''"
| "mapErrorRepo ErrInsufficientFunds = http_error 400 ''insufficient funds''"
| "mapErrorRepo ErrAccountNotFound = http_error 400 ''account not found''"
| "mapErrorRepo ErrBetNotFound = http_error 404 ''bet not found''"
| "mapErrorRepo ErrNoBetBinaryMarket = http_error 400 ''cannot place no bet on binary market''"
| "mapErrorRepo _ = http_error 500 ''Internal Server Error''"

text \<open>The answer of the handler and the database the bet has left, if it was placed. The account is looked up in an earlier state.\<close>

definition bet_request_of :: "string \<Rightarrow> string \<Rightarrow> betReq \<Rightarrow> bet_request" where
  "bet_request_of user acc b = \<lparr>rq_account = acc, rq_user = user, rq_market = bq_marketID b, rq_outcome = bq_outcomeID b,
     rq_side = (if bq_side b = ''y'' then SideY else SideN), rq_amount = fst (the (bq_betAmount b)),
     rq_minGain = fst (the (bq_minWantedGain b)), rq_key = bq_idempotencyKey b\<rparr>"

fun bet_answer :: "repo_error + db \<Rightarrow> 'd response \<times> db option" where
  "bet_answer (Inl e) = (mapErrorRepo e, None)"
| "bet_answer (Inr d) = (http_error 200 ''bet succesfully placed'', Some d)"

definition PlaceBet :: "'d bet_wire \<Rightarrow> bigdec \<Rightarrow> string \<Rightarrow> 'd jv \<Rightarrow> db \<Rightarrow> (nat \<Rightarrow> run) \<Rightarrow> ('d response \<times> db option) option" where
  "PlaceBet W B user v d0 runs =
     (case ParseAndValidateJSON W v of
        Inl a \<Rightarrow> Some (a, None)
      | Inr b \<Rightarrow> (case GetLedgerAccountForCurrency user (bq_currency b) Liability (db_ledger d0) of
            Inl e \<Rightarrow> Some (http_error 500 ''Internal Server Error'', None)
          | Inr acc \<Rightarrow> map_option bet_answer (AddBet B (bet_request_of user acc b) runs)))"

subsection \<open>The form and the server\<close>

text \<open>
  The form, the database, the requests that have not reached the server yet, each with a flag that the form still waits for
  its answer, the answer that is on its way to the form, and the last request.
\<close>

record 'd dialog =
  dg_form :: "'d bet_modal"
  dg_db :: db
  dg_flight :: "('d jv \<times> bool) list"
  dg_answer :: "'d response option"
  dg_sent :: "'d jv"

definition told :: "string \<Rightarrow> 'd response option \<Rightarrow> 'd dialog \<Rightarrow> 'd bet_modal" where
  "told base a s = (case postBet (\<lambda>_. a) base (dg_sent s) of
     Inl e \<Rightarrow> bet_failed (dg_form s) | Inr x \<Rightarrow> fst (bet_succeeded (dg_form s)))"

text \<open>
  The user acts on the form; the server handles a request on the state it has then; somebody else's transaction is committed, whose
  bets have other keys; the answer arrives; or the form gives up waiting, and the request may still reach the server.
\<close>

inductive bet_dialog :: "fpu \<Rightarrow> 'd decs \<Rightarrow> oddsFormat \<Rightarrow> 'd bet_wire \<Rightarrow> string \<Rightarrow> string \<Rightarrow> 'd dialog \<Rightarrow> 'd dialog \<Rightarrow> bool"
  for F X fmt W base user where
  quiet: "bet_acts F X fmt (dg_form s) [] st \<Longrightarrow> bet_dialog F X fmt W base user s (s\<lparr>dg_form := st\<rparr>)"
| send: "bet_acts F X fmt (dg_form s) [(op, v)] st \<Longrightarrow>
    bet_dialog F X fmt W base user s (s\<lparr>dg_form := st, dg_sent := v, dg_flight := dg_flight s @ [(v, True)]\<rparr>)"
| serve: "dg_flight s = xs @ (v, waits) # ys \<Longrightarrow> PlaceBet W exact_big user v d0 runs = Some (a, res) \<Longrightarrow>
    (\<forall>i now tid bid d. runs i = Runs now tid bid d \<longrightarrow> d = dg_db s) \<Longrightarrow>
    bet_dialog F X fmt W base user s (s\<lparr>dg_flight := xs @ ys, dg_db := (case res of None \<Rightarrow> dg_db s | Some d \<Rightarrow> d),
      dg_answer := (if waits then Some a else dg_answer s)\<rparr>)"
| others: "server_step (dg_db s) d \<Longrightarrow>
    (\<forall>b\<in>set (db_bets d). bt_key b = bm_idempotencyKey (dg_form s) \<longrightarrow> b \<in> set (db_bets (dg_db s))) \<Longrightarrow>
    bet_dialog F X fmt W base user s (s\<lparr>dg_db := d\<rparr>)"
| answered: "dg_answer s = Some a \<Longrightarrow>
    bet_dialog F X fmt W base user s (s\<lparr>dg_form := told base (Some a) s, dg_answer := None\<rparr>)"
| lost: "bm_isPending (dg_form s) \<Longrightarrow>
    bet_dialog F X fmt W base user s
      (s\<lparr>dg_form := told base None s, dg_answer := None, dg_flight := map (\<lambda>q. (fst q, False)) (dg_flight s)\<rparr>)"

definition dialog_init :: "string \<Rightarrow> int \<Rightarrow> bet_side \<Rightarrow> db \<Rightarrow> 'd dialog" where
  "dialog_init key i side d = \<lparr>dg_form = bet_modal_init key i side, dg_db = d, dg_flight = [], dg_answer = None, dg_sent = JUndef\<rparr>"


subsection \<open>What the handler does\<close>

text \<open>What the server relies on: strings arrive as they are, and the decimals of the form have at most twelve places.\<close>

definition wire_ok :: "'d bet_wire \<Rightarrow> bool" where
  "wire_ok W \<longleftrightarrow> (\<forall>s. w_text W (JStr s) = Some s) \<and> (\<forall>a x n. w_decimal W (JDec a) = Some (x, n) \<longrightarrow> grid x)"

lemma fold_case_names:
  "fold_case ''betAmount'' = ''betamount''" "fold_case ''minWantedGain'' = ''minwantedgain''" "fold_case ''marketId'' = ''marketid''"
  "fold_case ''outcomeId'' = ''outcomeid''" "fold_case ''side'' = ''side''" "fold_case ''currency'' = ''currency''"
  "fold_case ''idempotencyKey'' = ''idempotencykey''"
  by (simp_all add: fold_case_def char_of_def bit_0)

lemma int64_of_jint: "int64_of (jint i) = Some j \<Longrightarrow> j = i"
  by (auto simp: int64_of_def jint_def split: if_splits)

lemma decode_place_bet:
  assumes "wire_ok W" and "decode_betReq W (place_bet m side payout ob a k) = Some b"
  shows "bq_betAmount b = w_decimal W (JDec a)" "bq_minWantedGain b = w_decimal W (JDec payout)"
    "bq_outcomeID b = o_id ob" "bq_side b = show_side side" "bq_idempotencyKey b = k"
  using assms int64_of_jint
  by (auto simp: decode_betReq_def place_bet_def set_field_def fold_case_names Let_def is_null_def wire_ok_def jint_def
      split: option.splits bind_splits)

lemma http_error_ok [simp]: "ok (http_error code msg) \<longleftrightarrow> 200 \<le> code \<and> code \<le> 299"
  by (simp add: ok_def http_error_def)

lemma mapErrorRepo_not_ok [simp]: "\<not> ok (mapErrorRepo e)"
  by (cases e) simp_all

lemma ParseAndValidateJSON_not_ok: "ParseAndValidateJSON W v = Inl a \<Longrightarrow> \<not> ok a"
  by (auto simp: ParseAndValidateJSON_def ok_def http_error_def split: option.splits if_splits)

lemma bet_answer_iff: "bet_answer x = (a, Some d) \<longleftrightarrow> x = Inr d \<and> a = http_error 200 ''bet succesfully placed''"
  by (cases x) auto

lemma bet_answer_ok: "bet_answer x = (a, res) \<Longrightarrow> ok a \<longleftrightarrow> res \<noteq> None"
  by (cases x) auto

lemma PlaceBet_ok_iff:
  assumes "PlaceBet W B user v d0 runs = Some (a, res)"
  shows "ok a \<longleftrightarrow> res \<noteq> None"
proof (cases "ParseAndValidateJSON W v")
  case (Inl x)
  with assms ParseAndValidateJSON_not_ok [OF Inl] show ?thesis by (simp add: PlaceBet_def)
next
  case (Inr b)
  show ?thesis
  proof (cases "GetLedgerAccountForCurrency user (bq_currency b) Liability (db_ledger d0)")
    case (Inr acc)
    with assms \<open>ParseAndValidateJSON W v = Inr b\<close> obtain x where "bet_answer x = (a, res)" by (auto simp: PlaceBet_def)
    then show ?thesis by (rule bet_answer_ok)
  qed (use assms Inr in \<open>auto simp: PlaceBet_def\<close>)
qed

lemma PlaceBet_accepts:
  assumes "PlaceBet W B user v d0 runs = Some (a, Some d)"
  obtains b acc where "decode_betReq W v = Some b" "invalid_fields b = []" "AddBet B (bet_request_of user acc b) runs = Some (Inr d)"
  using assms by (auto simp: PlaceBet_def ParseAndValidateJSON_def bet_answer_iff split: sum.splits option.splits if_splits)

definition confirmed :: "'d bet_wire \<Rightarrow> string \<Rightarrow> 'd jv \<Rightarrow> db \<Rightarrow> bool" where
  "confirmed W k v d \<longleftrightarrow> (\<exists>m side payout ob a b n g n'. v = place_bet m side payout ob a k \<and> b \<in> set (db_bets d) \<and> bt_key b = k \<and>
     bt_outcome b = o_id ob \<and> bt_side b = side \<and> w_decimal W (JDec a) = Some (bt_paid b, n) \<and>
     w_decimal W (JDec payout) = Some (g, n') \<and> g \<le> bt_payout b)"

lemma confirmed_mono: "confirmed W k v d \<Longrightarrow> set (db_bets d) \<subseteq> set (db_bets d') \<Longrightarrow> confirmed W k v d'"
  unfolding confirmed_def by blast

lemma show_side_y: "(if show_side side = ''y'' then SideY else SideN) = side"
  by (cases side) simp_all

text \<open>A request of the form that is accepted places its bet, and its key was not used by another one.\<close>

lemma PlaceBet_places:
  assumes "wire_ok W" and "PlaceBet W exact_big user (place_bet m side payout ob a k) d0 runs = Some (ans, Some d')"
    and runs: "\<forall>i now tid bid e. runs i = Runs now tid bid e \<longrightarrow> e = d" and "db_ok d"
  shows "server_step d d'" and "confirmed W k (place_bet m side payout ob a k) d'" and "k \<notin> bt_key ` set (db_bets d)"
proof -
  let ?v = "place_bet m side payout ob a k"
  obtain b acc where b: "decode_betReq W ?v = Some b" "invalid_fields b = []"
    and add: "AddBet exact_big (bet_request_of user acc b) runs = Some (Inr d')"
    by (rule PlaceBet_accepts [OF assms(2)])
  note f = decode_place_bet [OF assms(1) b(1)]
  obtain x n g n' where x: "w_decimal W (JDec a) = Some (x, n)" "w_decimal W (JDec payout) = Some (g, n')"
    using b(2) f(1,2) by (auto simp: invalid_fields_def shown_def split: if_splits option.splits)
  let ?r = "\<lparr>rq_account = acc, rq_user = user, rq_market = bq_marketID b, rq_outcome = o_id ob, rq_side = side, rq_amount = x,
    rq_minGain = g, rq_key = k\<rparr>"
  have "AddBet exact_big ?r runs = Some (Inr d')"
    using add unfolding bet_request_of_def f show_side_y x by simp
  then have "bet_attempts exact_big ?r runs [0..<3] = Some (Inr d')" by (auto simp: AddBet_def split: if_splits)
  from bet_attempts_run [OF this] runs obtain now tid bid where once: "addBetOnce exact_big now tid bid ?r d = Some (Inr d')" by blast
  have gr: "grid x" "grid g" using assms(1) x by (auto simp: wire_ok_def)
  show "server_step d d'" by (rule server_step.bet [OF once]) (simp add: gr)
  obtain r where p: "placed now ?r d d' r" using addBetOnce_placed [OF once] by blast
  then show "k \<notin> bt_key ` set (db_bets d)" by (simp add: placed_def)
  have "bt_paid r = x" "g \<le> bt_payout r" "r \<in> set (db_bets d')" "bt_key r = k" "bt_outcome r = o_id ob" "bt_side r = side"
    using p gr numeric12_grid [OF gr(1)] numeric12_mono [OF gr(2)] by (auto simp: placed_def split: if_splits)
  with x show "confirmed W k ?v d'" unfolding confirmed_def by blast
qed

subsection \<open>The invariant of a dialog\<close>

definition from_form :: "string \<Rightarrow> 'd jv \<Rightarrow> bool" where
  "from_form k v \<longleftrightarrow> (\<exists>m side payout ob a. v = place_bet m side payout ob a k)"

definition dialog_ok :: "'d bet_wire \<Rightarrow> string \<Rightarrow> 'd dialog \<Rightarrow> bool" where
  "dialog_ok W k s \<longleftrightarrow> bm_idempotencyKey (dg_form s) = k \<and> db_ok (dg_db s) \<and>
     (\<forall>v waits. (v, waits) \<in> set (dg_flight s) \<longrightarrow> from_form k v \<and>
        (waits \<longrightarrow> v = dg_sent s \<and> dg_answer s = None \<and> bm_isPending (dg_form s))) \<and>
     length (filter snd (dg_flight s)) \<le> 1 \<and>
     (dg_answer s \<noteq> None \<longrightarrow> bm_isPending (dg_form s)) \<and>
     (bm_showSuccess (dg_form s) \<or> (\<exists>a. dg_answer s = Some a \<and> ok a) \<longrightarrow> confirmed W k (dg_sent s) (dg_db s))"

lemma dialog_okD:
  assumes "dialog_ok W k s"
  shows "bm_idempotencyKey (dg_form s) = k" "db_ok (dg_db s)" "(v, w) \<in> set (dg_flight s) \<Longrightarrow> from_form k v"
    "(v, True) \<in> set (dg_flight s) \<Longrightarrow> v = dg_sent s \<and> dg_answer s = None \<and> bm_isPending (dg_form s)"
    "length (filter snd (dg_flight s)) \<le> 1" "dg_answer s \<noteq> None \<Longrightarrow> bm_isPending (dg_form s)"
    "bm_showSuccess (dg_form s) \<or> (\<exists>a. dg_answer s = Some a \<and> ok a) \<Longrightarrow> confirmed W k (dg_sent s) (dg_db s)"
  using assms by (simp_all add: dialog_ok_def)

lemma dialog_okI:
  assumes "bm_idempotencyKey (dg_form s) = k" "db_ok (dg_db s)" "\<And>v w. (v, w) \<in> set (dg_flight s) \<Longrightarrow> from_form k v"
    "\<And>v. (v, True) \<in> set (dg_flight s) \<Longrightarrow> v = dg_sent s \<and> dg_answer s = None \<and> bm_isPending (dg_form s)"
    "length (filter snd (dg_flight s)) \<le> 1" "dg_answer s \<noteq> None \<Longrightarrow> bm_isPending (dg_form s)"
    "bm_showSuccess (dg_form s) \<or> (\<exists>a. dg_answer s = Some a \<and> ok a) \<Longrightarrow> confirmed W k (dg_sent s) (dg_db s)"
  shows "dialog_ok W k s"
  unfolding dialog_ok_def using assms by (intro conjI allI impI) simp_all

lemma bet_acts_success:
  assumes "bet_acts F X fmt st qs st'"
  shows "bm_showSuccess st' = bm_showSuccess st"
  using assms
proof cases
  case (press env r e es)
  then show ?thesis by (cases e) (auto simp: Let_def split: if_splits option.splits)
next
  case (stake env r v es)
  then show ?thesis by (auto split: if_splits option.splits)
qed (simp add: bet_initial_outcome_def)

lemma postBet_answered: "(\<exists>x. postBet (\<lambda>_. Some a) base v = Inr x) \<longleftrightarrow> ok a \<and> resp_body a \<noteq> None"
  by (auto simp: postBet_def bindE_eq_Inr checked_ok)

lemma told_cases:
  "told base None s = bet_failed (dg_form s)"
  "told base (Some a) s = (if ok a \<and> resp_body a \<noteq> None then fst (bet_succeeded (dg_form s)) else bet_failed (dg_form s))"
proof -
  show "told base None s = bet_failed (dg_form s)" by (simp add: told_def postBet_def checked_fails(1) bindE_def)
  show "told base (Some a) s = (if ok a \<and> resp_body a \<noteq> None then fst (bet_succeeded (dg_form s)) else bet_failed (dg_form s))"
    using postBet_answered [of a base "dg_sent s"] by (auto simp: told_def split: sum.splits)
qed

lemma told_form:
  "bm_idempotencyKey (told base a s) = bm_idempotencyKey (dg_form s)" "\<not> bm_isPending (told base a s)"
  "bm_showSuccess (told base a s) \<Longrightarrow> bm_showSuccess (dg_form s) \<or> (\<exists>x. a = Some x \<and> ok x)"
  by (cases a; simp add: told_cases bet_failed_def bet_succeeded_def split: if_splits)+

lemma dialog_init_ok: "db_ok d \<Longrightarrow> dialog_ok W k (dialog_init k i side d)"
  by (simp add: dialog_ok_def dialog_init_def bet_modal_init_def)

lemma dialog_send_ok:
  assumes "bet_acts F X fmt (dg_form s) [(op, v)] st" and "dialog_ok W k s"
  shows "dialog_ok W k (s\<lparr>dg_form := st, dg_sent := v, dg_flight := dg_flight s @ [(v, True)]\<rparr>)"
proof -
  from bet_acts_request [OF assms(1) list.set_intros(1)] obtain env r where r: "\<not> bm_showSuccess (dg_form s)" "\<not> bm_isPending (dg_form s)"
    "[(op, v)] = requests (handleClickBet env r (dg_form s))" "st = (dg_form s)\<lparr>bm_isPending := True\<rparr>" by blast
  note ok = dialog_okD [OF assms(2)]
  have "(op, v) \<in> set (requests (handleClickBet env r (dg_form s)))" unfolding r(3) [symmetric] by simp
  then have v: "from_form k v" unfolding from_form_def ok(1) [symmetric] by (rule handleClickBet_requests) blast
  have old: "(u, True) \<notin> set (dg_flight s)" for u using ok(4) [of u] r(2) by blast
  then have none: "filter snd (dg_flight s) = []" by (auto simp: filter_empty_conv)
  have "dg_answer s = None" using ok(6) r(2) by blast
  with r(1) show ?thesis by (intro dialog_okI) (use ok(1,2,3) v old none in \<open>auto simp: r(4)\<close>)
qed

lemma dialog_serve_ok:
  assumes "dg_flight s = xs @ (v, waits) # ys" and "PlaceBet W exact_big user v d0 runs = Some (a, res)"
    and "\<forall>i now tid bid d. runs i = Runs now tid bid d \<longrightarrow> d = dg_db s" and "dialog_ok W k s" and "wire_ok W"
  shows "dialog_ok W k (s\<lparr>dg_flight := xs @ ys, dg_db := (case res of None \<Rightarrow> dg_db s | Some d \<Rightarrow> d),
      dg_answer := (if waits then Some a else dg_answer s)\<rparr>)" (is "dialog_ok W k ?s")
proof -
  note ok = dialog_okD [OF assms(4)] and db = dialog_okD(2) [OF assms(4)]
  have v: "from_form k v" "waits \<Longrightarrow> v = dg_sent s \<and> dg_answer s = None \<and> bm_isPending (dg_form s)"
    using ok(3,4) [of v] assms(1) by auto
  have d: "db_ok (dg_db ?s) \<and> set (db_bets (dg_db s)) \<subseteq> set (db_bets (dg_db ?s)) \<and> (ok a \<longrightarrow> confirmed W k v (dg_db ?s))"
  proof (cases res)
    case None
    with db PlaceBet_ok_iff [OF assms(2)] show ?thesis by simp
  next
    case (Some d')
    obtain m side payout ob am where "v = place_bet m side payout ob am k" using v(1) by (auto simp: from_form_def)
    with assms(2) Some have "PlaceBet W exact_big user (place_bet m side payout ob am k) d0 runs = Some (a, Some d')" by simp
    note p = PlaceBet_places [OF assms(5) this assms(3) db]
    show ?thesis using step_ok [OF p(1) db] p(2) \<open>v = _\<close> by (simp add: Some)
  qed
  have sub: "q \<in> set (xs @ ys) \<Longrightarrow> q \<in> set (dg_flight s)" for q by (auto simp: assms(1))
  have one: "waits \<Longrightarrow> (u, True) \<notin> set (xs @ ys)" "length (filter snd (xs @ ys)) \<le> 1" for u
    using ok(5) by (auto simp: assms(1) filter_empty_conv split: if_splits)
  show ?thesis
  proof (rule dialog_okI)
    fix u w assume "(u, w) \<in> set (dg_flight ?s)"
    then have "(u, w) \<in> set (xs @ ys)" by simp
    from ok(3) [OF sub [OF this]] show "from_form k u" .
  next
    fix u assume "(u, True) \<in> set (dg_flight ?s)"
    then have u: "(u, True) \<in> set (xs @ ys)" by simp
    with one(1) [of u] have "\<not> waits" by blast
    with ok(4) [OF sub [OF u]] show "u = dg_sent ?s \<and> dg_answer ?s = None \<and> bm_isPending (dg_form ?s)" by simp
  next
    assume "dg_answer ?s \<noteq> None"
    then show "bm_isPending (dg_form ?s)" using ok(6) v(2) by (cases waits) simp_all
  next
    assume p: "bm_showSuccess (dg_form ?s) \<or> (\<exists>a. dg_answer ?s = Some a \<and> ok a)"
    show "confirmed W k (dg_sent ?s) (dg_db ?s)"
    proof (cases "waits \<and> ok a")
      case True
      with d v(2) show ?thesis by simp
    next
      case False
      with p have "bm_showSuccess (dg_form s) \<or> (\<exists>a. dg_answer s = Some a \<and> ok a)" by (auto split: if_splits)
      from confirmed_mono [OF ok(7) [OF this]] d show ?thesis by simp
    qed
  qed (use ok(1) d one(2) in simp_all)
qed

lemma dialog_step_ok:
  assumes "bet_dialog F X fmt W base user s s'" and "dialog_ok W k s" and "wire_ok W"
  shows "dialog_ok W k s'"
  using assms(1)
proof cases
  case (quiet st)
  with assms(2) bet_acts_key [OF quiet(2)] bet_acts_success [OF quiet(2)] bet_acts_quiet [OF quiet(2)]
  show ?thesis by (simp add: dialog_ok_def)
next
  case (send op v st)
  with dialog_send_ok [OF send(2) assms(2)] show ?thesis by simp
next
  case (serve xs v waits ys d0 runs a res)
  with dialog_serve_ok [OF serve(2-4) assms(2,3)] show ?thesis by simp
next
  case (others d)
  then show ?thesis using assms(2) step_ok [OF others(2)] confirmed_mono [of W k "dg_sent s" "dg_db s" d] by (auto simp: dialog_ok_def)
next
  case (answered a)
  with assms(2) told_form [of base "Some a" s] show ?thesis unfolding dialog_ok_def by auto
next
  case lost
  with assms(2) told_form [of base None s] show ?thesis unfolding dialog_ok_def by auto
qed

lemma dialog_run_ok:
  assumes "(bet_dialog F X fmt W base user)\<^sup>*\<^sup>* s s'" and "dialog_ok W k s" and "wire_ok W"
  shows "dialog_ok W k s'"
  using assms by (induction rule: rtranclp_induct) (auto intro: dialog_step_ok)


text \<open>Once the key is used, no request of the form succeeds.\<close>

definition unconfirmed :: "string \<Rightarrow> 'd dialog \<Rightarrow> bool" where
  "unconfirmed k s \<longleftrightarrow> k \<in> bt_key ` set (db_bets (dg_db s)) \<and> \<not> bm_showSuccess (dg_form s) \<and> (\<forall>a. dg_answer s = Some a \<longrightarrow> \<not> ok a)"

lemma unconfirmed_step:
  assumes "bet_dialog F X fmt W base user s s'" and "dialog_ok W k s" and "wire_ok W" and "unconfirmed k s"
  shows "unconfirmed k s'"
  using assms(1)
proof cases
  case (quiet st)
  with assms(4) bet_acts_success [OF quiet(2)] show ?thesis by (simp add: unconfirmed_def)
next
  case (send op v st)
  with assms(4) bet_acts_success [OF send(2)] show ?thesis by (simp add: unconfirmed_def)
next
  case (serve xs v waits ys d0 runs a res)
  have v: "from_form k v" and db: "db_ok (dg_db s)" using assms(2) serve(2) unfolding dialog_ok_def by auto
  have "res = None"
  proof (rule ccontr)
    assume "res \<noteq> None"
    with v serve(3) obtain m side payout ob am d' where
      "PlaceBet W exact_big user (place_bet m side payout ob am k) d0 runs = Some (a, Some d')" by (auto simp: from_form_def)
    from PlaceBet_places(3) [OF assms(3) this serve(4) db] assms(4) show False by (simp add: unconfirmed_def)
  qed
  with PlaceBet_ok_iff [OF serve(3)] assms(4) show ?thesis by (simp add: serve(1) unconfirmed_def)
next
  case (others d)
  moreover have "db_ok (dg_db s)" using assms(2) by (simp add: dialog_ok_def)
  ultimately show ?thesis using step_ok [OF others(2)] assms(4) by (auto simp: unconfirmed_def)
next
  case (answered a)
  with assms(4) told_form(3) [of base "Some a" s] show ?thesis by (auto simp: unconfirmed_def)
next
  case lost
  with assms(4) told_form(3) [of base None s] show ?thesis by (auto simp: unconfirmed_def)
qed

lemma unconfirmed_run:
  assumes "(bet_dialog F X fmt W base user)\<^sup>*\<^sup>* s s'" and "dialog_ok W k s" and "wire_ok W" and "unconfirmed k s"
  shows "unconfirmed k s'"
  using assms(1)
proof (induction rule: rtranclp_induct)
  case (step t u)
  then show ?case using unconfirmed_step dialog_run_ok [OF step(1) assms(2,3)] assms(3) by blast
qed (rule assms(4))

lemma distinct_key_filter: "distinct (map f xs) \<Longrightarrow> length (filter (\<lambda>x. f x = k) xs) \<le> 1"
proof (induction xs)
  case (Cons x xs)
  then show ?case by (auto simp: filter_empty_conv image_iff)
qed simp

subsection \<open>Properties\<close>

text \<open>
  C8. What the user of the form is told is what the database holds, however requests, answers and other people's transactions
  interleave and whatever is lost. All attempts of a form together place at most one bet. When it shows that the bet was placed, the
  database has a bet with its key for the outcome, side and stake of its last request, with a payout of at least the gain that the request
  demanded. But if the answer to a bet that was placed is lost, the form never shows it: every further attempt is
  refused.
\<close>

theorem bet_dialog_sound:
  assumes "(bet_dialog F X fmt W base user)\<^sup>*\<^sup>* (dialog_init key i side d) s" and "db_ok d" and "wire_ok W"
  shows "db_ok (dg_db s) \<and> length (filter (\<lambda>b. bt_key b = key) (db_bets (dg_db s))) \<le> 1 \<and>
    (bm_showSuccess (dg_form s) \<longrightarrow> (\<exists>m sd payout ob a b n g n'. dg_sent s = place_bet m sd payout ob a key \<and>
       b \<in> set (db_bets (dg_db s)) \<and> bt_key b = key \<and> bt_outcome b = o_id ob \<and> bt_side b = sd \<and>
       w_decimal W (JDec a) = Some (bt_paid b, n) \<and> w_decimal W (JDec payout) = Some (g, n') \<and> g \<le> bt_payout b)) \<and>
    (\<forall>s'. key \<in> bt_key ` set (db_bets (dg_db s)) \<and> \<not> bm_showSuccess (dg_form s) \<and> \<not> bm_isPending (dg_form s) \<and>
       (bet_dialog F X fmt W base user)\<^sup>*\<^sup>* s s' \<longrightarrow> \<not> bm_showSuccess (dg_form s'))"
proof (intro conjI impI allI)
  have ok: "dialog_ok W key s" by (rule dialog_run_ok [OF assms(1) dialog_init_ok [OF assms(2)] assms(3)])
  then show "db_ok (dg_db s)" by (simp add: dialog_ok_def)
  then show "length (filter (\<lambda>b. bt_key b = key) (db_bets (dg_db s))) \<le> 1"
    by (intro distinct_key_filter) (simp add: db_ok_def bets_ok_def)
  {
    assume "bm_showSuccess (dg_form s)"
    with ok have "confirmed W key (dg_sent s) (dg_db s)" by (simp add: dialog_ok_def)
    then show "\<exists>m sd payout ob a b n g n'. dg_sent s = place_bet m sd payout ob a key \<and>
       b \<in> set (db_bets (dg_db s)) \<and> bt_key b = key \<and> bt_outcome b = o_id ob \<and> bt_side b = sd \<and>
       w_decimal W (JDec a) = Some (bt_paid b, n) \<and> w_decimal W (JDec payout) = Some (g, n') \<and> g \<le> bt_payout b"
      by (simp only: confirmed_def)
  }
  fix s'
  assume a: "key \<in> bt_key ` set (db_bets (dg_db s)) \<and> \<not> bm_showSuccess (dg_form s) \<and> \<not> bm_isPending (dg_form s) \<and>
    (bet_dialog F X fmt W base user)\<^sup>*\<^sup>* s s'"
  with ok have "unconfirmed key s" by (auto simp: dialog_ok_def unconfirmed_def)
  from a have "(bet_dialog F X fmt W base user)\<^sup>*\<^sup>* s s'" by (elim conjE)
  from unconfirmed_run [OF this ok assms(3) \<open>unconfirmed key s\<close>] show "\<not> bm_showSuccess (dg_form s')" by (simp add: unconfirmed_def)
qed


subsection \<open>A concrete dialog\<close>

text \<open>
  The form shows a market with two shares of each outcome; meanwhile the server has a market in which the outcome is cheaper.
\<close>

definition demo_shown :: "real market_view" where
  "demo_shown = (open_market [2, 2])\<lparr>outcomes := [demo_outcome 1 2, demo_outcome 2 2]\<rparr>"

definition demo_bet_wire :: "real bet_wire" where
  "demo_bet_wire = \<lparr>w_text = (\<lambda>v. case v of JStr s \<Rightarrow> Some s | _ \<Rightarrow> None),
     w_decimal = (\<lambda>v. case v of
        JDec x \<Rightarrow> if x * 100 = of_int \<lfloor>x * 100\<rfloor> then Some (x, 2) else None
      | _ \<Rightarrow> None),
     w_uuid = Some\<rparr>"

lemma demo_bet_wire_ok: "wire_ok demo_bet_wire"
proof -
  have "grid x" if "x * 100 = of_int \<lfloor>x * 100\<rfloor>" for x
    unfolding grid_def using that by (intro exI [of _ "\<lfloor>x * 100\<rfloor> * 10 ^ 10"]) simp
  then show ?thesis by (auto simp: wire_ok_def demo_bet_wire_def split: if_splits)
qed

lemma shown_quote:
  obtains payout prob where "possiblePayoutProbForSpend exact real_lib demo_shown 1 1 SideY = Some (Inr (True, payout, prob))"
    "1 < payout" "payout \<le> 2" "payout * 100 = of_int \<lfloor>payout * 100\<rfloor>"
proof -
  have m: "market_fin (\<lambda>_. True) demo_shown" "outcome_index demo_shown 1 = int 0" "quantities (\<lambda>x. x) demo_shown = [2, 2]"
    "alpha demo_shown = 1 / 4" "capPrice demo_shown = 2" "length (outcomes demo_shown) = 2"
    by (simp_all add: demo_shown_def market_fin_def outcome_index_def findIndex_def demo_outcome_def quantities_def)
  obtain r where r: "1 \<le> r" "buy_cost [2, 2] (1 / 4) 0 SideY r \<le> 1"
    "\<forall>r'\<ge>r + 1002 / 1000000. 1 \<le> buy_cost [2, 2] (1 / 4) 0 SideY r'"
    and eq: "possiblePayoutProbForSpend exact real_lib demo_shown 1 1 SideY = Some (Inr
      (if \<exists>p\<in>set (map (lmsr_price (shift_r [2, 2] 0 SideY r) (1 / 4)) [0..<2]). 2 < p
       then (False, dOfInt real_lib 0, dOfInt real_lib 0)
       else (True, truncatePrecision real_lib (dNew real_lib (Fin r)) 2 ROUND_DOWN,
         truncatePrecision real_lib (gainProportion real_lib 1 (truncatePrecision real_lib (dNew real_lib (Fin r)) 2 ROUND_DOWN)) SCALE ROUND_UP)))"
    using decimal_exact.quote_unfold [OF real_lib_decimal m(1) TrueI m(2), of SideY 1, unfolded m(3-6), OF quotable_open] by blast
  have "live (shift_r [2, 2] 0 SideY r) (1 / 4)" using quotable_open r(1) by (intro shift_r_live) (auto simp: quotable_def)
  then have "\<not> (\<exists>p\<in>set (map (lmsr_price (shift_r [2, 2] 0 SideY r) (1 / 4)) [0..<2]). 2 < p)"
    using price_le_2 [of "shift_r [2, 2] 0 SideY r"] by (auto simp: not_less)
  moreover have p: "truncatePrecision real_lib (dNew real_lib (Fin r)) 2 ROUND_DOWN = round_dp ROUND_DOWN 2 r"
    by (simp add: truncatePrecision_def real_lib_def real_of_num_def)
  moreover have "51 / 50 < r" using r(3) demo_costs(1) by (cases "51 / 50 < r") (auto dest: spec [of _ "21 / 20"])
  moreover have "r \<le> 2" using demo_costs(2) r(1,2) by simp
  ultimately show thesis
    using that [of "round_dp ROUND_DOWN 2 r"] eq round_dp_down [of r 2] r(1) by (simp only: if_False) (simp add: round_dp_def)
qed

lemma moved_costs:
  shows "buy_cost [0, 2] (1 / 4) 0 SideY (2 + 1 / 100) < 1"
    and "0 \<le> g \<Longrightarrow> buy_cost [0, 2] (1 / 4) 0 SideY g \<le> 1 \<Longrightarrow> g \<le> 4"
proof -
  have s: "shift_r [0, 2] 0 SideY g = [g, 2]" for g by (simp add: shift_r_def hit_def)
  have l: "live [g, 2] (1 / 4)" if "0 \<le> g" for g using that by (simp add: live_def)
  have b: "lmsr_b [g, 2] (1 / 4) = (g + 2) / 4" for g by (simp add: lmsr_b_def)
  have two: "[x, y] ! i \<le> m" if "x \<le> m" "y \<le> m" "i < length [x, y]" for x y m :: real and i
    using that by (auto simp: less_Suc_eq)
  have "lmsr_cost [201 / 100, 2] (1 / 4) \<le> 201 / 100 + 401 / 400 * ln 2"
    using lmsr_cost_le [OF l two, of "201 / 100" "201 / 100"] by (simp add: b)
  moreover have "2 \<le> lmsr_cost [0, 2] (1 / 4)" using lmsr_cost_ge [OF l, of 0 1] by simp
  moreover have "401 / 400 * ln 2 \<le> 401 / 400 * (7 / 10 :: real)" by (intro mult_left_mono ln_2_le) simp
  ultimately show "buy_cost [0, 2] (1 / 4) 0 SideY (2 + 1 / 100) < 1" by (simp add: buy_cost_def s)
  assume g: "0 \<le> g" "buy_cost [0, 2] (1 / 4) 0 SideY g \<le> 1"
  have "g \<le> lmsr_cost [g, 2] (1 / 4)" using lmsr_cost_ge [OF l, of g 0] g(1) by simp
  moreover have "lmsr_cost [0, 2] (1 / 4) \<le> 2 + 1 / 2 * ln 2" using lmsr_cost_le [OF l two, of 0 2] by (simp add: b)
  ultimately show "g \<le> 4" using g(2) ln_2_le by (simp add: buy_cost_def s)
qed


definition demo_shown_env :: "real bet_env" where
  "demo_shown_env = \<lparr>be_market = Some demo_shown,
     be_balance = Some \<lparr>bal_amount = 4, bal_currency = USDT, bal_version = 1\<rparr>, be_user = True\<rparr>"

lemma shown_sel [simp]:
  "outcomes demo_shown = [demo_outcome 1 2, demo_outcome 2 2]" "isBinary demo_shown" "m_id demo_shown = ''m''"
  by (simp_all add: demo_shown_def open_market_def demo_market_def)

lemma shown_stake:
  "bet_acts exact demo_decs OddsDecimal (bet_modal_init ''k'' 1 SideY) [] ((bet_modal_init ''k'' 1 SideY)\<lparr>bm_amount := Some 1\<rparr>)"
proof -
  let ?r = "\<lparr>br_market = demo_shown, br_outcome = demo_outcome 1 2, br_possible = False, br_payout = 0,
    br_probability = 0, br_hasInsufficientFunds = False, br_betTooMuch = False\<rparr>"
  have r: "bet_render exact (dec_lib demo_decs) demo_shown_env (bet_modal_init ''k'' 1 SideY) = Some (Inr (Some ?r))"
    by (simp add: bet_render_def demo_shown_env_def bet_modal_init_def bet_quote_def demo_decs_def real_lib_def demo_outcome_def)
  have "bet_acts exact demo_decs OddsDecimal (bet_modal_init ''k'' 1 SideY) (requests [])
      ((bet_modal_init ''k'' 1 SideY)\<lparr>bm_amount := Some 1\<rparr>)"
    by (rule bet_acts.stake [OF r, of "''1''"]) (simp_all add: demo_decs_def bet_modal_init_def)
  then show ?thesis by simp
qed

lemma shown_press:
  assumes "possiblePayoutProbForSpend exact real_lib demo_shown 1 1 SideY = Some (Inr (True, payout, prob))"
    and "st = (bet_modal_init ''k'' 1 SideY)\<lparr>bm_amount := Some 1\<rparr>"
  shows "bet_acts exact demo_decs OddsDecimal st
    [(PostBet, place_bet demo_shown SideY payout (demo_outcome 1 2) 1 ''k'')] (st\<lparr>bm_isPending := True\<rparr>)"
proof -
  let ?r = "\<lparr>br_market = demo_shown, br_outcome = demo_outcome 1 2, br_possible = True, br_payout = payout,
    br_probability = prob, br_hasInsufficientFunds = False, br_betTooMuch = False\<rparr>"
  have lib: "dec_lib demo_decs = real_lib" by (simp add: demo_decs_def)
  have "\<not> isZero real_lib 1" "\<not> lessThan real_lib 4 1" by (simp_all add: isZero_def real_lib_def)
  with assms have r: "bet_render exact (dec_lib demo_decs) demo_shown_env st = Some (Inr (Some ?r))"
    by (simp add: bet_render_def demo_shown_env_def bet_modal_init_def bet_quote_def lib demo_outcome_def)
  have h: "handleClickBet demo_shown_env ?r st = [Blur, Mutate PostBet (place_bet demo_shown SideY payout (demo_outcome 1 2) 1 ''k'')]"
    by (simp add: handleClickBet_def demo_shown_env_def assms(2) bet_modal_init_def)
  have "bet_acts exact demo_decs OddsDecimal st (requests (handleClickBet demo_shown_env ?r st)) (st\<lparr>bm_isPending := True\<rparr>)"
    by (rule bet_acts.press [OF r, of PressBet])
      (simp_all add: h, simp add: bet_view_def bet_form_view_def assms(2) bet_modal_init_def)
  then show ?thesis by (simp add: h)
qed

lemma shown_placed:
  assumes "1 < payout" and "payout \<le> 2" and "payout * 100 = of_int \<lfloor>payout * 100\<rfloor>"
  shows "\<exists>d'. PlaceBet demo_bet_wire exact_big ''u1'' (place_bet demo_shown SideY payout (demo_outcome 1 2) 1 ''k'') (demo_state 0)
    (\<lambda>i. Runs 0 ''t5'' ''b1'' (demo_state 0)) = Some (http_error 200 ''bet succesfully placed'', Some d')"
proof -
  obtain g where g: "PossibleGainPriceForBuy exact_big [0, 2] 0 True (1 / 4) 1 3 = Some (Inr (True, g, round_dp ROUND_UP 12 (1 / g)))"
    "2 \<le> g" "g \<le> 4" "grid g"
    by (rule demo_gain [of 0 2 4]) (use moved_costs in simp_all)
  have "grid 0" using grid_int [of 0] by simp
  then have "\<exists>d'. addBetOnce exact_big 0 ''t5'' ''b1'' (demo_req ''k'' payout) (demo_state 0) = Some (Inr d')"
    using demo_once [OF g(1) _ g(3,4), of "''k''" payout] g(2) assms(2) by simp
  then obtain d' where d': "AddBet exact_big (demo_req ''k'' payout) (\<lambda>i. Runs 0 ''t5'' ''b1'' (demo_state 0)) = Some (Inr d')"
    using assms(1) by (auto simp: AddBet_def numeral_3_eq_3 upt_rec demo_req_def)
  let ?b = "\<lparr>bq_betAmount = Some (1, 2), bq_minWantedGain = Some (payout, 2), bq_marketID = ''m'', bq_outcomeID = 1, bq_side = ''y'',
    bq_currency = ''USDT'', bq_idempotencyKey = ''k''\<rparr>"
  have "decode_betReq demo_bet_wire (place_bet demo_shown SideY payout (demo_outcome 1 2) 1 ''k'') = Some ?b"
    using assms(3)
    by (simp add: decode_betReq_def place_bet_def set_field_def fold_case_names Let_def is_null_def demo_bet_wire_def jint_def
        int64_of_def zero_betReq_def demo_outcome_def)
  moreover have "invalid_fields ?b = []" using assms by (simp add: invalid_fields_def shown_def nil_uuid_def)
  ultimately have "ParseAndValidateJSON demo_bet_wire (place_bet demo_shown SideY payout (demo_outcome 1 2) 1 ''k'') = Inr ?b"
    by (simp add: ParseAndValidateJSON_def)
  moreover have "GetLedgerAccountForCurrency ''u1'' ''USDT'' Liability (db_ledger (demo_state 0)) = Inr ''ann''"
    by (simp add: GetLedgerAccountForCurrency_def demo_state_def demo_money_def attempt_transfer_def transfer_defs demo_ledger_def demo_account_def)
  moreover have "bet_request_of ''u1'' ''ann'' ?b = demo_req ''k'' payout" by (simp add: bet_request_of_def demo_req_def)
  ultimately show ?thesis using d' by (simp add: PlaceBet_def)
qed

theorem bet_dialog_sound_witness:
  "\<exists>s b. (bet_dialog exact demo_decs OddsDecimal demo_bet_wire ''/api'' ''u1'')\<^sup>*\<^sup>* (dialog_init ''k'' 1 SideY (demo_state 0)) s \<and>
     bm_showSuccess (dg_form s) \<and> b \<in> set (db_bets (dg_db s)) \<and> bt_key b = ''k'' \<and> bt_side b = SideY \<and> bt_outcome b = 1 \<and> bt_paid b = 1"
proof -
  let ?step = "bet_dialog exact demo_decs OddsDecimal demo_bet_wire ''/api'' ''u1''"
  let ?st = "(bet_modal_init ''k'' 1 SideY)\<lparr>bm_amount := Some 1\<rparr> :: real bet_modal" and ?d = "demo_state 0"
  obtain payout prob where q: "possiblePayoutProbForSpend exact real_lib demo_shown 1 1 SideY = Some (Inr (True, payout, prob))"
    "1 < payout" "payout \<le> 2" "payout * 100 = of_int \<lfloor>payout * 100\<rfloor>"
    by (rule shown_quote)
  let ?v = "place_bet demo_shown SideY payout (demo_outcome 1 2) 1 ''k''" and ?a = "http_error 200 ''bet succesfully placed'' :: real response"
  obtain d' where d': "PlaceBet demo_bet_wire exact_big ''u1'' ?v ?d (\<lambda>i. Runs 0 ''t5'' ''b1'' ?d) = Some (?a, Some d')"
    using shown_placed [OF q(2-4)] by blast
  define s0 where "s0 = (dialog_init ''k'' 1 SideY ?d :: real dialog)"
  define s1 where "s1 = s0\<lparr>dg_form := ?st\<rparr>"
  define s2 where "s2 = s1\<lparr>dg_form := ?st\<lparr>bm_isPending := True\<rparr>, dg_sent := ?v, dg_flight := dg_flight s1 @ [(?v, True)]\<rparr>"
  define s3 where "s3 = s2\<lparr>dg_flight := [] @ [], dg_db := (case Some d' of None \<Rightarrow> dg_db s2 | Some d \<Rightarrow> d),
      dg_answer := (if True then Some ?a else dg_answer s2)\<rparr>"
  define s4 where "s4 = s3\<lparr>dg_form := told ''/api'' (Some ?a) s3, dg_answer := None\<rparr>"
  have "?step s0 s1" unfolding s1_def by (rule bet_dialog.quiet) (simp add: s0_def dialog_init_def shown_stake)
  moreover have "?step s1 s2" unfolding s2_def
    by (rule bet_dialog.send [where op = PostBet]) (use shown_press [OF q(1) refl] in \<open>simp add: s1_def\<close>)
  moreover have "?step s2 s3" unfolding s3_def
    by (rule bet_dialog.serve [OF _ d', where waits = True]) (simp_all add: s2_def s1_def s0_def dialog_init_def)
  moreover have "?step s3 s4" unfolding s4_def by (rule bet_dialog.answered) (simp add: s3_def)
  ultimately have run: "?step\<^sup>*\<^sup>* s0 s4" by (meson converse_rtranclp_into_rtranclp rtranclp.rtrancl_refl)
  have s4: "bm_showSuccess (dg_form s4)" "dg_sent s4 = ?v" "dg_form s4 = told ''/api'' (Some ?a) s3"
    by (simp_all add: s4_def s3_def s2_def told_cases bet_succeeded_def http_error_def ok_def)
  from bet_dialog_sound [OF run [unfolded s0_def] demo_db_ok demo_bet_wire_ok] s4(1)
  obtain m sd p ob a b n where "dg_sent s4 = place_bet m sd p ob a ''k''" "b \<in> set (db_bets (dg_db s4))" "bt_key b = ''k''"
    "bt_outcome b = o_id ob" "bt_side b = sd" "w_decimal demo_bet_wire (JDec a) = Some (bt_paid b, n)" by blast
  moreover from this(1) have "sd = SideY" "o_id ob = 1" "a = 1"
    unfolding s4(2) by (auto simp: place_bet_def jint_def demo_outcome_def intro: bet_side.exhaust [of sd])
  ultimately show ?thesis using run s4(1) unfolding s0_def
    by (intro exI [of _ s4] exI [of _ b]) (simp add: demo_bet_wire_def)
qed

end
