(* ===== verification/Spec2Isabelle.thy ===== *)
theory Spec2Isabelle
  imports PriceInput BetForms Comments Accounts MarketViews Browse Charts Navigation Delivery Betting
begin

text \<open>
  \<^bold>\<open>The prediction market \<^verbatim>\<open>seer\<close>.\<close> This library models the TypeScript sources of its front end under
  \<^verbatim>\<open>src/frontend/seer/src\<close> and the part of its server under \<^verbatim>\<open>src/backend\<close> that takes bets and moves money, and proves what makes
  them correct. This theory imports all others, directly or through each other; below, a source path is relative to
  \<^verbatim>\<open>src/frontend/seer/src\<close> unless it starts with \<^verbatim>\<open>src/\<close>.

  \<^bold>\<open>The program.\<close> A browser application in which users bet on the outcomes of markets. The prices of a market
  follow from the quantities sold, by a liquidity-sensitive logarithmic market scoring rule that the client computes
  itself to show prices, quotes and cash-out values (\<^verbatim>\<open>lib/lslmsr\<close>). Data comes from the server by requests
  (\<^verbatim>\<open>lib/api.ts\<close>), is validated by schemas (\<^verbatim>\<open>lib/definitions.ts\<close>) and kept in the query cache; a socket client
  (\<^verbatim>\<open>socket/socket.ts\<close>) receives updates, and the provider (\<^verbatim>\<open>app/WsProvider.tsx\<close>) folds them into the cache and
  the stores (\<^verbatim>\<open>lib/stores\<close>). Components (\<^verbatim>\<open>ui\<close>, \<^verbatim>\<open>app\<close>) read cache, stores and the parameters of the address,
  and send requests, open dialogs and change the address. Both the schema of a market and the live update compute prices with
  the market maker; the bet forms take their quotes from it; the handler of the address connects it to the dialogs.

  \<^bold>\<open>Foundations.\<close>
  \<^item> \<open>Prelude\<close>: exceptions as sums, array primitives, the collections of simplification rules.
  \<^item> \<open>JsNumber\<close>: numbers of the language over a record \<open>fpu\<close> of rounding, exponential and logarithm, either binary64
    (\<open>ieee\<close>) or exact; the locale \<open>fp_sound\<close> is the error model and both are interpretations of it.
  \<^item> \<open>JsString\<close>: strings and the arithmetic of digit strings.
  \<^item> \<open>DecimalJs\<close>: the package \<^verbatim>\<open>decimal.js\<close> as a record of operations with its documented behaviour as the locale
    \<open>decimal_js\<close>; \<open>decimal_exact\<close> extends it, and the reals are an interpretation.
  \<^item> \<open>Zod\<close>: the combinators of the schema package as a datatype, the package as the locale \<open>zod\<close>, with an executable
    interpretation.
  \<^item> \<open>Address\<close>: how the query of an address is parsed.
  \<^item> \<open>View\<close>: widgets, effects, the requests behind effects; the locale \<open>request_form\<close> is the contract of a component that
    sends requests one at a time.

  \<^bold>\<open>Market maker\<close> (\<^verbatim>\<open>lib/lslmsr\<close>). \<open>Definitions\<close> holds the records, \<open>LsLmsr\<close> every function. \<open>Bisect\<close>: the search loop ends on
  every arithmetic with the standard error up to \<open>10\<^sup>1\<^sup>1\<close>, and does not end on a bracket of
  neighbouring numbers further apart than the tolerance. \<open>Lmsr\<close> is the scoring rule on the reals; \<open>Pricing\<close> shows that
  \<open>cost\<close> and \<open>prices\<close> refine it on exact arithmetic, that prices are the gradient and how they add up, and that the
  payout found for a stake is affordable and within the tolerance of the largest. \<open>Quotes\<close>: a quote keeps to stake and price
  cap, and cashing out at once is no profit. \<open>MarketPrices\<close>: setting prices changes nothing else. \<open>Odds\<close>
  (\<^verbatim>\<open>lib/odds.ts\<close>, \<^verbatim>\<open>ui/odds\<close>): fractions are reduced and close, and where the two displays of a percentage differ.

  \<^bold>\<open>Data.\<close> \<open>Messages\<close> and \<open>Schemas\<close> hold the payloads and every schema, \<open>Validation\<close> what validated data satisfies, stated
  for every implementation of \<open>zod\<close>. \<open>Api\<close>: every request, what it sends and when it returns or throws. \<open>Utils\<close>: dates,
  paging, cookies, query keys and the update of the address, which \<open>Address\<close> shows to be read back unchanged.

  \<^bold>\<open>Live data.\<close> \<open>Socket\<close> is the client as a record with the browser's events as a step relation: at most one open
  socket, never stuck, batches transparent. \<open>Stores\<close>: the stores; the locale \<open>bounded_feed\<close> is interpreted for the two bet feeds
  and every chat. \<open>WsProvider\<close>: the handlers over the locale \<open>query_cache\<close>; market and balance updates converge
  in any order of delivery, charts stay in order, subscriptions are sent on every connection. \<open>Delivery\<close> puts them together with the
  schemas: the path from the text of a frame to cache and stores refines a specification that knows topics and news only.

  \<^bold>\<open>Components.\<close>
  \<^item> \<open>PriceInput\<close> (\<^verbatim>\<open>ui/PriceInput.tsx\<close>): the amount field rounds half down and emits what it will show.
  \<^item> \<open>BetForms\<close> (\<^verbatim>\<open>ui/bet/BetModal.tsx\<close>, \<^verbatim>\<open>BetUser.tsx\<close>, \<^verbatim>\<open>ui/markets/details/MarketBetSection.tsx\<close>): what is requested is what was
    shown and is affordable; \<open>request_form\<close> is interpreted for the three forms.
  \<^item> \<open>Comments\<close> (\<^verbatim>\<open>ui/comments\<close>): optimistic likes and deletions and their rollback.
  \<^item> \<open>Accounts\<close> (\<^verbatim>\<open>ui/auth\<close>, \<^verbatim>\<open>ui/profile\<close>, \<^verbatim>\<open>app/settings\<close>): the five forms, sessions and preferences.
  \<^item> \<open>MarketViews\<close> (\<^verbatim>\<open>ui/markets/home/MarketCard.tsx\<close>, \<^verbatim>\<open>app/(main)/market/[id]/page.tsx\<close>): what is offered when.
  \<^item> \<open>Charts\<close> (\<^verbatim>\<open>PriceCharts.tsx\<close>, \<^verbatim>\<open>PriceChartDrawer.tsx\<close>): the data of the chart is in order exactly as long as the local
    clock is not behind; the tooltip stays inside and beside the crosshair, the legend shows what is under it.
  \<^item> \<open>Browse\<close> (\<^verbatim>\<open>ui/SearchBar.tsx\<close>, the search and list pages): outcomes of the search page, complete paging.
  \<^item> \<open>Shell\<close> (\<^verbatim>\<open>app/URLHandler.tsx\<close>, chat, live bets, categories, drop-down menu): the address comes to rest, rows keep their
    background, menus stay on screen.
  \<^item> \<open>Dialogs\<close> (\<^verbatim>\<open>ui/modal\<close>, \<^verbatim>\<open>ui/drawer\<close>, the profile dialog): the round trip from a press on a user through address, handler,
    store and dialog back to the old address; amounts are grouped by thousands.
  \<^item> \<open>Navigation\<close> (\<^verbatim>\<open>ui/navbar\<close>, headers, layouts, the query client, prefetching links, small elements): one prefetch per
    link, one client per browser, when the menu of the user is shown, how a query returns to the address.

  \<^bold>\<open>The server\<close> (\<^verbatim>\<open>src/backend\<close>, Go and SQL).
  \<^item> \<open>Engine\<close> (\<^verbatim>\<open>internal/market/ls_lsmr.go\<close>, \<^verbatim>\<open>math_util.go\<close>): the market maker of the server, over the decimal package as an
    argument. On exact arithmetic it honours the quotes and cash-out values of the client.
  \<^item> \<open>Ledger\<close> (\<^verbatim>\<open>migrations/000001_tables_init.up.sql\<close>, \<^verbatim>\<open>internal/finance/finance.go\<close>): accounts, transfers and entries, and the function that
    moves money; the locale \<open>transfer_book\<close> is the contract of a ledger, with this one as its interpretation.
  \<^item> \<open>Server\<close> (\<^verbatim>\<open>internal/market/transactions.go\<close>): placing and cashing out a bet, settling and cancelling a market as transactions on
    a record of tables. Every run keeps money, books and keys in order; what an accepted bet and a settlement do to the
    tables.
  \<^item> \<open>Betting\<close> (\<^verbatim>\<open>internal/handlers/transactions.go\<close>): the handler of a bet, and the form, the network and the database as one system: what the
    form tells its user is what the database holds.

  \<^bold>\<open>How code is modelled.\<close> An operation is a function of the state it reads and returns the new state; handlers and
  renders return effects as values. The hooks of a component are a record, what it reads elsewhere is an argument. An exception
  is the left of a sum. Only \<open>bisect\<close>, \<open>gcd_dec\<close> and \<open>bisect_loop\<close> of the server may fail to return: they are partial functions with values in
  \<open>option\<close>, and that they return is proved; nothing uses fuel. A transaction of the database is a function of the state
  it is serialised in that returns the state it commits or an error. Dates are milliseconds and the current
  time is an argument. Strings hold characters up to code 255.

  \<^bold>\<open>Parameters.\<close> Code that is not part of the repository is an argument: \<^verbatim>\<open>fetch\<close>, \<^verbatim>\<open>safeParse\<close>, \<^verbatim>\<open>decimal.js\<close>, the exponential and the
  logarithm, the query cache, JSON and the schemas of socket messages, the texts of dates and the plural rules of \<^verbatim>\<open>Intl\<close>,
  \<^verbatim>\<open>decodeURIComponent\<close>, what the chart reports under the crosshair, the decimal
  package of the server, what its decoder reads from a body, the identifiers the database draws and the conflicts it reports. Where a property rests on one of them, the documented
  behaviour is a locale that has an interpretation. The form package, debouncing and infinite queries are used as documented: an
  event says that a delay has passed or that an answer has come.

  \<^bold>\<open>Not modelled.\<close> The rest of the server (accounts, searches, comments, chat, the hub of the socket, Redis), which the client sees only
  through \<^verbatim>\<open>fetch\<close> and the socket; prototypes, assets and build configuration; elements that only wrap children in styled markup, the fonts, the loading
  pages, drawings and animations, which have no behaviour of their own; logging; code that is commented out or never used.
\<close>

end
